(* ===== verification/Rust_Prelude.thy ===== *)
theory Rust_Prelude
  imports Main "HOL-Library.Word" "HOL-Library.Sublist"
begin

text \<open>
  The vocabulary every other theory shares: machine integers at their width, the
  outcome of a Rust function (a value, an error handed on by \<open>?\<close>, or a panic), the error
  values of the program with the text their \<open>Display\<close> prints, and the string operations
  of the standard library that the program uses (\<open>contains\<close>, splitting at a separator,
  \<open>join\<close>, decimal formatting of an unsigned integer).

  A Rust \<open>String\<close>, \<open>&str\<close>, \<open>OsString\<close> or byte buffer is a \<open>string\<close>, a list of HOL
  characters, each standing for one byte; \<open>length\<close> therefore counts bytes, as
  \<open>str::len\<close> does.
\<close>

section \<open>Names for the model's types\<close>

type_synonym u16 = "16 word"
type_synonym u32 = "32 word"
type_synonym u64 = "64 word"
type_synonym bytes = string

named_theorems outcome_intros
  \<comment> \<open>rules that decompose an outcome built from the combinators below\<close>
named_theorems wire_simps
  \<comment> \<open>equations of the length-prefixed wire format\<close>
named_theorems path_simps
  \<comment> \<open>equations of path strings and their components\<close>

section \<open>Errors\<close>

datatype io_error =
    NotFound
  | PermissionDenied
  | NotADirectory
  | IsADirectory
  | FilesystemLoop
  | UnexpectedEof
  | InvalidUtf8
  | BrokenPipe
  | OtherIo string

fun io_display :: "io_error \<Rightarrow> string" where
  "io_display NotFound = ''No such file or directory (os error 2)''"
| "io_display PermissionDenied = ''Permission denied (os error 13)''"
| "io_display NotADirectory = ''Not a directory (os error 20)''"
| "io_display IsADirectory = ''Is a directory (os error 21)''"
| "io_display FilesystemLoop = ''Too many levels of symbolic links (os error 40)''"
| "io_display UnexpectedEof = ''early eof''"
| "io_display InvalidUtf8 = ''stream did not contain valid UTF-8''"
| "io_display BrokenPipe = ''Broken pipe (os error 32)''"
| "io_display (OtherIo m) = m"

text \<open>
  What an \<open>anyhow::Error\<close> of this program can hold: an I/O error, a message made by
  \<open>anyhow!\<close> or \<open>bail!\<close>, the error of a third-party crate (known by its text only), and
  the two error enums of the program, \<open>CaError\<close> and the identity handlers' \<open>Error\<close>.
\<close>

datatype error =
    IoError io_error
  | Message string
  | Foreign string
  | WrongPublicKey string
  | ForbiddenUser string

fun error_display :: "error \<Rightarrow> string" where
  "error_display (IoError e) = io_display e"
| "error_display (Message m) = m"
| "error_display (Foreign m) = m"
| "error_display (WrongPublicKey h) = ''wrong public key for host: '' @ h"
| "error_display (ForbiddenUser u) = ''user '' @ u @ '' is forbidden from logging in''"

section \<open>Outcomes\<close>

datatype 'a outcome =
    Ok 'a
  | Err error
  | Panic string

text \<open>\<open>and_then r f\<close> is Rust's \<open>let x = r?; f(x)\<close>: errors and panics skip the rest.\<close>

fun and_then :: "'a outcome \<Rightarrow> ('a \<Rightarrow> 'b outcome) \<Rightarrow> 'b outcome" where
  "and_then (Ok x) f = f x"
| "and_then (Err e) f = Err e"
| "and_then (Panic m) f = Panic m"

text \<open>\<open>r.map_err(g)\<close>, for a result whose error is turned into another one.\<close>

fun map_err :: "(error \<Rightarrow> error) \<Rightarrow> 'a outcome \<Rightarrow> 'a outcome" where
  "map_err g (Err e) = Err (g e)"
| "map_err g r = r"

text \<open>Results of third-party calls and of file-system calls as outcomes.\<close>

fun foreign :: "string + 'a \<Rightarrow> 'a outcome" where
  "foreign (Inl m) = Err (Foreign m)"
| "foreign (Inr x) = Ok x"

fun io_result :: "io_error + 'a \<Rightarrow> 'a outcome" where
  "io_result (Inl e) = Err (IoError e)"
| "io_result (Inr x) = Ok x"

text \<open>\<open>unwrap\<close> and \<open>expect\<close> on an option, and the message of the former.\<close>

definition unwrap_none :: string where
  "unwrap_none = ''called `Option::unwrap()` on a `None` value''"

fun unwrap_or_panic :: "string \<Rightarrow> 'a option \<Rightarrow> 'a outcome" where
  "unwrap_or_panic m None = Panic m"
| "unwrap_or_panic m (Some x) = Ok x"

lemma and_then_Ok_iff [outcome_intros]:
  "and_then r f = Ok y \<longleftrightarrow> (\<exists>x. r = Ok x \<and> f x = Ok y)"
  by (cases r) auto

lemma and_then_Panic_iff [outcome_intros]:
  "and_then r f = Panic m \<longleftrightarrow> r = Panic m \<or> (\<exists>x. r = Ok x \<and> f x = Panic m)"
  by (cases r) auto

lemma and_then_Err_iff [outcome_intros]:
  "and_then r f = Err e \<longleftrightarrow> r = Err e \<or> (\<exists>x. r = Ok x \<and> f x = Err e)"
  by (cases r) auto

lemma and_then_assoc: "and_then (and_then r f) g = and_then r (\<lambda>x. and_then (f x) g)"
  by (cases r) auto

lemma foreign_Ok_iff [outcome_intros]: "foreign s = Ok x \<longleftrightarrow> s = Inr x"
  by (cases s) auto

lemma foreign_no_panic [simp]: "foreign s \<noteq> Panic m"
  by (cases s) auto

lemma io_result_Ok_iff [outcome_intros]: "io_result s = Ok x \<longleftrightarrow> s = Inr x"
  by (cases s) auto

lemma io_result_no_panic [simp]: "io_result s \<noteq> Panic m"
  by (cases s) auto

lemma map_err_Ok_iff [outcome_intros]: "map_err g r = Ok x \<longleftrightarrow> r = Ok x"
  by (cases r) auto

lemma map_err_Panic_iff [outcome_intros]: "map_err g r = Panic m \<longleftrightarrow> r = Panic m"
  by (cases r) auto

lemma unwrap_or_panic_Ok_iff [outcome_intros]: "unwrap_or_panic m opt = Ok x \<longleftrightarrow> opt = Some x"
  by (cases opt) auto

section \<open>Unsigned arithmetic\<close>

text \<open>\<open>checked_add\<close> of the standard library, at any width.\<close>

definition checked_add :: "'w::len word \<Rightarrow> 'w word \<Rightarrow> 'w word option" where
  "checked_add a b = (if unat a + unat b < 2 ^ LENGTH('w) then Some (a + b) else None)"

lemma checked_add_Some_iff:
  fixes a b c :: "'w::len word"
  shows "checked_add a b = Some c
    \<longleftrightarrow> unat a + unat b < 2 ^ LENGTH('w) \<and> unat c = unat a + unat b"
  by (auto simp: checked_add_def unat_word_ariths word_unat_eq_iff)

lemma checked_add_one_None_iff:
  fixes a :: u64
  shows "checked_add a 1 = None \<longleftrightarrow> a = - 1"
proof -
  have "unat a < 2 ^ LENGTH(64)"
    by (rule unsigned_less)
  then have "unat a < 2 ^ 64"
    by simp
  moreover have "a = - 1 \<longleftrightarrow> unat a = 2 ^ 64 - 1"
    by (simp add: word_unat_eq_iff unsigned_minus_1_eq_mask mask_eq_exp_minus_1)
  ultimately show ?thesis
    by (auto simp: checked_add_def)
qed

lemma unat_inc:
  fixes a :: u64
  assumes "a \<noteq> - 1"
  shows "unat (a + 1) = unat a + 1"
proof -
  have "unat a + unat (1 :: u64) < 2 ^ LENGTH(64)"
    using assms checked_add_one_None_iff [of a] unfolding checked_add_def
    by (metis option.distinct(1))
  then show ?thesis
    by (simp add: unat_word_ariths)
qed

lemma le_imp_less_inc:
  fixes a b :: u64
  shows "a \<le> b \<Longrightarrow> b \<noteq> - 1 \<Longrightarrow> a < b + 1"
  by (simp add: word_le_nat_alt word_less_nat_alt unat_inc)

section \<open>Strings\<close>

text \<open>\<open>str::contains\<close> with a string pattern.\<close>

fun contains_str :: "string \<Rightarrow> string \<Rightarrow> bool" where
  "contains_str [] p = (p = [])"
| "contains_str (c # cs) p = (prefix p (c # cs) \<or> contains_str cs p)"

lemma contains_str_iff_sublist: "contains_str s p \<longleftrightarrow> sublist p s"
  by (induction s) (auto simp: sublist_Cons_right)

text \<open>
  \<open>split\<close> with a predicate: every piece, the empty ones too. \<open>split_at d\<close> splits at the
  separator byte \<open>d\<close>.
\<close>

fun split_pred :: "('a \<Rightarrow> bool) \<Rightarrow> 'a list \<Rightarrow> 'a list list" where
  "split_pred P [] = [[]]"
| "split_pred P (c # cs) =
     (if P c then [] # split_pred P cs
      else (case split_pred P cs of [] \<Rightarrow> [[c]] | p # ps \<Rightarrow> (c # p) # ps))"

abbreviation split_at :: "char \<Rightarrow> string \<Rightarrow> string list" where
  "split_at d \<equiv> split_pred (\<lambda>c. c = d)"

text \<open>\<open>join\<close> on a slice of strings.\<close>

fun join_with :: "string \<Rightarrow> string list \<Rightarrow> string" where
  "join_with d [] = []"
| "join_with d [s] = s"
| "join_with d (s # ss) = s @ d @ join_with d ss"

lemma split_pred_nonempty [simp]: "split_pred P s \<noteq> []"
  by (induction s) (auto split: list.splits)

lemma split_pred_no_sep: "p \<in> set (split_pred P s) \<Longrightarrow> c \<in> set p \<Longrightarrow> \<not> P c"
  by (induction s arbitrary: p) (fastforce split: list.splits if_splits)+

lemma split_pred_subset: "p \<in> set (split_pred P s) \<Longrightarrow> c \<in> set p \<Longrightarrow> c \<in> set s"
  by (induction s arbitrary: p) (fastforce split: list.splits if_splits)+

lemma split_pred_id: "\<forall>c \<in> set s. \<not> P c \<Longrightarrow> split_pred P s = [s]"
  by (induction s) auto

lemma split_pred_append:
  "P d \<Longrightarrow> split_pred P (s @ d # t) = split_pred P s @ split_pred P t"
  by (induction s) (auto split: list.splits)

lemma split_pred_append_sep:
  "\<forall>c \<in> set p. \<not> P c \<Longrightarrow> P d \<Longrightarrow> split_pred P (p @ d # s) = p # split_pred P s"
  by (simp add: split_pred_append split_pred_id)

lemma split_at_no_sep: "p \<in> set (split_at d s) \<Longrightarrow> d \<notin> set p"
  by (auto dest: split_pred_no_sep)

lemma split_at_join:
  assumes "ns \<noteq> []" and "\<forall>n \<in> set ns. d \<notin> set n"
  shows "split_at d (join_with [d] ns) = ns"
  using assms
proof (induction ns)
  case Nil
  then show ?case by simp
next
  case (Cons n ns)
  have n: "\<forall>c \<in> set n. c \<noteq> d"
    using Cons.prems(2) by auto
  show ?case
  proof (cases ns)
    case Nil
    with n show ?thesis by (simp add: split_pred_id)
  next
    case (Cons m ms)
    with Cons.IH Cons.prems n show ?thesis
      by (simp add: split_pred_append_sep)
  qed
qed

subsection \<open>Decimal formatting\<close>

text \<open>What \<open>{}\<close> prints for an unsigned integer.\<close>

definition digit_char :: "nat \<Rightarrow> char" where
  "digit_char d = ''0123456789'' ! d"

fun dec :: "nat \<Rightarrow> string" where
  "dec n = (if n < 10 then [digit_char n] else dec (n div 10) @ [digit_char (n mod 10)])"

declare dec.simps [simp del]

lemma digit_char_code: "d < 10 \<Longrightarrow> of_char (digit_char d) = 48 + d"
proof -
  assume "d < 10"
  then have "d = 0 \<or> d = 1 \<or> d = 2 \<or> d = 3 \<or> d = 4 \<or> d = 5 \<or> d = 6 \<or> d = 7 \<or> d = 8 \<or> d = 9"
    by presburger
  then show ?thesis
    by (elim disjE) (simp_all add: digit_char_def)
qed

fun undec :: "string \<Rightarrow> nat" where
  "undec s = foldl (\<lambda>v c. 10 * v + (of_char c - 48)) 0 s"

lemma dec_nonempty [simp]: "dec n \<noteq> []"
  by (subst dec.simps) simp

lemma dec_digits: "c \<in> set (dec n) \<Longrightarrow> 48 \<le> (of_char c :: nat) \<and> (of_char c :: nat) \<le> 57"
proof (induction n rule: dec.induct)
  case (1 n)
  then show ?case
    by (cases "n < 10") (auto simp: dec.simps [of n] digit_char_code)
qed

lemma undec_dec: "undec (dec n) = n"
proof (induction n rule: dec.induct)
  case (1 n)
  show ?case
  proof (cases "n < 10")
    case True
    then show ?thesis by (simp add: dec.simps [of n] digit_char_code)
  next
    case False
    with 1 have "undec (dec (n div 10)) = n div 10" by simp
    with False show ?thesis by (simp add: dec.simps [of n] digit_char_code)
  qed
qed

lemma dec_inj [simp]: "dec m = dec n \<longleftrightarrow> m = n"
  using undec_dec by metis

lemma dec_no_dash [simp]: "CHR ''-'' \<notin> set (dec n)"
  using dec_digits [of "CHR ''-''" n] by auto

text \<open>The last separator splits a string in one way only.\<close>

lemma last_sep_unique:
  assumes "u @ d # s = v @ d # t" and "d \<notin> set s" and "d \<notin> set t"
  shows "u = v \<and> s = t"
  using assms
proof (induction u arbitrary: v)
  case Nil
  then show ?case by (cases v) auto
next
  case (Cons a u)
  then show ?case by (cases v) auto
qed

end
