(* ===== verification/Identity.thy ===== *)
theory Identity
  imports Rust_Prelude
begin

text \<open>
  \<open>identiy_handlers/mod.rs\<close> and \<open>identiy_handlers/pam_auth.rs\<close>: the authenticators that
  decide password logins. The trait \<open>UserAuthenticator\<close> is the locale \<open>user_authenticator\<close>,
  interpreted for the PAM authenticator. PAM itself and the user database are third-party
  code and come in through \<open>pam_env\<close>.
\<close>

section \<open>Credentials and authenticators\<close>

datatype credential = Password string

type_synonym authenticator = "string \<Rightarrow> credential \<Rightarrow> bool outcome"

text \<open>
  \<open>nix::unistd::User::from_name\<close> (its \<open>uid\<close>, no such user, or an error) and the calls of the
  \<open>pam\<close> crate.
\<close>

record pam_env =
  user_from_name :: "string \<Rightarrow> string + u32 option"
  client_with_password :: "string \<Rightarrow> string + unit"
  client_authenticate :: "string \<Rightarrow> string \<Rightarrow> string + unit"

definition pam_authenticate_user :: "pam_env \<Rightarrow> string \<Rightarrow> string \<Rightarrow> bool outcome" where
  "pam_authenticate_user P user password =
     (if user = ''root'' then Err (ForbiddenUser user)
      else if (case user_from_name P user of Inr (Some uid) \<Rightarrow> uid < 1000 | _ \<Rightarrow> False)
      then Err (ForbiddenUser user)
      else
        and_then (foreign (client_with_password P ''login'')) (\<lambda>_.
        and_then (foreign (client_authenticate P user password)) (\<lambda>_. Ok True)))"

fun pam_authenticate :: "pam_env \<Rightarrow> string \<Rightarrow> credential \<Rightarrow> bool outcome" where
  "pam_authenticate P username (Password password) = pam_authenticate_user P username password"

fun setup_user_authenticators :: "pam_env \<Rightarrow> string list \<Rightarrow> authenticator list outcome" where
  "setup_user_authenticators P [] = Ok []"
| "setup_user_authenticators P (a # as) =
     (if a = ''pam''
      then and_then (setup_user_authenticators P as) (\<lambda>rest. Ok (pam_authenticate P # rest))
      else Panic (''unknown user authenticator: '' @ a))"

section \<open>The contract of an authenticator\<close>

text \<open>
  What the SSH server relies on: an authenticator returns, and never accepts a forbidden
  user. \<open>first_accepting\<close> is the loop of \<open>auth_password\<close>.
\<close>

fun first_accepting :: "authenticator list \<Rightarrow> string \<Rightarrow> credential \<Rightarrow> bool outcome" where
  "first_accepting [] user cred = Ok False"
| "first_accepting (a # as) user cred =
     (case a user cred of
        Ok True \<Rightarrow> Ok True
      | Ok False \<Rightarrow> first_accepting as user cred
      | Err e \<Rightarrow> first_accepting as user cred
      | Panic m \<Rightarrow> Panic m)"

lemma first_accepting_True:
  "first_accepting as user cred = Ok True \<Longrightarrow> \<exists>a \<in> set as. a user cred = Ok True"
  by (induction as user cred rule: first_accepting.induct)
    (auto split: outcome.splits bool.splits)

lemma first_accepting_not_Err: "first_accepting as user cred \<noteq> Err e"
  by (induction as user cred rule: first_accepting.induct)
    (auto split: outcome.splits bool.splits)

locale user_authenticator =
  fixes authenticate :: authenticator
    and forbidden :: "string \<Rightarrow> bool"
  assumes refuses: "forbidden u \<Longrightarrow> authenticate u cred \<noteq> Ok True"
    and returns: "authenticate u cred \<noteq> Panic m"
begin

lemma alone_refuses: "forbidden u \<Longrightarrow> first_accepting [authenticate] u cred = Ok False"
  using refuses [of u cred] returns [of u cred] by (auto split: outcome.splits bool.splits)

lemma pool_refuses:
  assumes "\<forall>a \<in> set as. a = authenticate" and "forbidden u"
  shows "first_accepting as u cred = Ok False"
  using assms(1)
  by (induction as) (use assms(2) refuses returns in \<open>auto split: outcome.splits bool.splits\<close>)

lemma pool_decides:
  assumes "\<forall>a \<in> set as. a = authenticate" and "as \<noteq> []"
  shows "first_accepting as u cred = Ok (authenticate u cred = Ok True)"
  using assms
proof (induction as)
  case Nil
  then show ?case by simp
next
  case (Cons a as)
  then show ?case
    using returns [of u cred] by (cases "as = []") (auto split: outcome.splits bool.splits)
qed

end

definition pam_forbidden :: "pam_env \<Rightarrow> string \<Rightarrow> bool" where
  "pam_forbidden P u \<longleftrightarrow> u = ''root'' \<or> (\<exists>uid. user_from_name P u = Inr (Some uid) \<and> uid < 1000)"

interpretation pam: user_authenticator "pam_authenticate P" "pam_forbidden P" for P
proof (unfold_locales, goal_cases)
  case (1 u cred)
  then show ?case
    by (cases cred) (auto simp: pam_authenticate_user_def pam_forbidden_def split: sum.splits option.splits)
next
  case (2 u cred m)
  show ?case
    by (cases cred) (auto simp: pam_authenticate_user_def outcome_intros split: if_splits)
qed

lemma setup_all_pam:
  "setup_user_authenticators P names = Ok as \<Longrightarrow> \<forall>a \<in> set as. a = pam_authenticate P"
  by (induction P names arbitrary: as rule: setup_user_authenticators.induct)
    (auto simp: outcome_intros split: if_splits)

lemma setup_length:
  "setup_user_authenticators P names = Ok as \<Longrightarrow> length as = length names \<and> set names \<subseteq> {''pam''}"
  by (induction P names arbitrary: as rule: setup_user_authenticators.induct)
    (auto simp: outcome_intros split: if_splits)

section \<open>Properties\<close>

text \<open>C21. Whatever authenticators are configured, a password never logs in root or an account
  the user database knows under a system id (below 1000); the authenticators always return
  a decision.\<close>

theorem system_accounts_never_accepted:
  assumes "setup_user_authenticators P names = Ok as"
    and "user = ''root'' \<or> (\<exists>uid. user_from_name P user = Inr (Some uid) \<and> uid < 1000)"
  shows "first_accepting as user (Password password) = Ok False"
  using pam.pool_refuses [OF setup_all_pam [OF assms(1)]] assms(2) by (simp add: pam_forbidden_def)

definition example_pam :: pam_env where
  "example_pam = \<lparr>user_from_name = (\<lambda>u. Inr (if u = ''daemon'' then Some 1 else Some 1000)),
     client_with_password = (\<lambda>_. Inr ()),
     client_authenticate = (\<lambda>u p. if p = ''pw'' then Inr () else Inl ''Authentication failure'')\<rparr>"

lemma system_accounts_never_accepted_witness:
  "first_accepting [pam_authenticate example_pam] ''daemon'' (Password ''pw'') = Ok False"
proof (rule system_accounts_never_accepted)
  show "setup_user_authenticators example_pam [''pam''] = Ok [pam_authenticate example_pam]"
    by simp
  show "''daemon'' = ''root'' \<or> (\<exists>uid. user_from_name example_pam ''daemon'' = Inr (Some uid) \<and> uid < 1000)"
    by (simp add: example_pam_def)
qed

text \<open>C22. Every other user logs in exactly when PAM accepts the password: the pool of
  configured authenticators decides as PAM does, and a user database that cannot be read
  does not block anyone but root.\<close>

theorem password_login_is_pam:
  assumes "setup_user_authenticators P names = Ok as" and "names \<noteq> []" and "user \<noteq> ''root''"
    and "\<forall>uid. user_from_name P user = Inr (Some uid) \<longrightarrow> 1000 \<le> uid"
  shows "first_accepting as user (Password password) =
    Ok (client_with_password P ''login'' = Inr () \<and> client_authenticate P user password = Inr ())"
proof -
  have "as \<noteq> []"
    using setup_length [OF assms(1)] assms(2) by auto
  from pam.pool_decides [OF setup_all_pam [OF assms(1)] this]
  have "first_accepting as user (Password password)
      = Ok (pam_authenticate_user P user password = Ok True)" by simp
  moreover have "\<not> (case user_from_name P user of Inr (Some uid) \<Rightarrow> uid < 1000 | _ \<Rightarrow> False)"
    using assms(4) by (auto split: sum.splits option.splits simp: not_less)
  ultimately show ?thesis
    using assms(3) by (simp add: pam_authenticate_user_def outcome_intros)
qed

lemma password_login_is_pam_witness:
  "first_accepting [pam_authenticate example_pam] ''alice'' (Password ''pw'') = Ok True"
proof -
  have s: "setup_user_authenticators example_pam [''pam''] = Ok [pam_authenticate example_pam]"
    and u: "\<forall>uid. user_from_name example_pam ''alice'' = Inr (Some uid) \<longrightarrow> 1000 \<le> uid"
    by (simp_all add: example_pam_def)
  from password_login_is_pam [OF s _ _ u, of "''pw''"] show ?thesis
    by (simp add: example_pam_def)
qed
end
