(* ===== verification/Rust_Path.thy ===== *)
theory Rust_Path
  imports Rust_Prelude
begin

text \<open>
  \<open>std::path\<close> on Unix, as far as the program uses it: \<open>has_root\<close>, \<open>push\<close> and \<open>join\<close> on
  the path's bytes, the components of a path, \<open>starts_with\<close>, \<open>parent\<close>, \<open>file_stem\<close> and
  \<open>set_extension\<close>. A \<open>PathBuf\<close> is its byte string. Operations that Rust computes on
  components (\<open>parent\<close>, \<open>set_extension\<close>) give the path with redundant separators
  removed, which \<open>==\<close> on \<open>Path\<close> does not distinguish.
\<close>

section \<open>Path strings\<close>

type_synonym path = string

abbreviation slash :: char where
  "slash \<equiv> CHR ''/''"

definition has_root :: "path \<Rightarrow> bool" where
  "has_root p \<longleftrightarrow> p \<noteq> [] \<and> hd p = slash"

definition is_relative :: "path \<Rightarrow> bool" where
  "is_relative p \<longleftrightarrow> \<not> has_root p"

text \<open>
  \<open>PathBuf::push\<close>: a rooted argument replaces the path; otherwise a separator is put
  between the two unless the path is empty or ends with one.
\<close>

definition path_push :: "path \<Rightarrow> path \<Rightarrow> path" where
  "path_push p q =
     (if has_root q then q
      else if p \<noteq> [] \<and> last p \<noteq> slash then p @ [slash] @ q
      else p @ q)"

text \<open>The names between separators, the empty ones left out.\<close>

definition path_names :: "path \<Rightarrow> string list" where
  "path_names p = filter (\<lambda>n. n \<noteq> []) (split_at slash p)"

section \<open>Components\<close>

datatype pcomp = RootDir | CurDir | ParentDir | Normal string

definition comp_of :: "string \<Rightarrow> pcomp" where
  "comp_of n = (if n = ''..'' then ParentDir else Normal n)"

text \<open>\<open>Path::components\<close>: \<open>.\<close> survives only at the front of a relative path.\<close>

definition components :: "path \<Rightarrow> pcomp list" where
  "components p =
     (if has_root p then [RootDir]
      else if path_names p \<noteq> [] \<and> hd (path_names p) = ''.'' then [CurDir] else [])
     @ map comp_of (filter (\<lambda>n. n \<noteq> ''.'') (path_names p))"

fun comp_string :: "pcomp \<Rightarrow> string" where
  "comp_string RootDir = ''/''"
| "comp_string CurDir = ''.''"
| "comp_string ParentDir = ''..''"
| "comp_string (Normal n) = n"

fun render :: "pcomp list \<Rightarrow> path" where
  "render (RootDir # cs) = [slash] @ join_with [slash] (map comp_string cs)"
| "render cs = join_with [slash] (map comp_string cs)"

definition path_starts_with :: "path \<Rightarrow> path \<Rightarrow> bool" where
  "path_starts_with p base \<longleftrightarrow> prefix (components base) (components p)"

definition path_parent :: "path \<Rightarrow> path option" where
  "path_parent p =
     (case rev (components p) of
        [] \<Rightarrow> None
      | RootDir # _ \<Rightarrow> None
      | _ # cs \<Rightarrow> Some (render (rev cs)))"

text \<open>
  The stem of a file name: everything before the last dot, unless that is empty or there
  is no dot.
\<close>

definition stem :: "string \<Rightarrow> string" where
  "stem n =
     (let before = join_with ''.'' (butlast (split_at (CHR ''.'') n))
      in if before = [] then n else before)"

definition file_stem :: "path \<Rightarrow> string option" where
  "file_stem p = (case rev (components p) of Normal n # _ \<Rightarrow> Some (stem n) | _ \<Rightarrow> None)"

definition path_set_extension :: "path \<Rightarrow> string \<Rightarrow> path" where
  "path_set_extension p ext =
     (case rev (components p) of
        Normal n # cs \<Rightarrow> render (rev (Normal (stem n @ ''.'' @ ext) # cs))
      | _ \<Rightarrow> p)"

section \<open>Names that can stand in a path\<close>

text \<open>A name a directory can hold: not empty, no separator, neither \<open>.\<close> nor \<open>..\<close>.\<close>

definition proper_name :: "string \<Rightarrow> bool" where
  "proper_name n \<longleftrightarrow> n \<noteq> [] \<and> slash \<notin> set n \<and> n \<noteq> ''.'' \<and> n \<noteq> ''..''"

text \<open>The absolute path that runs through the given names.\<close>

definition abs_path :: "string list \<Rightarrow> path" where
  "abs_path ns = [slash] @ join_with [slash] ns"

lemma has_root_abs_path [simp, path_simps]: "has_root (abs_path ns)"
  by (simp add: has_root_def abs_path_def)

lemma path_names_Nil [simp, path_simps]: "path_names [] = []"
  by (simp add: path_names_def)

lemma path_names_in: "n \<in> set (path_names p) \<Longrightarrow> n \<noteq> [] \<and> slash \<notin> set n"
  by (auto simp: path_names_def dest: split_at_no_sep)

lemma path_names_plain:
  assumes "n \<noteq> []" and "slash \<notin> set n"
  shows "path_names n = [n]"
proof -
  have "\<forall>c \<in> set n. c \<noteq> slash"
    using assms(2) by auto
  with assms(1) show ?thesis
    by (simp add: path_names_def split_pred_id)
qed

lemma path_names_abs_path [path_simps]:
  assumes "\<forall>n \<in> set ns. n \<noteq> [] \<and> slash \<notin> set n"
  shows "path_names (abs_path ns) = ns"
proof (cases "ns = []")
  case True
  then show ?thesis by (simp add: path_names_def abs_path_def)
next
  case False
  have "split_at slash (abs_path ns) = [] # split_at slash (join_with [slash] ns)"
    by (simp add: abs_path_def)
  moreover have "split_at slash (join_with [slash] ns) = ns"
    using False assms by (intro split_at_join) auto
  moreover have "filter (\<lambda>n. n \<noteq> []) ns = ns"
    using assms by (auto intro: filter_True)
  ultimately show ?thesis
    by (simp add: path_names_def)
qed

lemma components_abs_path [path_simps]:
  assumes "\<forall>n \<in> set ns. proper_name n"
  shows "components (abs_path ns) = RootDir # map Normal ns"
proof -
  have "path_names (abs_path ns) = ns"
    using assms by (auto simp: proper_name_def path_names_abs_path)
  moreover have "filter (\<lambda>n. n \<noteq> ''.'') ns = ns"
    using assms by (auto simp: proper_name_def intro!: filter_True)
  moreover have "map comp_of ns = map Normal ns"
    using assms by (auto simp: comp_of_def proper_name_def)
  ultimately show ?thesis
    by (simp add: components_def)
qed

lemma starts_with_abs_path [path_simps]:
  assumes "\<forall>n \<in> set ns. proper_name n" and "\<forall>n \<in> set ms. proper_name n"
  shows "path_starts_with (abs_path ns) (abs_path ms) \<longleftrightarrow> prefix ms ns"
proof -
  have "prefix (map Normal ms) (map Normal ns) \<longleftrightarrow> prefix ms ns"
    by (auto simp: prefix_def map_eq_append_conv inj_map_eq_map inj_def)
  with assms show ?thesis
    by (simp add: path_starts_with_def components_abs_path)
qed

lemma abs_path_inj:
  assumes "\<forall>n \<in> set ns. proper_name n" and "\<forall>n \<in> set ms. proper_name n"
  shows "abs_path ns = abs_path ms \<longleftrightarrow> ns = ms"
  using assms by (metis path_names_abs_path proper_name_def)

lemma join_split_id: "join_with [d] (split_at d s) = s"
proof (induction s)
  case Nil
  then show ?case by simp
next
  case (Cons c s)
  then show ?case
    by (cases "split_at d s") (auto split: list.splits, case_tac list, auto)
qed

lemma stem_dot:
  assumes "h \<noteq> []" and "CHR ''.'' \<notin> set e"
  shows "stem (h @ CHR ''.'' # e) = h"
proof -
  have "\<forall>c \<in> set e. c \<noteq> CHR ''.''"
    using assms(2) by auto
  then have "split_at (CHR ''.'') (h @ CHR ''.'' # e) = split_at (CHR ''.'') h @ [e]"
    by (simp add: split_pred_append split_pred_id)
  then show ?thesis
    using assms(1) by (simp add: stem_def join_split_id)
qed

text \<open>Pushing a relative path only adds names; pushing a rooted one starts afresh.\<close>

lemma has_root_push [path_simps]: "has_root (path_push p q) \<longleftrightarrow> has_root q \<or> has_root p"
  by (cases p) (auto simp: path_push_def has_root_def)

lemma path_push_rooted [simp]: "has_root q \<Longrightarrow> path_push p q = q"
  by (simp add: path_push_def)

lemma path_names_push [path_simps]:
  "path_names (path_push p q) = (if has_root q then path_names q else path_names p @ path_names q)"
proof -
  have mid: "path_names (r @ slash # q) = path_names r @ path_names q" for r
    by (simp add: path_names_def split_pred_append)
  have trail: "path_names (r @ [slash]) = path_names r" for r
    using split_pred_append [of "\<lambda>c. c = slash" slash r "[]"] by (simp add: path_names_def)
  show ?thesis
  proof (cases "has_root q \<or> p = [] \<or> last p \<noteq> slash")
    case True
    then show ?thesis
      by (auto simp: path_push_def mid)
  next
    case False
    then have p: "p = butlast p @ [slash]"
      by (metis append_butlast_last_id)
    have "path_names (p @ q) = path_names (butlast p) @ path_names q"
      using mid [of "butlast p"] p by (metis append.assoc append_Cons append_Nil)
    moreover have "path_names p = path_names (butlast p)"
      using trail [of "butlast p"] p by simp
    ultimately show ?thesis
      using False by (simp add: path_push_def)
  qed
qed

lemma join_with_snoc: "xs \<noteq> [] \<Longrightarrow> join_with d (xs @ [m]) = join_with d xs @ d @ m"
  by (induction d xs rule: join_with.induct) auto

lemma proper_name_last: "proper_name m \<Longrightarrow> m \<noteq> [] \<and> last m \<noteq> slash"
  unfolding proper_name_def using last_in_set by metis

lemma proper_name_rootless: "proper_name m \<Longrightarrow> \<not> has_root m"
  unfolding proper_name_def has_root_def using hd_in_set by metis

lemma join_proper:
  "xs \<noteq> [] \<Longrightarrow> \<forall>n \<in> set xs. proper_name n
    \<Longrightarrow> join_with [slash] xs \<noteq> [] \<and> last (join_with [slash] xs) \<noteq> slash"
proof (induction xs rule: rev_induct)
  case Nil
  then show ?case by simp
next
  case (snoc m xs)
  have m: "m \<noteq> []" "last m \<noteq> slash"
    using snoc.prems(2) proper_name_last [of m] by simp_all
  show ?case
  proof (cases "xs = []")
    case True
    with m show ?thesis by simp
  next
    case False
    with m show ?thesis by (simp add: join_with_snoc)
  qed
qed

lemma push_abs_path:
  assumes "\<forall>n \<in> set ns. proper_name n" and "proper_name m"
  shows "path_push (abs_path ns) m = abs_path (ns @ [m])"
proof -
  have m: "\<not> has_root m"
    using assms(2) by (rule proper_name_rootless)
  show ?thesis
  proof (cases "ns = []")
    case True
    with m show ?thesis by (simp add: path_push_def abs_path_def)
  next
    case False
    with m show ?thesis
      using join_proper [OF False assms(1)]
      by (simp add: path_push_def abs_path_def join_with_snoc)
  qed
qed

subsection \<open>Parents\<close>

lemma components_rooted: "has_root p \<Longrightarrow> \<exists>cs. components p = RootDir # cs"
  by (simp add: components_def)

lemma path_parent_rooted:
  assumes "path_parent p = Some d" and "has_root p"
  shows "has_root d"
proof -
  obtain cs where cs: "components p = RootDir # cs"
    using components_rooted [OF assms(2)] by blast
  show ?thesis
  proof (cases cs rule: rev_cases)
    case Nil
    with cs assms(1) show ?thesis by (simp add: path_parent_def)
  next
    case (snoc ds c)
    with cs assms(1) have "d = render (RootDir # ds)"
      by (simp add: path_parent_def split: pcomp.splits)
    then show ?thesis by (simp add: has_root_def)
  qed
qed

text \<open>A path without a parent is empty, or is the root directory written in some way.\<close>

lemma path_parent_None:
  assumes "path_parent p = None"
  shows "p = [] \<or> has_root p \<and> (\<forall>n \<in> set (path_names p). n = ''.'')"
proof (cases "rev (components p)")
  case Nil
  then have "components p = []" by simp
  then have front: "(if has_root p then [RootDir]
      else if path_names p \<noteq> [] \<and> hd (path_names p) = ''.'' then [CurDir] else []) = []"
    and "map comp_of (filter (\<lambda>n. n \<noteq> ''.'') (path_names p)) = []"
    by (simp_all only: components_def append_is_Nil_conv)
  then have "\<forall>n \<in> set (path_names p). n = ''.''"
    by (simp add: filter_empty_conv)
  moreover have "\<not> has_root p" and "path_names p = [] \<or> hd (path_names p) \<noteq> ''.''"
    using front by (simp_all split: if_split_asm)
  ultimately have "path_names p = []"
    by (metis hd_in_set)
  have "p = []"
  proof (rule ccontr)
    assume "p \<noteq> []"
    with \<open>\<not> has_root p\<close> obtain c cs where p: "p = c # cs" "c \<noteq> slash"
      by (cases p) (auto simp: has_root_def)
    then have "hd (split_at slash p) \<noteq> []"
      by (auto split: list.splits)
    then have "hd (split_at slash p) \<in> set (path_names p)"
      by (simp add: path_names_def)
    with \<open>path_names p = []\<close> show False by simp
  qed
  then show ?thesis by blast
next
  case (Cons c cs)
  then have comps: "components p = rev cs @ [c]"
    by (metis rev.simps(2) rev_rev_ident)
  have "c = RootDir"
    using assms Cons by (simp add: path_parent_def split: pcomp.splits)
  with comps have "RootDir \<in> set (components p)" by simp
  then have "has_root p"
    by (auto simp: components_def comp_of_def split: if_splits)
  moreover have "filter (\<lambda>n. n \<noteq> ''.'') (path_names p) = []"
  proof (rule ccontr)
    let ?ns = "filter (\<lambda>n. n \<noteq> ''.'') (path_names p)"
    assume "?ns \<noteq> []"
    then have "last (components p) = comp_of (last ?ns)"
      by (simp add: components_def last_map)
    with comps \<open>c = RootDir\<close> show False
      by (simp add: comp_of_def split: if_splits)
  qed
  ultimately show ?thesis
    by (auto simp: filter_empty_conv)
qed

end
