(* ===== verification/Utf8.thy ===== *)
theory Utf8
  imports Rust_Prelude
begin

text \<open>
  UTF-8 as the standard library reads it: \<open>String::from_utf8\<close> (strict),
  \<open>String::from_utf8_lossy\<close> (each maximal invalid piece becomes U+FFFD), the characters of
  a string and \<open>str::split_whitespace\<close>. A character is kept as its byte sequence;
  \<open>code_point\<close> gives its scalar value.
\<close>

section \<open>One step of the decoder\<close>

definition byte_at :: "bytes \<Rightarrow> nat \<Rightarrow> nat" where
  "byte_at s i = (if i < length s then of_char (s ! i) else 0)"

definition is_cont :: "nat \<Rightarrow> bool" where
  "is_cont b \<longleftrightarrow> 128 \<le> b \<and> b < 192"

text \<open>
  The second byte of a three- or four-byte sequence: the ranges that exclude overlong
  forms, the surrogates and everything above U+10FFFF.
\<close>

definition second_ok :: "nat \<Rightarrow> nat \<Rightarrow> bool" where
  "second_ok b0 b1 \<longleftrightarrow>
     (if b0 = 224 then 160 \<le> b1 \<and> b1 < 192
      else if b0 = 237 then 128 \<le> b1 \<and> b1 < 160
      else if b0 = 240 then 144 \<le> b1 \<and> b1 < 192
      else if b0 = 244 then 128 \<le> b1 \<and> b1 < 144
      else is_cont b1)"

text \<open>
  \<open>utf8_step s\<close> reads one sequence at the front of a non-empty \<open>s\<close>: whether it is a
  well-formed character, and how many bytes it takes (for an ill-formed one, the longest
  prefix that could still have become a character, at least one byte).
\<close>

definition utf8_step :: "bytes \<Rightarrow> bool \<times> nat" where
  "utf8_step s =
     (let b0 = byte_at s 0; b1 = byte_at s 1; b2 = byte_at s 2; b3 = byte_at s 3
      in if b0 < 128 then (True, 1)
         else if 194 \<le> b0 \<and> b0 < 224 then (if is_cont b1 then (True, 2) else (False, 1))
         else if 224 \<le> b0 \<and> b0 < 240 then
           (if \<not> second_ok b0 b1 then (False, 1)
            else if \<not> is_cont b2 then (False, 2) else (True, 3))
         else if 240 \<le> b0 \<and> b0 < 245 then
           (if \<not> second_ok b0 b1 then (False, 1)
            else if \<not> is_cont b2 then (False, 2)
            else if \<not> is_cont b3 then (False, 3) else (True, 4))
         else (False, 1))"

text \<open>
  The well-formed case on its own: which first \<open>k\<close> bytes make a character. It reads
  no byte past them, and continuation bytes are never 0, so it never reads past the end.
\<close>

definition valid_seq :: "nat \<Rightarrow> bytes \<Rightarrow> bool" where
  "valid_seq k s \<longleftrightarrow>
     k = 1 \<and> byte_at s 0 < 128
   \<or> k = 2 \<and> 194 \<le> byte_at s 0 \<and> byte_at s 0 < 224 \<and> is_cont (byte_at s 1)
   \<or> k = 3 \<and> 224 \<le> byte_at s 0 \<and> byte_at s 0 < 240 \<and> second_ok (byte_at s 0) (byte_at s 1)
       \<and> is_cont (byte_at s 2)
   \<or> k = 4 \<and> 240 \<le> byte_at s 0 \<and> byte_at s 0 < 245 \<and> second_ok (byte_at s 0) (byte_at s 1)
       \<and> is_cont (byte_at s 2) \<and> is_cont (byte_at s 3)"

lemma utf8_step_valid: "utf8_step s = (True, k) \<longleftrightarrow> valid_seq k s"
  by (simp add: utf8_step_def valid_seq_def Let_def) linarith

lemma is_cont_in_range: "is_cont (byte_at s i) \<Longrightarrow> i < length s"
  by (auto simp: is_cont_def byte_at_def split: if_splits)

lemma second_ok_cont: "second_ok b0 b1 \<Longrightarrow> is_cont b1"
  by (auto simp: second_ok_def is_cont_def split: if_splits)

lemma second_ok_in_range: "second_ok b0 (byte_at s i) \<Longrightarrow> i < length s"
  by (blast intro: is_cont_in_range second_ok_cont)

lemma valid_seq_cong:
  assumes "\<And>i. i < k \<Longrightarrow> byte_at s i = byte_at t i"
  shows "valid_seq k s = valid_seq k t"
proof -
  consider "k = 1" | "k = 2" | "k = 3" | "k = 4" | "k \<notin> {1, 2, 3, 4}"
    by auto
  then show ?thesis
    by cases (simp_all add: valid_seq_def assms)
qed

lemma utf8_step_pos [simp]: "0 < snd (utf8_step s)"
  by (simp add: utf8_step_def Let_def)

lemma utf8_step_le:
  assumes "s \<noteq> []"
  shows "snd (utf8_step s) \<le> length s"
proof -
  have "1 \<le> length s"
    using assms by (simp add: Suc_le_eq)
  moreover have "is_cont (byte_at s 1) \<longrightarrow> 2 \<le> length s"
    using is_cont_in_range [of s 1] by auto
  moreover have "is_cont (byte_at s 2) \<longrightarrow> 3 \<le> length s"
    using is_cont_in_range [of s 2] by auto
  moreover have "is_cont (byte_at s 3) \<longrightarrow> 4 \<le> length s"
    using is_cont_in_range [of s 3] by auto
  moreover have "second_ok (byte_at s 0) (byte_at s 1) \<longrightarrow> 2 \<le> length s"
    using second_ok_in_range [of "byte_at s 0" s 1] by auto
  ultimately show ?thesis
    unfolding utf8_step_def Let_def by (auto simp del: One_nat_def)
qed

section \<open>The whole buffer\<close>

function utf8_chunks :: "bytes \<Rightarrow> (bool \<times> bytes) list" where
  "utf8_chunks s =
     (if s = [] then []
      else (fst (utf8_step s), take (snd (utf8_step s)) s)
        # utf8_chunks (drop (snd (utf8_step s)) s))"
  by pat_completeness auto
termination
  by (relation "measure length") auto

declare utf8_chunks.simps [simp del]

lemma utf8_chunks_Nil [simp]: "utf8_chunks [] = []"
  by (simp add: utf8_chunks.simps)

lemma utf8_chunks_concat: "concat (map snd (utf8_chunks s)) = s"
proof (induction s rule: utf8_chunks.induct)
  case (1 s)
  then show ?case
    by (cases "s = []") (simp_all add: utf8_chunks.simps [of s])
qed

definition valid_utf8 :: "bytes \<Rightarrow> bool" where
  "valid_utf8 s \<longleftrightarrow> list_all fst (utf8_chunks s)"

definition from_utf8 :: "bytes \<Rightarrow> string option" where
  "from_utf8 s = (if valid_utf8 s then Some s else None)"

text \<open>U+FFFD, the replacement character.\<close>

definition replacement :: bytes where
  "replacement = [CHR 0xEF, CHR 0xBF, CHR 0xBD]"

definition from_utf8_lossy :: "bytes \<Rightarrow> string" where
  "from_utf8_lossy s = concat (map (\<lambda>(ok, x). if ok then x else replacement) (utf8_chunks s))"

text \<open>The characters of a (well-formed) string.\<close>

definition chars_of :: "string \<Rightarrow> bytes list" where
  "chars_of s = map snd (utf8_chunks s)"

section \<open>Well-formed characters\<close>

definition well_formed_char :: "bytes \<Rightarrow> bool" where
  "well_formed_char c \<longleftrightarrow> c \<noteq> [] \<and> utf8_step c = (True, length c)"

lemma utf8_step_append:
  assumes "utf8_step c = (True, length c)"
  shows "utf8_step (c @ t) = (True, length c)"
proof -
  have "valid_seq (length c) (c @ t) = valid_seq (length c) c"
    by (rule valid_seq_cong) (simp add: byte_at_def nth_append)
  with assms show ?thesis
    by (simp add: utf8_step_valid)
qed

lemma utf8_step_take:
  assumes "s \<noteq> []" and "fst (utf8_step s)"
  shows "well_formed_char (take (snd (utf8_step s)) s)"
proof -
  obtain k where k: "utf8_step s = (True, k)"
    using assms(2) by (cases "utf8_step s") auto
  have "0 < k" and "k \<le> length s"
    using k utf8_step_pos [of s] utf8_step_le [OF assms(1)] by auto
  have "valid_seq k (take k s) = valid_seq k s"
    by (rule valid_seq_cong) (use \<open>k \<le> length s\<close> in \<open>simp add: byte_at_def\<close>)
  with k have "utf8_step (take k s) = (True, k)"
    by (simp add: utf8_step_valid)
  with \<open>0 < k\<close> \<open>k \<le> length s\<close> assms(1) k show ?thesis
    by (simp add: well_formed_char_def min_def)
qed

lemma utf8_chunks_append:
  assumes "well_formed_char c"
  shows "utf8_chunks (c @ t) = (True, c) # utf8_chunks t"
proof -
  have "utf8_step (c @ t) = (True, length c)"
    using assms by (auto simp: well_formed_char_def intro: utf8_step_append)
  with assms show ?thesis
    by (simp add: utf8_chunks.simps [of "c @ t"] well_formed_char_def)
qed

lemma utf8_chunks_of_chars:
  "\<forall>c \<in> set cs. well_formed_char c \<Longrightarrow> utf8_chunks (concat cs) = map (Pair True) cs"
  by (induction cs) (auto simp: utf8_chunks_append)

lemma utf8_chunks_well_formed:
  "(True, c) \<in> set (utf8_chunks s) \<Longrightarrow> well_formed_char c"
proof (induction s rule: utf8_chunks.induct)
  case (1 s)
  then show ?case
    by (cases "s = []") (auto simp: utf8_chunks.simps [of s] intro: utf8_step_take)
qed

lemma replacement_well_formed: "well_formed_char replacement"
  by (simp add: well_formed_char_def replacement_def utf8_step_def Let_def byte_at_def
      second_ok_def is_cont_def)

lemma chars_of_concat_chars [simp]:
  "\<forall>c \<in> set cs. well_formed_char c \<Longrightarrow> chars_of (concat cs) = cs"
  by (simp add: chars_of_def utf8_chunks_of_chars comp_def)

lemma valid_concat_chars:
  "\<forall>c \<in> set cs. well_formed_char c \<Longrightarrow> valid_utf8 (concat cs)"
  by (simp add: valid_utf8_def utf8_chunks_of_chars list_all_iff)

lemma chars_of_well_formed:
  "valid_utf8 s \<Longrightarrow> c \<in> set (chars_of s) \<Longrightarrow> well_formed_char c"
  by (fastforce simp: valid_utf8_def chars_of_def list_all_iff
      intro: utf8_chunks_well_formed)

lemma chars_of_concat [simp]: "concat (chars_of s) = s"
  by (simp add: chars_of_def utf8_chunks_concat)

lemma lossy_chars:
  "\<exists>cs. from_utf8_lossy s = concat cs \<and> (\<forall>c \<in> set cs. well_formed_char c)"
proof -
  let ?cs = "map (\<lambda>(ok, x). if ok then x else replacement) (utf8_chunks s)"
  have "\<forall>c \<in> set ?cs. well_formed_char c"
    using utf8_chunks_well_formed [of _ s] replacement_well_formed by auto
  then show ?thesis
    unfolding from_utf8_lossy_def by blast
qed

text \<open>The lossy conversion always gives well-formed text and changes no well-formed text.\<close>

lemma lossy_valid: "valid_utf8 (from_utf8_lossy s)"
  using lossy_chars [of s] valid_concat_chars by metis

lemma lossy_id:
  assumes "valid_utf8 s"
  shows "from_utf8_lossy s = s"
proof -
  have "map (\<lambda>(ok, x). if ok then x else replacement) (utf8_chunks s) = map snd (utf8_chunks s)"
    using assms by (auto simp: valid_utf8_def list_all_iff)
  then show ?thesis
    unfolding from_utf8_lossy_def by (simp only: utf8_chunks_concat)
qed

lemma lossy_idem: "from_utf8_lossy (from_utf8_lossy s) = from_utf8_lossy s"
  by (simp add: lossy_id lossy_valid)

text \<open>ASCII text is well-formed, one byte per character.\<close>

definition is_ascii :: "char \<Rightarrow> bool" where
  "is_ascii c \<longleftrightarrow> (of_char c :: nat) < 128"

lemma ascii_char_well_formed: "is_ascii c \<Longrightarrow> well_formed_char [c]"
  by (simp add: well_formed_char_def utf8_step_def byte_at_def is_ascii_def)

lemma ascii_chars_of:
  "\<forall>c \<in> set s. is_ascii c \<Longrightarrow> chars_of s = map (\<lambda>c. [c]) s"
  using chars_of_concat_chars [of "map (\<lambda>c. [c]) s"] ascii_char_well_formed
  by (auto simp: concat_map_singleton)

lemma ascii_valid: "\<forall>c \<in> set s. is_ascii c \<Longrightarrow> valid_utf8 s"
  using valid_concat_chars [of "map (\<lambda>c. [c]) s"] ascii_char_well_formed
  by (auto simp: concat_map_singleton)

text \<open>A byte below 128 inside a well-formed character is the whole character.\<close>

lemma well_formed_ascii:
  assumes "well_formed_char c" and "b \<in> set c" and "is_ascii b"
  shows "c = [b]"
proof -
  obtain i where i: "i < length c" "c ! i = b"
    using assms(2) by (auto simp: in_set_conv_nth)
  have v: "valid_seq (length c) c"
    using assms(1) by (simp add: well_formed_char_def utf8_step_valid)
  have low: "byte_at c i < 128"
    using i assms(3) by (simp add: byte_at_def is_ascii_def)
  have "length c = 1"
  proof (rule ccontr)
    assume "length c \<noteq> 1"
    with v have "i = 0 \<or> i = 1 \<or> i = 2 \<or> i = 3"
      using i(1) by (auto simp: valid_seq_def)
    with v low \<open>length c \<noteq> 1\<close> i(1) show False
      using second_ok_cont [of "byte_at c 0" "byte_at c 1"]
      by (auto simp: valid_seq_def is_cont_def)
  qed
  with i show ?thesis
    by (cases c) auto
qed

section \<open>White space\<close>

definition code_point :: "bytes \<Rightarrow> nat" where
  "code_point c =
     (case c of
        [a] \<Rightarrow> of_char a
      | [a, b] \<Rightarrow> (of_char a mod 32) * 64 + of_char b mod 64
      | [a, b, d] \<Rightarrow> (of_char a mod 16) * 4096 + (of_char b mod 64) * 64 + of_char d mod 64
      | [a, b, d, e] \<Rightarrow> (of_char a mod 8) * 262144 + (of_char b mod 64) * 4096
          + (of_char d mod 64) * 64 + of_char e mod 64
      | _ \<Rightarrow> 0)"

text \<open>\<open>char::is_whitespace\<close>: the Unicode property White_Space.\<close>

definition is_whitespace :: "bytes \<Rightarrow> bool" where
  "is_whitespace c \<longleftrightarrow>
     (let p = code_point c
      in 9 \<le> p \<and> p \<le> 13 \<or> p = 32 \<or> p = 133 \<or> p = 160 \<or> p = 5760
         \<or> 8192 \<le> p \<and> p \<le> 8202 \<or> p = 8232 \<or> p = 8233 \<or> p = 8239 \<or> p = 8287 \<or> p = 12288)"

definition split_whitespace :: "string \<Rightarrow> string list" where
  "split_whitespace s =
     filter (\<lambda>t. t \<noteq> []) (map concat (split_pred is_whitespace (chars_of s)))"

lemma split_whitespace_token:
  assumes "valid_utf8 s" and "t \<in> set (split_whitespace s)"
  shows "t \<noteq> []" and "valid_utf8 t" and "\<forall>c \<in> set (chars_of t). \<not> is_whitespace c"
proof -
  from assms(2) obtain cs where
    cs: "cs \<in> set (split_pred is_whitespace (chars_of s))" "t = concat cs" "t \<noteq> []"
    by (auto simp: split_whitespace_def)
  have wf: "\<forall>c \<in> set cs. well_formed_char c"
    using split_pred_subset [OF cs(1)] chars_of_well_formed [OF assms(1)] by blast
  show "t \<noteq> []" by fact
  show "valid_utf8 t"
    using wf cs(2) by (simp add: valid_concat_chars)
  show "\<forall>c \<in> set (chars_of t). \<not> is_whitespace c"
    using wf cs(2) split_pred_no_sep [OF cs(1)] by simp
qed

text \<open>Words joined by single blanks are split back into the same words.\<close>

lemma chars_of_append_blank:
  assumes "valid_utf8 t" and "valid_utf8 s"
  shows "chars_of (t @ CHR '' '' # s) = chars_of t @ [CHR '' ''] # chars_of s"
proof -
  have "well_formed_char [CHR '' '']"
    by (rule ascii_char_well_formed) (simp add: is_ascii_def)
  then have "\<forall>c \<in> set (chars_of t @ [CHR '' ''] # chars_of s). well_formed_char c"
    using chars_of_well_formed [OF assms(1)] chars_of_well_formed [OF assms(2)] by auto
  from chars_of_concat_chars [OF this] show ?thesis by simp
qed

lemma valid_join_blank:
  "\<forall>t \<in> set ts. valid_utf8 t \<Longrightarrow> valid_utf8 (join_with '' '' ts)"
proof (induction ts)
  case (Cons t ts)
  have "valid_utf8 (t @ CHR '' '' # s)" if "valid_utf8 t" and "valid_utf8 s" for s
    using valid_concat_chars [of "chars_of t @ [CHR '' ''] # chars_of s"]
      chars_of_well_formed [OF that(1)] chars_of_well_formed [OF that(2)]
      ascii_char_well_formed [of "CHR '' ''"]
    by (auto simp: is_ascii_def)
  with Cons show ?case
    by (cases ts) auto
qed (simp add: valid_utf8_def)

lemma split_whitespace_join:
  assumes "\<forall>t \<in> set ts. t \<noteq> [] \<and> valid_utf8 t \<and> (\<forall>c \<in> set (chars_of t). \<not> is_whitespace c)"
  shows "split_whitespace (join_with '' '' ts) = ts"
proof -
  have blank: "is_whitespace [CHR '' '']"
    by (simp add: is_whitespace_def code_point_def)
  have "split_pred is_whitespace (chars_of (join_with '' '' ts)) = map chars_of ts" if "ts \<noteq> []"
    using assms that
  proof (induction ts)
    case (Cons t ts)
    show ?case
    proof (cases ts)
      case Nil
      with Cons.prems show ?thesis by (simp add: split_pred_id)
    next
      case (Cons u us)
      have "valid_utf8 (join_with '' '' ts)"
        using Cons.prems by (intro valid_join_blank) auto
      with Cons Cons.prems Cons.IH blank show ?thesis
        by (simp add: chars_of_append_blank split_pred_append_sep)
    qed
  qed simp
  moreover have "map concat (map chars_of ts) = ts"
    by (simp add: comp_def)
  moreover have "filter (\<lambda>t. t \<noteq> []) ts = ts"
    using assms by (simp add: filter_id_conv)
  ultimately show ?thesis
    by (cases "ts = []") (simp_all add: split_whitespace_def chars_of_def)
qed

lemma ascii_word:
  assumes "\<forall>c \<in> set t. is_ascii c \<and> \<not> is_whitespace [c]"
  shows "valid_utf8 t \<and> (\<forall>c \<in> set (chars_of t). \<not> is_whitespace c)"
  using assms by (simp add: ascii_valid ascii_chars_of)

end
