(* ===== verification/File_System.thy ===== *)
theory File_System
  imports Rust_Path Utf8
begin

text \<open>
  The part of \<open>std::fs\<close> the program relies on: a file system with directories, regular
  files and symbolic links, path resolution (\<open>.\<close>, \<open>..\<close>, links, the limit on links),
  \<open>Path::canonicalize\<close>, \<open>Path::exists\<close> and reading a whole file. A file system maps the
  names on the way down from the root to a node; the root directory is always there.
\<close>

section \<open>Nodes and file systems\<close>

datatype node =
    File bytes
  | Dir
  | Link path

text \<open>
  \<open>fs_access\<close> tells whether the process may read that file, or look names up in that
  directory; \<open>fs_cwd\<close> is the current directory, where relative paths start.
\<close>

record fs =
  fs_nodes :: "string list \<Rightarrow> node option"
  fs_access :: "string list \<Rightarrow> bool"
  fs_cwd :: "string list"

section \<open>Resolution\<close>

text \<open>
  \<open>resolve fs b cur ns\<close> walks the names \<open>ns\<close> from the directory \<open>cur\<close>, which is free of
  links, and gives the link-free list of names it arrives at; \<open>b\<close> links may be followed.
\<close>

text \<open>A trailing separator asks for a directory, as a trailing \<open>.\<close> does.\<close>

definition walk_names :: "path \<Rightarrow> string list" where
  "walk_names p = path_names p @ (if p \<noteq> [] \<and> last p = slash then [''.''] else [])"

fun resolve :: "fs \<Rightarrow> nat \<Rightarrow> string list \<Rightarrow> string list \<Rightarrow> io_error + string list" where
  "resolve fs b cur [] = Inr cur"
| "resolve fs b cur (n # ns) =
     (if n = ''.'' then resolve fs b cur ns
      else if n = ''..'' then resolve fs b (butlast cur) ns
      else if \<not> fs_access fs cur then Inl PermissionDenied
      else
        (case fs_nodes fs (cur @ [n]) of
           None \<Rightarrow> Inl NotFound
         | Some Dir \<Rightarrow> resolve fs b (cur @ [n]) ns
         | Some (File _) \<Rightarrow> if ns = [] then Inr (cur @ [n]) else Inl NotADirectory
         | Some (Link t) \<Rightarrow>
             (case b of
                0 \<Rightarrow> Inl FilesystemLoop
              | Suc b' \<Rightarrow>
                  if t = [] then Inl NotFound
                  else resolve fs b' (if has_root t then [] else cur) (walk_names t @ ns))))"

declare resolve.simps(2) [simp del]

text \<open>Linux and the C library follow at most 40 links.\<close>

definition max_links :: nat where
  "max_links = 40"

definition resolve_path :: "fs \<Rightarrow> path \<Rightarrow> io_error + string list" where
  "resolve_path fs p =
     (if p = [] then Inl NotFound
      else resolve fs max_links (if has_root p then [] else fs_cwd fs) (walk_names p))"

definition canonicalize :: "fs \<Rightarrow> path \<Rightarrow> io_error + path" where
  "canonicalize fs p =
     (case resolve_path fs p of Inl e \<Rightarrow> Inl e | Inr ns \<Rightarrow> Inr (abs_path ns))"

definition path_exists :: "fs \<Rightarrow> path \<Rightarrow> bool" where
  "path_exists fs p = (case resolve_path fs p of Inl _ \<Rightarrow> False | Inr _ \<Rightarrow> True)"

text \<open>The node at a link-free list of names.\<close>

definition node_at :: "fs \<Rightarrow> string list \<Rightarrow> node option" where
  "node_at fs ns = (if ns = [] then Some Dir else fs_nodes fs ns)"

text \<open>\<open>File::open\<close> followed by \<open>read_to_end\<close>, and by \<open>read_to_string\<close>.\<close>

definition read_at :: "fs \<Rightarrow> string list \<Rightarrow> io_error + bytes" where
  "read_at fs ns =
     (if \<not> fs_access fs ns then Inl PermissionDenied
      else (case node_at fs ns of
              Some (File b) \<Rightarrow> Inr b
            | Some Dir \<Rightarrow> Inl IsADirectory
            | _ \<Rightarrow> Inl NotFound))"

definition read_to_end :: "fs \<Rightarrow> path \<Rightarrow> io_error + bytes" where
  "read_to_end fs p =
     (case resolve_path fs p of Inl e \<Rightarrow> Inl e | Inr ns \<Rightarrow> read_at fs ns)"

definition read_to_string :: "fs \<Rightarrow> path \<Rightarrow> io_error + string" where
  "read_to_string fs p =
     (case read_to_end fs p of
        Inl e \<Rightarrow> Inl e
      | Inr b \<Rightarrow> (case from_utf8 b of None \<Rightarrow> Inl InvalidUtf8 | Some s \<Rightarrow> Inr s))"

section \<open>Resolution arrives at a link-free path\<close>

text \<open>
  \<open>physical fs q\<close>: every directory on the way to \<open>q\<close> is a directory (no link) that may be
  searched, and \<open>q\<close> itself is there and is no link.
\<close>

definition physical :: "fs \<Rightarrow> string list \<Rightarrow> bool" where
  "physical fs q \<longleftrightarrow>
     (\<forall>k < length q. fs_access fs (take k q) \<and> node_at fs (take k q) = Some Dir)
     \<and> (node_at fs q = Some Dir \<or> (\<exists>b. node_at fs q = Some (File b)))"

definition physical_dir :: "fs \<Rightarrow> string list \<Rightarrow> bool" where
  "physical_dir fs q \<longleftrightarrow> physical fs q \<and> node_at fs q = Some Dir"

text \<open>The current directory is a directory without links on the way, as in any process.\<close>

definition fs_ok :: "fs \<Rightarrow> bool" where
  "fs_ok fs \<longleftrightarrow> physical_dir fs (fs_cwd fs) \<and> (\<forall>n \<in> set (fs_cwd fs). proper_name n)"

lemma physical_dir_root [simp]: "physical_dir fs []"
  by (simp add: physical_dir_def physical_def node_at_def)

lemma physical_snoc:
  assumes "physical_dir fs cur" and "fs_access fs cur"
    and "fs_nodes fs (cur @ [n]) = Some Dir \<or> (\<exists>b. fs_nodes fs (cur @ [n]) = Some (File b))"
  shows "physical fs (cur @ [n])"
  using assms by (auto simp: physical_dir_def physical_def node_at_def less_Suc_eq)

lemma physical_dir_snoc:
  assumes "physical_dir fs cur" and "fs_access fs cur" and "fs_nodes fs (cur @ [n]) = Some Dir"
  shows "physical_dir fs (cur @ [n])"
  using physical_snoc [OF assms(1,2)] assms(3) by (auto simp: physical_dir_def node_at_def)

lemma physical_dir_butlast:
  assumes "physical_dir fs q"
  shows "physical_dir fs (butlast q)"
proof (cases "q = []")
  case False
  then have "butlast q = take (length q - 1) q"
    by (simp add: butlast_conv_take)
  with False assms show ?thesis
    by (auto simp: physical_dir_def physical_def min_def)
qed simp

text \<open>
  Induction over a resolution that succeeds: one case per kind of step. Every property of
  resolved paths below goes through it.
\<close>

lemma resolve_induct [consumes 1, case_names finish dot dotdot dir plain link]:
  assumes "resolve fs b cur ns = Inr q"
    and "\<And>b cur. P b cur [] cur"
    and "\<And>b cur ns q. P b cur ns q \<Longrightarrow> P b cur (''.'' # ns) q"
    and "\<And>b cur ns q. P b (butlast cur) ns q \<Longrightarrow> P b cur (''..'' # ns) q"
    and "\<And>b cur n ns q. \<lbrakk>n \<noteq> ''.''; n \<noteq> ''..''; fs_access fs cur;
        fs_nodes fs (cur @ [n]) = Some Dir; P b (cur @ [n]) ns q\<rbrakk> \<Longrightarrow> P b cur (n # ns) q"
    and "\<And>b cur n d. \<lbrakk>n \<noteq> ''.''; n \<noteq> ''..''; fs_access fs cur;
        fs_nodes fs (cur @ [n]) = Some (File d)\<rbrakk> \<Longrightarrow> P b cur [n] (cur @ [n])"
    and "\<And>b cur n t ns q. \<lbrakk>n \<noteq> ''.''; n \<noteq> ''..''; fs_access fs cur;
        fs_nodes fs (cur @ [n]) = Some (Link t); t \<noteq> [];
        P b (if has_root t then [] else cur) (walk_names t @ ns) q\<rbrakk>
        \<Longrightarrow> P (Suc b) cur (n # ns) q"
  shows "P b cur ns q"
proof -
  have "fs' = fs \<Longrightarrow> resolve fs' b cur ns = Inr q \<Longrightarrow> P b cur ns q" for fs'
  proof (induction fs' b cur ns rule: resolve.induct)
    case (1 fs' b cur)
    then show ?case using assms(2) by simp
  next
    case (2 fs' b cur n ns)
    consider "n = ''.''" | "n = ''..''" | "n \<noteq> ''.''" "n \<noteq> ''..''" by blast
    then show ?case
    proof cases
      case 1
      with 2 show ?thesis by (simp add: resolve.simps(2) assms(3))
    next
      case 2
      with "2.IH"(2) "2.prems" show ?thesis by (simp add: resolve.simps(2) assms(4))
    next
      case 3
      have acc: "fs_access fs cur"
        using 2 3 by (auto simp: resolve.simps(2) split: if_splits)
      obtain nd where nd: "fs_nodes fs (cur @ [n]) = Some nd"
        using 2 3 acc by (auto simp: resolve.simps(2) split: option.splits)
      show ?thesis
      proof (cases nd)
        case (File d)
        with 2 3 acc nd show ?thesis
          by (auto simp: resolve.simps(2) split: if_splits intro: assms(6))
      next
        case Dir
        with 2 3 acc nd show ?thesis
          by (simp add: resolve.simps(2) assms(5))
      next
        case (Link t)
        with 2 3 acc nd obtain b' where b: "b = Suc b'" "t \<noteq> []"
          and r: "resolve fs b' (if has_root t then [] else cur) (walk_names t @ ns) = Inr q"
          by (cases b) (simp_all add: resolve.simps(2) split: if_split_asm)
        have "P b' (if has_root t then [] else cur) (walk_names t @ ns) q"
          by (rule "2.IH"(4) [OF 3 _ _ Link b]) (use 2 3 acc nd r in simp_all)
        with 3 acc nd Link b show ?thesis
          by (simp add: assms(7))
      qed
    qed
  qed
  with assms(1) show ?thesis by blast
qed

lemma resolve_physical:
  "resolve fs b cur ns = Inr q \<Longrightarrow> physical_dir fs cur \<Longrightarrow> physical fs q"
proof (induction rule: resolve_induct)
  case (finish b cur)
  then show ?case by (simp add: physical_dir_def)
qed (auto intro: physical_dir_butlast physical_snoc physical_dir_snoc)

lemma walk_names_in: "n \<in> set (walk_names p) \<Longrightarrow> n \<noteq> [] \<and> slash \<notin> set n"
  by (auto simp: walk_names_def dest: path_names_in split: if_splits)

lemma resolve_proper:
  assumes "resolve fs b cur ns = Inr q"
    and "list_all proper_name cur" and "list_all (\<lambda>n. n \<noteq> [] \<and> slash \<notin> set n) ns"
  shows "list_all proper_name q"
  using assms
proof (induction rule: resolve_induct)
  case (dotdot b cur ns q)
  then show ?case by (auto simp: list_all_iff dest: in_set_butlastD)
next
  case (link b cur n t ns q)
  have "list_all (\<lambda>n. n \<noteq> [] \<and> slash \<notin> set n) (walk_names t)"
    using walk_names_in [of _ t] by (auto simp: list_all_iff)
  with link show ?case by (cases "has_root t") auto
qed (auto simp: proper_name_def)

lemma resolve_path_sound:
  assumes "resolve_path fs p = Inr q" and "has_root p \<or> fs_ok fs"
  shows "physical fs q" and "\<forall>n \<in> set q. proper_name n"
proof -
  let ?start = "if has_root p then [] else fs_cwd fs"
  have r: "resolve fs max_links ?start (walk_names p) = Inr q"
    using assms(1) by (simp add: resolve_path_def split: if_splits)
  have "physical_dir fs ?start" and "list_all proper_name ?start"
    using assms(2) by (auto simp: fs_ok_def list_all_iff)
  moreover have "list_all (\<lambda>n. n \<noteq> [] \<and> slash \<notin> set n) (walk_names p)"
    using walk_names_in [of _ p] by (auto simp: list_all_iff)
  ultimately show "physical fs q" and "\<forall>n \<in> set q. proper_name n"
    using resolve_physical [OF r] resolve_proper [OF r] by (auto simp: list_all_iff)
qed

section \<open>A canonical path names its file\<close>

lemma resolve_physical_id:
  assumes "physical fs (cur @ q)" and "\<forall>n \<in> set q. proper_name n"
  shows "resolve fs b cur q = Inr (cur @ q)"
  using assms
proof (induction q arbitrary: cur)
  case Nil
  then show ?case by simp
next
  case (Cons n q)
  have n: "n \<noteq> ''.''" "n \<noteq> ''..''"
    using Cons.prems(2) by (auto simp: proper_name_def)
  have acc: "fs_access fs cur"
    using Cons.prems(1) by (auto simp: physical_def dest!: spec [of _ "length cur"])
  have "resolve fs b (cur @ [n]) q = Inr ((cur @ [n]) @ q)"
    using Cons.prems by (intro Cons.IH) auto
  moreover have "fs_nodes fs (cur @ [n]) = Some Dir"
    if "q \<noteq> []"
    using Cons.prems(1) that
    by (auto simp: physical_def node_at_def dest!: spec [of _ "Suc (length cur)"])
  moreover have "fs_nodes fs (cur @ [n]) = Some Dir \<or> (\<exists>d. fs_nodes fs (cur @ [n]) = Some (File d))"
    if "q = []"
    using Cons.prems(1) that by (auto simp: physical_def node_at_def)
  ultimately show ?case
    using n acc by (cases "q = []") (auto simp: resolve.simps(2))
qed

lemma walk_names_abs_path:
  assumes "\<forall>n \<in> set q. proper_name n" and "q \<noteq> []"
  shows "walk_names (abs_path q) = q"
proof -
  have names: "path_names (abs_path q) = q"
    using assms(1) by (auto simp: proper_name_def path_names_abs_path)
  have "last (abs_path q) \<noteq> slash"
  proof
    assume "last (abs_path q) = slash"
    then have "split_at slash (abs_path q) = split_at slash (butlast (abs_path q)) @ [[]]"
      using split_pred_append [of "\<lambda>c. c = slash" slash "butlast (abs_path q)" "[]"]
      by (metis abs_path_def append_butlast_last_id append_is_Nil_conv list.distinct(1)
          split_pred.simps(1))
    moreover have "split_at slash (abs_path q) = [] # q"
      using assms by (simp add: abs_path_def split_at_join proper_name_def)
    ultimately have "last q = []"
      using assms(2) by (metis last_ConsR last_snoc)
    with assms show False
      using last_in_set by (fastforce simp: proper_name_def)
  qed
  with names show ?thesis
    by (simp add: walk_names_def)
qed

lemma resolve_abs_path:
  assumes "physical fs q" and "\<forall>n \<in> set q. proper_name n"
  shows "resolve_path fs (abs_path q) = Inr q"
proof (cases "q = []")
  case True
  then show ?thesis
    by (simp add: resolve_path_def abs_path_def has_root_def walk_names_def path_names_def
        resolve.simps(2))
next
  case False
  then show ?thesis
    using resolve_physical_id [of fs "[]" q max_links] assms
    by (simp add: resolve_path_def walk_names_abs_path) (simp add: abs_path_def)
qed

text \<open>A path that \<open>canonicalize\<close> returned resolves to itself and reads as the original does.\<close>

lemma canonicalize_resolves:
  assumes "canonicalize fs p = Inr c" and "has_root p \<or> fs_ok fs"
  obtains q where "c = abs_path q" and "resolve_path fs p = Inr q"
    and "resolve_path fs c = Inr q" and "\<forall>n \<in> set q. proper_name n" and "physical fs q"
proof -
  from assms(1) obtain q where q: "resolve_path fs p = Inr q" "c = abs_path q"
    by (auto simp: canonicalize_def split: sum.splits)
  with resolve_path_sound [OF q(1) assms(2)] show thesis
    by (auto intro: that resolve_abs_path)
qed

lemma canonicalize_idem:
  "canonicalize fs p = Inr c \<Longrightarrow> has_root p \<or> fs_ok fs \<Longrightarrow> canonicalize fs c = Inr c"
  by (erule canonicalize_resolves) (auto simp: canonicalize_def)

lemma canonicalize_read:
  "canonicalize fs p = Inr c \<Longrightarrow> has_root p \<or> fs_ok fs
    \<Longrightarrow> read_to_string fs c = read_to_string fs p"
  by (erule canonicalize_resolves) (auto simp: read_to_string_def read_to_end_def)

text \<open>
  Resolution of a longer path goes through the shorter one, when that is a directory. The
  number of links left may be smaller.
\<close>

lemma resolve_append:
  assumes "resolve fs b cur ns = Inr d" and "node_at fs d = Some Dir"
  shows "\<exists>b'. resolve fs b cur (ns @ ms) = resolve fs b' d ms"
  using assms
proof (induction rule: resolve_induct)
  case (finish b cur)
  then show ?case by auto
next
  case (plain b cur n d)
  then show ?case by (simp add: node_at_def)
qed (auto simp: resolve.simps(2))

lemma resolve_trailing_dot:
  "resolve fs b cur (ns @ [''.'']) = Inr d \<Longrightarrow> resolve fs b cur ns = Inr d"
proof (induction fs b cur ns rule: resolve.induct)
  case (1 fs b cur)
  then show ?case by (simp add: resolve.simps(2))
next
  case (2 fs b cur n ns)
  consider "n = ''.''" | "n = ''..''" | "n \<noteq> ''.''" "n \<noteq> ''..''" by blast
  then show ?case
  proof cases
    case 1
    with 2 show ?thesis by (simp add: resolve.simps(2))
  next
    case 2
    with "2.IH"(2) "2.prems" show ?thesis by (simp add: resolve.simps(2))
  next
    case 3
    have acc: "fs_access fs cur"
      using 2 3 by (auto simp: resolve.simps(2) split: if_splits)
    obtain nd where nd: "fs_nodes fs (cur @ [n]) = Some nd"
      using 2 3 acc by (auto simp: resolve.simps(2) split: option.splits)
    show ?thesis
    proof (cases nd)
      case (File _)
      with 2 3 acc nd show ?thesis by (simp add: resolve.simps(2))
    next
      case Dir
      with 2 3 acc nd show ?thesis by (simp add: resolve.simps(2))
    next
      case (Link t)
      with 2 3 acc nd obtain b' where b: "b = Suc b'" "t \<noteq> []"
        and r: "resolve fs b' (if has_root t then [] else cur) (walk_names t @ ns @ [''.'']) = Inr d"
        by (cases b) (simp_all add: resolve.simps(2) split: if_split_asm)
      have "resolve fs b' (if has_root t then [] else cur) (walk_names t @ ns) = Inr d"
        by (rule "2.IH"(4) [OF 3 _ _ Link b]) (use acc nd r in simp_all)
      with 3 acc nd Link b show ?thesis by (simp add: resolve.simps(2))
    qed
  qed
qed

lemma resolve_path_names:
  assumes "resolve_path fs p = Inr d"
  shows "resolve fs max_links (if has_root p then [] else fs_cwd fs) (path_names p) = Inr d"
proof (cases "p \<noteq> [] \<and> last p = slash")
  case True
  with assms have "resolve fs max_links (if has_root p then [] else fs_cwd fs)
      (path_names p @ [''.'']) = Inr d"
    by (simp add: resolve_path_def walk_names_def)
  then show ?thesis by (rule resolve_trailing_dot)
next
  case False
  with assms show ?thesis
    by (auto simp: resolve_path_def walk_names_def split: if_split_asm)
qed

lemma node_at_canonical:
  assumes "physical fs q"
  shows "node_at fs q = Some Dir \<or> (\<exists>d. node_at fs q = Some (File d))"
  using assms by (simp add: physical_def)

lemma walk_names_push:
  assumes "proper_name n"
  shows "walk_names (path_push p n) = path_names p @ [n]" and "path_push p n \<noteq> []"
    and "has_root (path_push p n) = has_root p"
proof -
  have n: "\<not> has_root n" "n \<noteq> []" "last n \<noteq> slash" "path_names n = [n]"
    using assms proper_name_rootless proper_name_last path_names_plain
    by (auto simp: proper_name_def)
  show "walk_names (path_push p n) = path_names p @ [n]"
    using n by (simp add: walk_names_def path_names_push) (simp add: path_push_def)
  show "path_push p n \<noteq> []" and "has_root (path_push p n) = has_root p"
    using n by (cases p; simp add: path_push_def has_root_def)+
qed

text \<open>
  A file or directory directly inside a directory is reached by pushing its name to any path
  of that directory.
\<close>

lemma resolve_path_push:
  assumes "resolve_path fs p = Inr d" and "node_at fs d = Some Dir" and "p \<noteq> []"
    and "proper_name n" and "fs_access fs d"
    and "fs_nodes fs (d @ [n]) = Some Dir \<or> (\<exists>b. fs_nodes fs (d @ [n]) = Some (File b))"
  shows "resolve_path fs (path_push p n) = Inr (d @ [n])"
proof -
  obtain b' where "resolve fs max_links (if has_root p then [] else fs_cwd fs) (path_names p @ [n])
      = resolve fs b' d [n]"
    using resolve_append [OF resolve_path_names [OF assms(1)] assms(2)] by blast
  also have "\<dots> = Inr (d @ [n])"
    using assms(4-6) by (auto simp: resolve.simps proper_name_def)
  finally have "resolve fs max_links (if has_root p then [] else fs_cwd fs)
      (path_names p @ [n]) = Inr (d @ [n])" .
  with walk_names_push [OF assms(4)] show ?thesis
    by (simp add: resolve_path_def)
qed

lemma resolve_path_push_file:
  assumes "resolve_path fs p = Inr d" and "node_at fs d = Some Dir" and "p \<noteq> []"
    and "proper_name n" and "fs_access fs d" and "fs_nodes fs (d @ [n]) = Some (File b)"
  shows "resolve_path fs (path_push p n) = Inr (d @ [n])"
  using assms by (intro resolve_path_push) auto

text \<open>A readable file system given by a finite list of nodes, for concrete instances.\<close>

definition tree_fs :: "(string list \<times> node) list \<Rightarrow> fs" where
  "tree_fs l = \<lparr>fs_nodes = map_of l, fs_access = (\<lambda>_. True), fs_cwd = []\<rparr>"

lemma tree_fs_ok [simp]: "fs_ok (tree_fs l)"
  by (simp add: fs_ok_def tree_fs_def)

end
