(* ===== verification/Crates.thy ===== *)
theory Crates
  imports Rust_Prelude
begin

text \<open>
  The third-party crates the program calls. Their code is not in the repository, so each
  is a record of functions that the model takes as an argument: the types of keys, of
  certificate builders and of certificates stay type variables. A fallible call gives
  \<open>Inl\<close> with the text of its error or \<open>Inr\<close> with its result. What the program relies on
  is stated as a predicate over such a record, named after the crate, and appears as a
  hypothesis where a property needs it.
\<close>

section \<open>ssh_key\<close>

text \<open>\<open>ssh_key::certificate::CertType\<close>.\<close>

datatype cert_type = UserCert | HostCert

text \<open>
  The calls of \<open>ssh_key\<close> (and of the random number generator it is given): parsing and
  printing of OpenSSH keys, the key data that equality of keys compares, the certificate
  builder and the signature. \<open>cb_valid_principal\<close> changes the builder in place and the
  program ignores its error, so it gives the error, if any, beside the builder.
\<close>

record ('pk, 'kd, 'sk, 'b, 'c) ssh_key_crate =
  pk_from_openssh :: "string \<Rightarrow> string + 'pk"
  pk_to_openssh :: "'pk \<Rightarrow> string + string"
  pk_key_data :: "'pk \<Rightarrow> 'kd"
  pk_comment :: "'pk \<Rightarrow> string"
  sk_from_openssh :: "bytes \<Rightarrow> string + 'sk"
  cb_new_with_random_nonce :: "bytes \<Rightarrow> 'pk \<Rightarrow> u64 \<Rightarrow> u64 \<Rightarrow> string + 'b"
  cb_serial :: "u64 \<Rightarrow> 'b \<Rightarrow> string + 'b"
  cb_key_id :: "string \<Rightarrow> 'b \<Rightarrow> string + 'b"
  cb_cert_type :: "cert_type \<Rightarrow> 'b \<Rightarrow> string + 'b"
  cb_valid_principal :: "string \<Rightarrow> 'b \<Rightarrow> string option \<times> 'b"
  cb_comment :: "string \<Rightarrow> 'b \<Rightarrow> string + 'b"
  cb_extension :: "string \<Rightarrow> string \<Rightarrow> 'b \<Rightarrow> string + 'b"
  cb_sign :: "'sk \<Rightarrow> 'b \<Rightarrow> string + 'c"
  cert_to_openssh :: "'c \<Rightarrow> string + string"

text \<open>The contents of a certificate, as its accessor methods show them.\<close>

record 'kd cert_fields =
  cf_public_key :: 'kd
  cf_serial :: u64
  cf_key_id :: string
  cf_type :: cert_type
  cf_principals :: "string list"
  cf_valid_after :: u64
  cf_valid_before :: u64
  cf_comment :: string
  cf_extensions :: "string \<Rightarrow> string option"

text \<open>
  The documented behaviour of the builder: \<open>bv\<close> shows what a builder holds, \<open>cv\<close> what a
  certificate holds. A new builder holds the key, the validity window and defaults; a
  setter that succeeds changes its own field only; \<open>valid_principal\<close> appends on success
  and changes nothing otherwise; signing keeps every field.
\<close>

definition builder_laws ::
  "('pk, 'kd, 'sk, 'b, 'c) ssh_key_crate \<Rightarrow> ('b \<Rightarrow> 'kd cert_fields) \<Rightarrow> ('c \<Rightarrow> 'kd cert_fields) \<Rightarrow> bool"
where
  "builder_laws K bv cv \<longleftrightarrow>
     (\<forall>n pk a z b. cb_new_with_random_nonce K n pk a z = Inr b \<longrightarrow>
        bv b = \<lparr>cf_public_key = pk_key_data K pk, cf_serial = 0, cf_key_id = [],
          cf_type = UserCert, cf_principals = [], cf_valid_after = a, cf_valid_before = z,
          cf_comment = [], cf_extensions = (\<lambda>_. None)\<rparr>)
   \<and> (\<forall>s b b'. cb_serial K s b = Inr b' \<longrightarrow> bv b' = (bv b)\<lparr>cf_serial := s\<rparr>)
   \<and> (\<forall>i b b'. cb_key_id K i b = Inr b' \<longrightarrow> bv b' = (bv b)\<lparr>cf_key_id := i\<rparr>)
   \<and> (\<forall>t b b'. cb_cert_type K t b = Inr b' \<longrightarrow> bv b' = (bv b)\<lparr>cf_type := t\<rparr>)
   \<and> (\<forall>p b b'. cb_valid_principal K p b = (None, b') \<longrightarrow>
        bv b' = (bv b)\<lparr>cf_principals := cf_principals (bv b) @ [p]\<rparr>)
   \<and> (\<forall>p b e b'. cb_valid_principal K p b = (Some e, b') \<longrightarrow> bv b' = bv b)
   \<and> (\<forall>t b b'. cb_comment K t b = Inr b' \<longrightarrow> bv b' = (bv b)\<lparr>cf_comment := t\<rparr>)
   \<and> (\<forall>n d b b'. cb_extension K n d b = Inr b' \<longrightarrow>
        bv b' = (bv b)\<lparr>cf_extensions := (cf_extensions (bv b))(n := Some d)\<rparr>)
   \<and> (\<forall>sk b c. cb_sign K sk b = Inr c \<longrightarrow> cv c = bv b)"

lemma builder_lawsD:
  assumes "builder_laws K bv cv"
  shows "cb_new_with_random_nonce K n pk a z = Inr b \<Longrightarrow>
      bv b = \<lparr>cf_public_key = pk_key_data K pk, cf_serial = 0, cf_key_id = [],
        cf_type = UserCert, cf_principals = [], cf_valid_after = a, cf_valid_before = z,
        cf_comment = [], cf_extensions = (\<lambda>_. None)\<rparr>"
    and "cb_serial K s b = Inr b' \<Longrightarrow> bv b' = (bv b)\<lparr>cf_serial := s\<rparr>"
    and "cb_key_id K i b = Inr b' \<Longrightarrow> bv b' = (bv b)\<lparr>cf_key_id := i\<rparr>"
    and "cb_cert_type K t b = Inr b' \<Longrightarrow> bv b' = (bv b)\<lparr>cf_type := t\<rparr>"
    and "cb_comment K i b = Inr b' \<Longrightarrow> bv b' = (bv b)\<lparr>cf_comment := i\<rparr>"
    and "cb_sign K sk b = Inr c \<Longrightarrow> cv c = bv b"
  using assms by (simp_all add: builder_laws_def)

text \<open>A key that was printed parses back to a key with the same key data.\<close>

definition openssh_roundtrip :: "('pk, 'kd, 'sk, 'b, 'c) ssh_key_crate \<Rightarrow> bool" where
  "openssh_roundtrip K \<longleftrightarrow>
     (\<forall>k s. pk_to_openssh K k = Inr s \<longrightarrow>
        (\<exists>k'. pk_from_openssh K s = Inr k' \<and> pk_key_data K k' = pk_key_data K k))"

section \<open>toml\<close>

text \<open>\<open>toml::from_str::<T>\<close> at one type \<open>T\<close>.\<close>

type_synonym 'a toml_parser = "string \<Rightarrow> string + 'a"

section \<open>minijinja\<close>

text \<open>
  \<open>add_template\<close>, \<open>get_template\<close> and \<open>render\<close> on a fresh environment, which the program
  always calls in a row: the template's name, its source, and the variables by name.
\<close>

datatype jinja_value =
    JStr string
  | JInt int
  | JList "string list"
  | JMap "(string \<times> string) list"

type_synonym jinja = "string \<Rightarrow> string \<Rightarrow> (string \<times> jinja_value) list \<Rightarrow> string + string"

section \<open>glob\<close>

text \<open>
  \<open>glob::glob\<close>: \<open>Inl\<close> is a malformed pattern; otherwise the paths, in the iterator's
  order, each possibly unreadable (\<open>None\<close>, a \<open>GlobError\<close>).
\<close>

type_synonym glob_crate = "string \<Rightarrow> string + string option list"

end
