(* ===== verification/Ca_Common.thy ===== *)
theory Ca_Common
  imports File_System Crates
begin

text \<open>
  Helpers of \<open>certificat_authority/mod.rs\<close> that the readers share: the message size limit,
  reading a TOML file and parsing an OpenSSH key.
\<close>

definition MAX_MESSAGE_SIZE :: u32 where
  "MAX_MESSAGE_SIZE = 65536"

definition MAX_TEMPLATE_SIZE :: nat where
  "MAX_TEMPLATE_SIZE = 64 * 1024"

definition read_toml_file :: "'a toml_parser \<Rightarrow> fs \<Rightarrow> path \<Rightarrow> 'a outcome" where
  "read_toml_file from_str fs p =
     and_then (io_result (read_to_string fs p)) (\<lambda>text. foreign (from_str text))"

definition key_from_openssh ::
  "('pk, 'kd, 'sk, 'b, 'c) ssh_key_crate \<Rightarrow> string \<Rightarrow> 'pk outcome" where
  "key_from_openssh K s = foreign (pk_from_openssh K s)"

lemma read_toml_file_Ok:
  "read_toml_file f fs p = Ok x \<longleftrightarrow> (\<exists>t. read_to_string fs p = Inr t \<and> f t = Inr x)"
  by (auto simp: read_toml_file_def outcome_intros)

lemma read_toml_file_no_panic [simp]: "read_toml_file f fs p \<noteq> Panic m"
  by (auto simp: read_toml_file_def outcome_intros)

lemma key_from_openssh_no_panic [simp]: "key_from_openssh K s \<noteq> Panic m"
  by (simp add: key_from_openssh_def)

subsection \<open>Debug formatting\<close>

text \<open>
  \<open>{:?}\<close> of a path: in double quotes, with Rust's escapes for the quote, the backslash
  and the ASCII control characters.
\<close>

definition hex_digit :: "nat \<Rightarrow> char" where
  "hex_digit n = ''0123456789abcdef'' ! n"

definition debug_char :: "char \<Rightarrow> string" where
  "debug_char c =
     (let n = of_char c :: nat
      in if n = 0 then [CHR 0x5C, CHR ''0'']
         else if n = 9 then [CHR 0x5C, CHR ''t'']
         else if n = 10 then [CHR 0x5C, CHR ''n'']
         else if n = 13 then [CHR 0x5C, CHR ''r'']
         else if n = 34 \<or> n = 92 then [CHR 0x5C, c]
         else if n < 16 then [CHR 0x5C] @ ''u{'' @ [hex_digit n] @ ''}''
         else if n < 32 \<or> n = 127 then
           [CHR 0x5C] @ ''u{'' @ [hex_digit (n div 16), hex_digit (n mod 16)] @ ''}''
         else [c])"

definition debug_str :: "string \<Rightarrow> string" where
  "debug_str s = [CHR 0x22] @ concat (map debug_char s) @ [CHR 0x22]"

end
