(* ===== verification/Configuration.thy ===== *)
theory Configuration
  imports Ca_Common
begin

text \<open>
  \<open>config/mod.rs\<close>, \<open>certificat_authority/config.rs\<close> and \<open>ssh_server/config.rs\<close>: the
  configuration structs, the trait \<open>InsertConfigRoot\<close> with its two implementations, and
  \<open>read_config\<close>. The trait is the locale \<open>config_section\<close>, interpreted for both sections.
\<close>

section \<open>The configuration structs\<close>

record ca_cfg =
  user_list_file :: path
  default_user_template :: path
  host_inventory :: path
  ca_key :: path

record ssh_cfg =
  bind_addr :: string
  port :: u16
  ssh_private_key :: string
  certificate :: "string option"

record identity_cfg =
  user_authenticators :: "string list"

record config =
  ssh :: ssh_cfg
  ca :: ca_cfg
  identity_handlers :: identity_cfg

section \<open>InsertConfigRoot\<close>

text \<open>
  Each \<open>insert_config_path\<close> changes the struct and returns \<open>Ok(())\<close>; the result is the
  changed struct beside what is returned.
\<close>

definition ca_insert_config_path :: "path \<Rightarrow> ca_cfg \<Rightarrow> ca_cfg \<times> unit outcome" where
  "ca_insert_config_path root c0 =
     (let c1 = (if \<not> has_root (ca_key c0)
                then c0\<lparr>ca_key := path_push root (ca_key c0)\<rparr> else c0);
          c2 = (if \<not> has_root (default_user_template c1)
                then c1\<lparr>default_user_template := path_push root (default_user_template c1)\<rparr> else c1);
          c3 = (if \<not> has_root (user_list_file c2)
                then c2\<lparr>user_list_file := path_push root (user_list_file c2)\<rparr> else c2);
          c4 = (if \<not> has_root (host_inventory c3)
                then c3\<lparr>host_inventory := path_push root (host_inventory c3)\<rparr> else c3)
      in (c4, Ok ()))"

definition ca_check_paths :: "fs \<Rightarrow> ca_cfg \<Rightarrow> unit outcome" where
  "ca_check_paths fs c =
     (if path_exists fs (ca_key c) then Ok ()
      else Err (IoError (OtherIo (''CA key file '' @ debug_str (ca_key c) @ '' not found''))))"

definition ssh_insert_config_path :: "path \<Rightarrow> ssh_cfg \<Rightarrow> ssh_cfg \<times> unit outcome" where
  "ssh_insert_config_path root c =
     ((if \<not> has_root (ssh_private_key c)
       then c\<lparr>ssh_private_key := from_utf8_lossy (path_push root (ssh_private_key c))\<rparr>
       else c), Ok ())"

definition ssh_check_paths :: "fs \<Rightarrow> ssh_cfg \<Rightarrow> unit outcome" where
  "ssh_check_paths fs c =
     (if path_exists fs (ssh_private_key c) then Ok ()
      else Err (IoError (OtherIo (''CA key file '' @ ssh_private_key c @ '' not found''))))"

section \<open>read_config\<close>

text \<open>
  \<open>insert_config_path\<close> and \<open>check_paths\<close> are called for the CA section only; the result of
  the first is dropped.
\<close>

definition read_config :: "config toml_parser \<Rightarrow> fs \<Rightarrow> string \<Rightarrow> config outcome" where
  "read_config from_str fs file_path =
     (if \<not> path_exists fs file_path
      then Err (IoError (OtherIo (''Config file '' @ file_path @ '' not found'')))
      else
        and_then (unwrap_or_panic unwrap_none
                   (path_parent file_path)) (\<lambda>config_root.
        and_then (io_result (read_to_string fs file_path)) (\<lambda>text.
        and_then (foreign (from_str text)) (\<lambda>cfg.
          let cfg' = cfg\<lparr>ca := fst (ca_insert_config_path config_root (ca cfg))\<rparr>
          in and_then (ca_check_paths fs (ca cfg')) (\<lambda>_. Ok cfg')))))"

section \<open>The contract of a configuration section\<close>

text \<open>
  What the trait promises: \<open>insert_config_path\<close> puts the root in front of every path of
  the section that has none, and touches nothing else (\<open>rest\<close>).
\<close>

locale config_section =
  fixes insert :: "path \<Rightarrow> 'c \<Rightarrow> 'c \<times> unit outcome"
    and paths :: "'c \<Rightarrow> path list"
    and rest :: "'c \<Rightarrow> 'r"
  assumes inserted_paths:
      "valid_utf8 root \<Longrightarrow> list_all valid_utf8 (paths c)
       \<Longrightarrow> paths (fst (insert root c)) = map (path_push root) (paths c)"
    and inserted_rest: "rest (fst (insert root c)) = rest c"
    and insert_succeeds: "snd (insert root c) = Ok ()"
begin

lemma inserted_rooted:
  assumes "valid_utf8 root" and "list_all valid_utf8 (paths c)" and "has_root root"
  shows "list_all has_root (paths (fst (insert root c)))"
  using assms by (auto simp: inserted_paths list_all_iff path_simps)

lemma rooted_unchanged:
  assumes "valid_utf8 root" and "list_all valid_utf8 (paths c)" and "list_all has_root (paths c)"
  shows "paths (fst (insert root c)) = paths c"
  using assms by (auto simp: inserted_paths list_all_iff path_push_def map_idI)

end

lemma valid_utf8_append:
  assumes "valid_utf8 s" and "valid_utf8 t"
  shows "valid_utf8 (s @ t)"
proof -
  have "valid_utf8 (concat (chars_of s @ chars_of t))"
    using assms by (intro valid_concat_chars) (auto dest: chars_of_well_formed)
  then show ?thesis by simp
qed

lemma valid_utf8_path_push:
  assumes "valid_utf8 p" and "valid_utf8 q"
  shows "valid_utf8 (path_push p q)"
proof -
  have "valid_utf8 [slash]"
    by (rule ascii_valid) (simp add: is_ascii_def)
  then have "valid_utf8 (slash # q)"
    using valid_utf8_append [of "[slash]" q] assms(2) by simp
  with assms show ?thesis
    by (simp add: path_push_def valid_utf8_append)
qed

definition ca_paths :: "ca_cfg \<Rightarrow> path list" where
  "ca_paths c = [ca_key c, default_user_template c, user_list_file c, host_inventory c]"

lemma ca_inserted_paths:
  "ca_paths (fst (ca_insert_config_path root c)) = map (path_push root) (ca_paths c)"
  by (simp add: ca_insert_config_path_def ca_paths_def Let_def)

interpretation ca_section: config_section ca_insert_config_path ca_paths "\<lambda>_. ()"
  by unfold_locales (simp_all add: ca_inserted_paths, simp add: ca_insert_config_path_def Let_def)

interpretation ssh_section:
  config_section ssh_insert_config_path "\<lambda>c. [ssh_private_key c]"
    "\<lambda>c. (bind_addr c, port c, certificate c)"
  by unfold_locales
     (auto simp: ssh_insert_config_path_def lossy_id valid_utf8_path_push)

section \<open>Properties\<close>

lemma read_config_cases:
  "read_config from_str fs f = Ok cfg \<longleftrightarrow>
     (\<exists>root text cfg0. path_exists fs f \<and> path_parent f = Some root
        \<and> read_to_string fs f = Inr text \<and> from_str text = Inr cfg0
        \<and> cfg = cfg0\<lparr>ca := fst (ca_insert_config_path root (ca cfg0))\<rparr>
        \<and> path_exists fs (ca_key (ca cfg)))"
  by (auto simp: read_config_def ca_check_paths_def Let_def outcome_intros split: if_splits)

section \<open>A concrete configuration\<close>

text \<open>\<open>/etc/ca.toml\<close> with relative paths, and the key beside it.\<close>

definition example_etc :: fs where
  "example_etc = tree_fs
     [([''etc''], Dir), ([''etc'', ''ca.toml''], File ''config''), ([''etc'', ''key''], File ''k'')]"

definition example_written :: config where
  "example_written =
     \<lparr>ssh = \<lparr>bind_addr = ''::'', port = 2222, ssh_private_key = ''host_key'', certificate = None\<rparr>,
      ca = \<lparr>user_list_file = ''users.toml'', default_user_template = ''/srv/default.toml'',
        host_inventory = ''hosts'', ca_key = ''key''\<rparr>,
      identity_handlers = \<lparr>user_authenticators = [''pam'']\<rparr>\<rparr>"

definition example_loaded :: config where
  "example_loaded = example_written
     \<lparr>ca := \<lparr>user_list_file = ''/etc/users.toml'', default_user_template = ''/srv/default.toml'',
        host_inventory = ''/etc/hosts'', ca_key = ''/etc/key''\<rparr>\<rparr>"

lemma example_loads:
  "read_config (\<lambda>_. Inr example_written) example_etc ''/etc/ca.toml'' = Ok example_loaded"
  by code_simp

text \<open>C32. A configuration that \<open>read_config\<close> accepts comes from the file's text, every path
  of its CA section is the written path resolved against the directory of the file, the
  CA key is there, and the other sections are exactly as parsed.\<close>

theorem read_config_sound:
  assumes "read_config from_str fs f = Ok cfg"
  shows "\<exists>root text cfg0. path_parent f = Some root \<and> read_to_string fs f = Inr text
    \<and> from_str text = Inr cfg0
    \<and> ca_paths (ca cfg) = map (path_push root) (ca_paths (ca cfg0))
    \<and> path_exists fs (ca_key (ca cfg))
    \<and> ssh cfg = ssh cfg0 \<and> identity_handlers cfg = identity_handlers cfg0"
  using assms unfolding read_config_cases by (auto simp: ca_inserted_paths)

lemma read_config_sound_witness:
  "\<exists>cfg0 :: config. ca_paths (ca example_loaded) = map (path_push ''/etc'') (ca_paths (ca cfg0))
    \<and> ssh example_loaded = ssh cfg0 \<and> path_exists example_etc (ca_key (ca example_loaded))"
proof -
  have parent: "path_parent ''/etc/ca.toml'' = Some ''/etc''"
    by code_simp
  obtain root and cfg0 :: config where r: "path_parent ''/etc/ca.toml'' = Some root"
    and p: "ca_paths (ca example_loaded) = map (path_push root) (ca_paths (ca cfg0))"
      "ssh example_loaded = ssh cfg0" "path_exists example_etc (ca_key (ca example_loaded))"
    using read_config_sound [OF example_loads] by blast
  have "root = ''/etc''"
    by (rule option.inject [THEN iffD1, OF trans [OF sym [OF r] parent]])
  with p show ?thesis by (intro exI [of _ cfg0]) simp
qed

text \<open>Under an absolute configuration path, every path of the loaded CA section is
  absolute.\<close>

lemma read_config_ca_rooted:
  assumes "read_config from_str fs f = Ok cfg" and "has_root f"
  shows "list_all has_root (ca_paths (ca cfg))"
proof -
  obtain root and cfg0 :: config where root: "path_parent f = Some root"
    and "cfg = cfg0\<lparr>ca := fst (ca_insert_config_path root (ca cfg0))\<rparr>"
    using assms(1) unfolding read_config_cases by blast
  then have paths: "ca_paths (ca cfg) = map (path_push root) (ca_paths (ca cfg0))"
    by (simp add: ca_inserted_paths)
  have "has_root root"
    using root assms(2) by (rule path_parent_rooted)
  with paths show ?thesis
    by (auto simp: list_all_iff path_simps)
qed

end
