(* ===== verification/User_Defaults.thy ===== *)
theory User_Defaults
  imports Configuration
begin

text \<open>
  \<open>certificat_authority/user_defaults_reader.rs\<close>: which template a user gets, the size
  limit, and the way from the template's text to the certificate parameters.
  \<open>certificat_authority/certificat_template_reader.rs\<close> has the same shape for a fixed
  context; \<open>mod.rs\<close> does not declare it as a module, so no other part calls it.
\<close>

section \<open>Data\<close>

record user_defaults =
  ud_validity_in_days :: u16
  ud_principals :: "string list"
  ud_extensions :: "string list"

record user_list =
  users :: "string \<Rightarrow> path option"

section \<open>User templates\<close>

text \<open>The match on \<open>users.get(user)\<close>: lines 58 to 73.\<close>

definition user_template_path :: "user_list \<Rightarrow> string \<Rightarrow> ca_cfg \<Rightarrow> path outcome" where
  "user_template_path ul user cfg =
     (case users ul user of
        Some p \<Rightarrow>
          if is_relative p then
            (case path_parent (user_list_file cfg) of
               None \<Rightarrow> Panic (''user list file does not have parent: '' @ debug_str (user_list_file cfg))
             | Some d \<Rightarrow> Ok (path_push d p))
          else Ok p
      | None \<Rightarrow> Ok (default_user_template cfg))"

definition oversize_message :: "string \<Rightarrow> path \<Rightarrow> string" where
  "oversize_message what p =
     what @ debug_str p @ '' exceeds maximum allowed size of '' @ dec MAX_TEMPLATE_SIZE @ '' bytes''"

definition read_user_defaults ::
  "user_list toml_parser \<Rightarrow> user_defaults toml_parser \<Rightarrow> jinja \<Rightarrow> fs \<Rightarrow> string \<Rightarrow> ca_cfg
    \<Rightarrow> user_defaults outcome"
where
  "read_user_defaults ul_from_str ud_from_str render_template fs user cfg =
     and_then (read_toml_file ul_from_str fs (user_list_file cfg)) (\<lambda>ul.
     and_then (user_template_path ul user cfg) (\<lambda>template_path.
     and_then (io_result (read_to_string fs template_path)) (\<lambda>template_text.
       if length template_text > MAX_TEMPLATE_SIZE
       then Err (Message (oversize_message ''user template '' template_path))
       else
         and_then (foreign (render_template user template_text [(''user_name'', JStr user)]))
           (\<lambda>rendered. foreign (ud_from_str rendered)))))"

section \<open>The certificate configuration reader\<close>

record certificate_config =
  cc_cert_type :: string
  cc_key_id :: u64
  cc_principals :: "string list"
  cc_extensions :: "string \<Rightarrow> string option"
  cc_critical_options :: "string \<Rightarrow> string option"
  cc_validity_span_h :: u32

definition certificate_config_context :: "(string \<times> jinja_value) list" where
  "certificate_config_context =
     [(''KeyID'', JInt 200), (''Principals'', JList [''test'', ''list'']),
      (''CriticalOptions'', JMap [(''test'', ''map'')]), (''ValiditySpan'', JInt (24 * 30))]"

definition read_certificate_config ::
  "certificate_config toml_parser \<Rightarrow> jinja \<Rightarrow> fs \<Rightarrow> string \<Rightarrow> certificate_config outcome" where
  "read_certificate_config from_str render_template fs file_path =
     and_then (io_result (read_to_string fs file_path)) (\<lambda>text.
       if length text > MAX_TEMPLATE_SIZE
       then Err (Message (oversize_message ''certificate config template '' file_path))
       else
         and_then (foreign (render_template ''config'' text certificate_config_context))
           (\<lambda>json. foreign (from_str json)))"

section \<open>Lemmas\<close>

lemma user_template_path_listed_relative:
  assumes "users ul user = Some p" and "is_relative p" and "path_parent (user_list_file cfg) = Some d"
  shows "user_template_path ul user cfg = Ok (path_push d p)"
  using assms by (simp add: user_template_path_def)

text \<open>
  The panic of \<open>user_template_path\<close> needs a user list file without a parent directory, and
  such a path cannot be read as a file, so the panic is never reached.
\<close>

lemma no_parent_unreadable:
  assumes "path_parent p = None"
  shows "read_to_string fs p \<noteq> Inr t"
proof
  assume r: "read_to_string fs p = Inr t"
  from path_parent_None [OF assms] have "p \<noteq> [] \<Longrightarrow> has_root p \<and> (\<forall>n \<in> set (walk_names p). n = ''.'')"
    by (auto simp: walk_names_def)
  moreover have "resolve fs b [] ns = Inr []" if "\<forall>n \<in> set ns. n = ''.''" for b ns
    using that by (induction ns) (auto simp: resolve.simps(2))
  ultimately have "resolve_path fs p = Inl NotFound \<or> resolve_path fs p = Inr []"
    by (auto simp: resolve_path_def)
  with r show False
    by (auto simp: read_to_string_def read_to_end_def read_at_def node_at_def
        split: if_splits)
qed

lemma read_user_defaults_Ok:
  "read_user_defaults f g r fs user cfg = Ok d \<longleftrightarrow>
     (\<exists>lt ul p text out. read_to_string fs (user_list_file cfg) = Inr lt \<and> f lt = Inr ul
        \<and> user_template_path ul user cfg = Ok p
        \<and> read_to_string fs p = Inr text \<and> length text \<le> MAX_TEMPLATE_SIZE
        \<and> r user text [(''user_name'', JStr user)] = Inr out \<and> g out = Inr d)"
  by (auto simp: read_user_defaults_def read_toml_file_Ok outcome_intros not_less split: if_splits)

lemma read_user_defaults_panic_free:
  "read_user_defaults f g r fs user cfg \<noteq> Panic m"
proof
  assume "read_user_defaults f g r fs user cfg = Panic m"
  then obtain t ul where t: "read_to_string fs (user_list_file cfg) = Inr t"
    and "user_template_path ul user cfg = Panic m"
    by (auto simp: read_user_defaults_def read_toml_file_Ok outcome_intros split: if_splits)
  then have "path_parent (user_list_file cfg) = None"
    by (auto simp: user_template_path_def split: option.splits if_splits)
  with t show False
    using no_parent_unreadable by blast
qed

section \<open>A concrete user list\<close>

definition example_users_fs :: fs where
  "example_users_fs = tree_fs
     [([''etc''], Dir), ([''etc'', ''users.toml''], File ''users''),
      ([''etc'', ''admin.toml''], File ''admin'')]"

definition example_users_cfg :: ca_cfg where
  "example_users_cfg = \<lparr>user_list_file = ''/etc/users.toml'', default_user_template = ''/etc/default.toml'',
     host_inventory = ''/etc/hosts'', ca_key = ''/etc/key''\<rparr>"

definition example_list :: "user_list toml_parser" where
  "example_list t = Inr \<lparr>users = [''alice'' \<mapsto> ''admin.toml'']\<rparr>"

definition example_params :: "user_defaults toml_parser" where
  "example_params t = Inr \<lparr>ud_validity_in_days = 7, ud_principals = [], ud_extensions = []\<rparr>"

lemma example_users_parent: "path_parent ''/etc/users.toml'' = Some ''/etc''"
  by code_simp

lemma example_list_read: "read_to_string example_users_fs ''/etc/users.toml'' = Inr ''users''"
  by code_simp

lemma example_template_read: "read_to_string example_users_fs ''/etc/admin.toml'' = Inr ''admin''"
  by code_simp

section \<open>Properties\<close>

text \<open>Reading a user's defaults never panics, whatever the files hold: the panic the code
  has for a user list without a parent directory cannot be reached.\<close>

theorem read_user_defaults_no_panic:
  "read_user_defaults f g r fs user cfg \<noteq> Panic m"
  by (rule read_user_defaults_panic_free)

text \<open>C31. The parameters a user gets are what the template file, rendered with exactly one
  variable \<open>user_name\<close>, parses to; the template is the listed one (relative paths against
  the directory of the list) or else the default one, and it is at most 64 KiB long.\<close>

theorem read_user_defaults_from_template:
  assumes "read_user_defaults f g r fs user cfg = Ok d"
  shows "\<exists>lt ul p text out. read_to_string fs (user_list_file cfg) = Inr lt \<and> f lt = Inr ul
    \<and> (case users ul user of
         None \<Rightarrow> p = default_user_template cfg
       | Some l \<Rightarrow> \<exists>dir. path_parent (user_list_file cfg) = Some dir \<and> p = path_push dir l)
    \<and> read_to_string fs p = Inr text \<and> length text \<le> 65536
    \<and> r user text [(''user_name'', JStr user)] = Inr out \<and> g out = Inr d"
proof -
  from assms obtain lt ul p body out where
    l: "read_to_string fs (user_list_file cfg) = Inr lt" "f lt = Inr ul"
    and p: "user_template_path ul user cfg = Ok p"
    and t: "read_to_string fs p = Inr body" "length body \<le> MAX_TEMPLATE_SIZE"
      "r user body [(''user_name'', JStr user)] = Inr out" "g out = Inr d"
    unfolding read_user_defaults_Ok by blast
  have "path_parent (user_list_file cfg) \<noteq> None"
    using l(1) no_parent_unreadable by blast
  then obtain dir where dir: "path_parent (user_list_file cfg) = Some dir" by blast
  have "case users ul user of None \<Rightarrow> p = default_user_template cfg
      | Some l \<Rightarrow> \<exists>dir. path_parent (user_list_file cfg) = Some dir \<and> p = path_push dir l"
    using p dir by (auto simp: user_template_path_def is_relative_def split: option.splits if_splits)
  with l t show ?thesis
    by (auto simp: MAX_TEMPLATE_SIZE_def)
qed

lemma read_user_defaults_from_template_witness:
  "\<exists>lt ul body. read_to_string example_users_fs ''/etc/users.toml'' = Inr lt
    \<and> example_list lt = Inr ul \<and> users ul ''alice'' = Some ''admin.toml''
    \<and> read_to_string example_users_fs ''/etc/admin.toml'' = Inr body \<and> length body \<le> 65536"
proof -
  have "read_user_defaults example_list example_params (\<lambda>name body ctx. Inr body) example_users_fs
      ''alice'' example_users_cfg = Ok \<lparr>ud_validity_in_days = 7, ud_principals = [], ud_extensions = []\<rparr>"
    unfolding read_user_defaults_Ok using example_list_read example_template_read
    by (simp add: example_list_def user_template_path_def is_relative_def has_root_def
        example_users_cfg_def example_users_parent path_push_def example_params_def MAX_TEMPLATE_SIZE_def)
  from read_user_defaults_from_template [OF this] show ?thesis
    using example_users_parent
    by (auto simp: example_list_def example_users_cfg_def path_push_def has_root_def)
qed

text \<open>A template of more than 64 KiB is refused before it reaches the template engine or
  the TOML parser, with an error that names the file.\<close>

theorem oversize_template_refused:
  assumes "read_toml_file f fs (user_list_file cfg) = Ok ul"
    and "user_template_path ul user cfg = Ok p"
    and "read_to_string fs p = Inr text" and "65536 < length text"
  shows "read_user_defaults f g r fs user cfg
    = Err (Message (''user template '' @ debug_str p
        @ '' exceeds maximum allowed size of 65536 bytes''))"
proof -
  have "dec MAX_TEMPLATE_SIZE = ''65536''"
    by (simp add: MAX_TEMPLATE_SIZE_def dec.simps digit_char_def)
  with assms show ?thesis
    by (simp add: read_user_defaults_def oversize_message_def) (simp add: MAX_TEMPLATE_SIZE_def)
qed

lemma oversize_template_refused_witness:
  "read_user_defaults example_list example_params (\<lambda>name body ctx. Inr body)
      (example_users_fs\<lparr>fs_nodes := (fs_nodes example_users_fs)
         ([''etc'', ''admin.toml''] := Some (File (replicate 65537 CHR ''x'')))\<rparr>)
      ''alice'' example_users_cfg
    = Err (Message (''user template '' @ debug_str ''/etc/admin.toml''
        @ '' exceeds maximum allowed size of 65536 bytes''))"
proof -
  let ?fs = "example_users_fs\<lparr>fs_nodes := (fs_nodes example_users_fs)
    ([''etc'', ''admin.toml''] := Some (File (replicate 65537 CHR ''x'')))\<rparr>"
  let ?ul = "\<lparr>users = [''alice'' \<mapsto> ''admin.toml'']\<rparr>"
  have r: "resolve_path ?fs (user_list_file example_users_cfg) = Inr [''etc'', ''users.toml'']"
    and r': "resolve_path ?fs ''/etc/admin.toml'' = Inr [''etc'', ''admin.toml'']"
    by (simp_all add: resolve_path_def example_users_cfg_def has_root_def walk_names_def path_names_def
        resolve.simps(2) max_links_def example_users_fs_def tree_fs_def)
  have u: "from_utf8 ''users'' = Some ''users''"
    by code_simp
  have l: "read_toml_file example_list ?fs (user_list_file example_users_cfg) = Ok ?ul"
    using r u by (simp add: read_toml_file_Ok example_list_def read_to_string_def read_to_end_def
        read_at_def node_at_def) (simp add: example_users_fs_def tree_fs_def)
  have p: "user_template_path ?ul ''alice'' example_users_cfg = Ok ''/etc/admin.toml''"
    by (simp add: user_template_path_def is_relative_def has_root_def example_users_cfg_def
        example_users_parent path_push_def)
  have "valid_utf8 (replicate 65537 CHR ''x'')"
    by (rule ascii_valid) (simp add: is_ascii_def)
  then have t: "read_to_string ?fs ''/etc/admin.toml'' = Inr (replicate 65537 CHR ''x'')"
    using r' by (simp add: read_to_string_def read_to_end_def read_at_def node_at_def from_utf8_def
        example_users_fs_def tree_fs_def)
  from oversize_template_refused [OF l p t] show ?thesis by simp
qed

lemma read_certificate_config_Ok:
  "read_certificate_config f r fs p = Ok c \<longleftrightarrow>
     (\<exists>text out. read_to_string fs p = Inr text \<and> length text \<le> MAX_TEMPLATE_SIZE
        \<and> r ''config'' text certificate_config_context = Inr out \<and> f out = Inr c)"
  by (auto simp: read_certificate_config_def outcome_intros not_less split: if_splits)

end
