(* ===== verification/Reference_Crates.thy ===== *)
theory Reference_Crates
  imports Crates
begin

text \<open>
  One concrete instance of the third-party crates, small enough to evaluate. It shows that
  the laws of \<open>Crates\<close> can hold together, and the witnesses of the properties run on it: a
  public key is the algorithm, the data and the comment of its OpenSSH text, a builder is
  the record of certificate fields it has collected, a certificate is that record beside
  the signing key.
\<close>

type_synonym ref_key = "string \<times> string \<times> string"

abbreviation space :: char where
  "space \<equiv> CHR '' ''"

fun ref_parse :: "string list \<Rightarrow> string + ref_key" where
  "ref_parse (a # d # ws) = Inr (a, d, join_with '' '' ws)"
| "ref_parse ws = Inl ''length invalid''"

fun ref_print :: "ref_key \<Rightarrow> string + string" where
  "ref_print (a, d, c) =
     (if space \<in> set a \<or> space \<in> set d then Inl ''character encoding invalid''
      else Inr (a @ space # d @ space # c))"

definition ref_crate ::
  "(ref_key, string \<times> string, bytes, (string \<times> string) cert_fields,
    bytes \<times> (string \<times> string) cert_fields) ssh_key_crate"
where
  "ref_crate =
     \<lparr>pk_from_openssh = (\<lambda>s. ref_parse (split_at space s)),
      pk_to_openssh = ref_print,
      pk_key_data = (\<lambda>(a, d, c). (a, d)),
      pk_comment = (\<lambda>(a, d, c). c),
      sk_from_openssh = (\<lambda>b. if b = [] then Inl ''length invalid'' else Inr b),
      cb_new_with_random_nonce = (\<lambda>_ pk a z. if z < a then Inl ''invalid time'' else
        Inr \<lparr>cf_public_key = (fst pk, fst (snd pk)), cf_serial = 0, cf_key_id = [],
          cf_type = UserCert, cf_principals = [], cf_valid_after = a, cf_valid_before = z,
          cf_comment = [], cf_extensions = (\<lambda>_. None)\<rparr>),
      cb_serial = (\<lambda>s b. Inr (b\<lparr>cf_serial := s\<rparr>)),
      cb_key_id = (\<lambda>i b. if cf_key_id b = [] then Inr (b\<lparr>cf_key_id := i\<rparr>) else Inl ''field invalid''),
      cb_cert_type = (\<lambda>ty b. Inr (b\<lparr>cf_type := ty\<rparr>)),
      cb_valid_principal = (\<lambda>p b. if p = [] then (Some ''field invalid'', b)
        else (None, b\<lparr>cf_principals := cf_principals b @ [p]\<rparr>)),
      cb_comment = (\<lambda>t b. Inr (b\<lparr>cf_comment := t\<rparr>)),
      cb_extension = (\<lambda>n d b. if cf_extensions b n = None
        then Inr (b\<lparr>cf_extensions := (cf_extensions b)(n := Some d)\<rparr>) else Inl ''field invalid''),
      cb_sign = (\<lambda>sk b. if cf_principals b = [] then Inl ''principals missing'' else Inr (sk, b)),
      cert_to_openssh = (\<lambda>c. Inr (''ssh-ed25519-cert-v01@openssh.com '' @ cf_key_id (snd c)))\<rparr>"

lemma ref_crate_builder_laws: "builder_laws ref_crate id snd"
  by (auto simp: builder_laws_def ref_crate_def split: if_splits)

lemma split_two_words:
  assumes "space \<notin> set a" and "space \<notin> set d"
  shows "split_at space (a @ space # d @ space # c) = a # d # split_at space c"
proof -
  have "\<forall>x \<in> set a. x \<noteq> space" and "\<forall>x \<in> set d. x \<noteq> space"
    using assms by auto
  then show ?thesis
    by (simp add: split_pred_append_sep)
qed

lemma ref_crate_openssh_roundtrip: "openssh_roundtrip ref_crate"
  by (auto simp: openssh_roundtrip_def ref_crate_def split_two_words split: if_splits)

end
