(* ===== verification/Host_Inventory.thy ===== *)
theory Host_Inventory
  imports Configuration Reference_Crates
begin

text \<open>
  \<open>certificat_authority/host_config_reader.rs\<close>: the host inventory. \<open>read_host_config\<close>
  serves signing (a host name becomes a file name), \<open>find_config_by_public_key\<close> serves
  login (a key is searched in every \<open>.toml\<close> file of the inventory). The property that ties
  both together is containment: whatever file is read lies inside the inventory directory.
\<close>

section \<open>Data\<close>

record host_config =
  hc_public_key :: string
  hc_validity_in_days :: u16
  hc_hostnames :: "string list"
  hc_extensions :: "string list"

section \<open>Reading the entry of one host\<close>

definition ensure_path_within_directory :: "fs \<Rightarrow> path \<Rightarrow> path \<Rightarrow> path outcome" where
  "ensure_path_within_directory fs candidate base_dir =
     and_then (map_err (\<lambda>e. Message (''failed to resolve inventory directory: '' @ error_display e))
                (io_result (canonicalize fs base_dir))) (\<lambda>canonical_base.
     and_then (map_err (\<lambda>e. Message (''failed to resolve host config path: '' @ error_display e))
                (io_result (canonicalize fs candidate))) (\<lambda>canonical_candidate.
       if \<not> path_starts_with canonical_candidate canonical_base
       then Err (Message ''path traversal detected in host name'')
       else Ok canonical_candidate))"

definition read_host_config ::
  "host_config toml_parser \<Rightarrow> fs \<Rightarrow> string \<Rightarrow> ca_cfg \<Rightarrow> host_config outcome" where
  "read_host_config from_str fs host_name cfg =
     (let host_inventory_path = path_push (host_inventory cfg) (host_name @ ''.toml'')
      in and_then (ensure_path_within_directory fs host_inventory_path (host_inventory cfg))
           (\<lambda>safe_path. read_toml_file from_str fs safe_path))"

section \<open>Searching the inventory for a key\<close>

text \<open>
  The loop over the files the glob gave: one \<open>continue\<close> per reason to skip a file.
  \<open>debug_on\<close> tells whether the debug level is logged; only then is the file name turned
  into text for the message, which panics on a name that is not UTF-8.
\<close>

fun find_in ::
  "('pk, 'kd, 'sk, 'b, 'c) ssh_key_crate \<Rightarrow> host_config toml_parser \<Rightarrow> bool \<Rightarrow> fs \<Rightarrow> path \<Rightarrow> 'pk
    \<Rightarrow> path list \<Rightarrow> (string \<times> host_config) option outcome"
where
  "find_in K from_str debug_on fs canonical_inventory search_key [] = Ok None"
| "find_in K from_str debug_on fs canonical_inventory search_key (f # fl) =
     (let continue = find_in K from_str debug_on fs canonical_inventory search_key fl
      in case canonicalize fs f of
        Inl e \<Rightarrow> continue
      | Inr canonical_file \<Rightarrow>
          if \<not> path_starts_with canonical_file canonical_inventory then continue
          else if debug_on \<and> \<not> valid_utf8 f
          then Panic unwrap_none
          else
            (case read_toml_file from_str fs f of
               Ok host_config \<Rightarrow>
                 (case pk_from_openssh K (hc_public_key host_config) of
                    Inl e \<Rightarrow> continue
                  | Inr config_pub_key \<Rightarrow>
                      if pk_key_data K config_pub_key \<noteq> pk_key_data K search_key then continue
                      else
                        and_then (unwrap_or_panic unwrap_none
                                    (file_stem f)) (\<lambda>file_stem.
                        if \<not> valid_utf8 file_stem
                        then Panic unwrap_none
                        else Ok (Some (file_stem, host_config))))
             | Err e \<Rightarrow> continue
             | Panic m \<Rightarrow> Panic m))"

declare find_in.simps(2) [simp del]

text \<open>\<open>flatten\<close> on the iterator of results drops the unreadable entries.\<close>

definition find_config_by_public_key ::
  "('pk, 'kd, 'sk, 'b, 'c) ssh_key_crate \<Rightarrow> host_config toml_parser \<Rightarrow> glob_crate \<Rightarrow> bool \<Rightarrow> fs
    \<Rightarrow> string \<Rightarrow> ca_cfg \<Rightarrow> (string \<times> host_config) option outcome"
where
  "find_config_by_public_key K from_str glob debug_on fs public_key cfg =
     (case pk_from_openssh K public_key of
        Inl e \<Rightarrow> Ok None
      | Inr search_key \<Rightarrow>
          (case canonicalize fs (host_inventory cfg) of
             Inl e \<Rightarrow> Ok None
           | Inr canonical_inventory \<Rightarrow>
               if \<not> valid_utf8 canonical_inventory
               then Panic unwrap_none
               else
                 (case glob (canonical_inventory @ ''/**/*.toml'') of
                    Inl e \<Rightarrow> Panic (''called `Result::unwrap()` on an `Err` value: '' @ e)
                  | Inr entries \<Rightarrow>
                      find_in K from_str debug_on fs canonical_inventory search_key
                        (List.map_filter id entries))))"

section \<open>What it means for a file to be the entry of a key\<close>

text \<open>
  The specification the loop implements: \<open>host_entry\<close> is the configuration in a file that
  lies in the inventory and whose key has the data \<open>kd\<close>.
\<close>

definition host_entry ::
  "('pk, 'kd, 'sk, 'b, 'c) ssh_key_crate \<Rightarrow> host_config toml_parser \<Rightarrow> fs \<Rightarrow> path \<Rightarrow> 'kd \<Rightarrow> path
    \<Rightarrow> host_config option"
where
  "host_entry K from_str fs base kd f =
     (case canonicalize fs f of
        Inr cf \<Rightarrow>
          if path_starts_with cf base then
            (case read_to_string fs f of
               Inr t \<Rightarrow>
                 (case from_str t of
                    Inr hc \<Rightarrow>
                      (case pk_from_openssh K (hc_public_key hc) of
                         Inr k \<Rightarrow> if pk_key_data K k = kd then Some hc else None
                       | Inl _ \<Rightarrow> None)
                  | Inl _ \<Rightarrow> None)
             | Inl _ \<Rightarrow> None)
          else None
      | Inl _ \<Rightarrow> None)"

lemma host_entry_Some:
  "host_entry K f fs base kd p = Some hc \<longleftrightarrow>
     (\<exists>cf t k. canonicalize fs p = Inr cf \<and> path_starts_with cf base
        \<and> read_to_string fs p = Inr t \<and> f t = Inr hc
        \<and> pk_from_openssh K (hc_public_key hc) = Inr k \<and> pk_key_data K k = kd)"
  by (auto simp: host_entry_def split: sum.splits if_splits)

section \<open>Containment\<close>

lemma ensure_path_Ok:
  "ensure_path_within_directory fs p base = Ok c \<longleftrightarrow>
     canonicalize fs p = Inr c \<and> (\<exists>b. canonicalize fs base = Inr b \<and> path_starts_with c b)"
  by (auto simp: ensure_path_within_directory_def outcome_intros split: if_splits)

lemma ensure_path_no_panic [simp]: "ensure_path_within_directory fs p base \<noteq> Panic m"
  by (auto simp: ensure_path_within_directory_def outcome_intros split: if_splits)

lemma read_host_config_Ok:
  "read_host_config f fs h cfg = Ok hc \<longleftrightarrow>
     (\<exists>c b t. canonicalize fs (path_push (host_inventory cfg) (h @ ''.toml'')) = Inr c
        \<and> canonicalize fs (host_inventory cfg) = Inr b \<and> path_starts_with c b
        \<and> read_to_string fs c = Inr t \<and> f t = Inr hc)"
  by (auto simp: read_host_config_def Let_def outcome_intros ensure_path_Ok read_toml_file_Ok)

text \<open>The file behind a path that can be read.\<close>

lemma read_to_string_file:
  assumes "read_to_string fs p = Inr t"
  obtains q b where "resolve_path fs p = Inr q" and "fs_nodes fs q = Some (File b)"
    and "from_utf8 b = Some t"
  using assms
  by (auto simp: read_to_string_def read_to_end_def read_at_def node_at_def
      split: sum.splits if_splits option.splits node.splits)

text \<open>
  Canonical paths below a canonical base are physical files below a physical directory: the
  lexical test of \<open>starts_with\<close> is exact.
\<close>

lemma canonical_within:
  assumes "canonicalize fs p = Inr c" and "canonicalize fs base = Inr b" and "path_starts_with c b"
    and "has_root base \<or> fs_ok fs" and "has_root p \<or> fs_ok fs"
  shows "\<exists>dir q. b = abs_path dir \<and> c = abs_path q \<and> prefix dir q
    \<and> resolve_path fs p = Inr q \<and> physical fs q \<and> (\<forall>n \<in> set q. proper_name n)"
proof -
  obtain dir where dir: "b = abs_path dir" "\<forall>n \<in> set dir. proper_name n"
    using canonicalize_resolves [OF assms(2,4)] by blast
  obtain q where q: "c = abs_path q" "resolve_path fs p = Inr q"
      "\<forall>n \<in> set q. proper_name n" "physical fs q"
    using canonicalize_resolves [OF assms(1,5)] by blast
  have "prefix dir q"
    using assms(3) dir q by (simp add: starts_with_abs_path)
  with dir q show ?thesis by blast
qed

lemma push_keeps_start: "has_root base \<or> fs_ok fs \<Longrightarrow> has_root (path_push base n) \<or> fs_ok fs"
  by (auto simp: path_simps)

section \<open>The search\<close>

text \<open>Each branch of the loop, in terms of the specification.\<close>

lemma find_in_step:
  "find_in K f dbg fs base k (p # ps) =
     (case host_entry K f fs base (pk_key_data K k) p of
        Some hc \<Rightarrow>
          if dbg \<and> \<not> valid_utf8 p then Panic unwrap_none
          else (case file_stem p of
              None \<Rightarrow> Panic unwrap_none
            | Some s \<Rightarrow> if valid_utf8 s then Ok (Some (s, hc))
                else Panic unwrap_none)
      | None \<Rightarrow>
          if dbg \<and> \<not> valid_utf8 p \<and> (\<exists>c. canonicalize fs p = Inr c \<and> path_starts_with c base)
          then Panic unwrap_none
          else find_in K f dbg fs base k ps)"
proof (cases "\<exists>c. canonicalize fs p = Inr c \<and> path_starts_with c base")
  case False
  then show ?thesis
    by (auto simp: host_entry_def find_in.simps split: sum.split)
next
  case True
  then obtain c where c: "canonicalize fs p = Inr c" "path_starts_with c base" by blast
  show ?thesis
  proof (cases "dbg \<and> \<not> valid_utf8 p")
    case True
    with c show ?thesis
      by (simp add: find_in.simps split: option.split)
  next
    case False
    with c show ?thesis
      by (cases dbg) (simp_all add: host_entry_def find_in.simps Let_def read_toml_file_def
          split: sum.split option.split)
  qed
qed

lemma find_in_Some:
  "find_in K f dbg fs base k ps = Ok (Some (h, hc)) \<Longrightarrow>
     \<exists>us p vs. ps = us @ p # vs \<and> host_entry K f fs base (pk_key_data K k) p = Some hc
       \<and> file_stem p = Some h \<and> (\<forall>u \<in> set us. host_entry K f fs base (pk_key_data K k) u = None)"
proof (induction ps)
  case Nil
  then show ?case by simp
next
  case (Cons p ps)
  show ?case
  proof (cases "host_entry K f fs base (pk_key_data K k) p")
    case None
    with Cons.prems have "find_in K f dbg fs base k ps = Ok (Some (h, hc))"
      by (simp add: find_in_step split: if_splits)
    from Cons.IH [OF this] None show ?thesis
      by (metis append_Cons set_ConsD)
  next
    case (Some hc')
    with Cons.prems have "hc' = hc \<and> file_stem p = Some h"
      by (auto simp: find_in_step split: if_splits option.splits)
    with Some show ?thesis
      by (intro exI [of _ "[]"] exI [of _ p] exI [of _ ps]) simp
  qed
qed

text \<open>When no file name can make it panic, the loop is the first match of a list.\<close>

lemma find_in_first_match:
  assumes "\<forall>p \<in> set ps. valid_utf8 p \<and> (\<exists>s. file_stem p = Some s \<and> valid_utf8 s)"
  shows "find_in K f dbg fs base k ps =
    Ok (case List.find (\<lambda>p. host_entry K f fs base (pk_key_data K k) p \<noteq> None) ps of
          None \<Rightarrow> None
        | Some p \<Rightarrow> Some (the (file_stem p), the (host_entry K f fs base (pk_key_data K k) p)))"
  using assms
  by (induction ps) (auto simp: find_in_step split: option.split)

lemma find_config_Some:
  assumes "find_config_by_public_key K f glob dbg fs key cfg = Ok (Some (h, hc))"
  obtains k base entries us p vs
  where "pk_from_openssh K key = Inr k" and "canonicalize fs (host_inventory cfg) = Inr base"
    and "glob (base @ ''/**/*.toml'') = Inr entries"
    and "List.map_filter id entries = us @ p # vs"
    and "host_entry K f fs base (pk_key_data K k) p = Some hc" and "file_stem p = Some h"
    and "\<forall>u \<in> set us. host_entry K f fs base (pk_key_data K k) u = None"
  using assms
  by (auto simp: find_config_by_public_key_def split: sum.splits if_splits dest!: find_in_Some)

text \<open>The file an entry is read from.\<close>

lemma read_host_config_file:
  assumes "read_host_config f fs h cfg = Ok hc"
    and "has_root (host_inventory cfg) \<or> fs_ok fs"
  shows "\<exists>dir q b text. resolve_path fs (host_inventory cfg) = Inr dir
    \<and> resolve_path fs (path_push (host_inventory cfg) (h @ ''.toml'')) = Inr q
    \<and> prefix dir q \<and> physical fs q \<and> fs_nodes fs q = Some (File b)
    \<and> from_utf8 b = Some text \<and> f text = Inr hc"
proof -
  let ?p = "path_push (host_inventory cfg) (h @ ''.toml'')"
  have start: "has_root ?p \<or> fs_ok fs"
    using assms(2) by (rule push_keeps_start)
  from assms(1) obtain c b t where c: "canonicalize fs ?p = Inr c"
    and b: "canonicalize fs (host_inventory cfg) = Inr b" "path_starts_with c b"
    and t: "read_to_string fs c = Inr t" "f t = Inr hc"
    unfolding read_host_config_Ok by blast
  obtain dir q where q: "b = abs_path dir" "c = abs_path q" "prefix dir q"
      "resolve_path fs ?p = Inr q" "physical fs q" "\<forall>n \<in> set q. proper_name n"
    using canonical_within [OF c b assms(2) start] by blast
  obtain dir' where dir: "b = abs_path dir'" "resolve_path fs (host_inventory cfg) = Inr dir'"
      "\<forall>n \<in> set dir'. proper_name n"
    using canonicalize_resolves [OF b(1) assms(2)] by blast
  have "\<forall>n \<in> set dir. proper_name n"
    using q(3,6) by (auto simp: prefix_def)
  then have "dir' = dir"
    using q(1) dir(1,3) abs_path_inj by metis
  moreover obtain bs where "fs_nodes fs q = Some (File bs)" "from_utf8 bs = Some t"
    using t(1) canonicalize_read [OF c start] q(4) by (auto elim!: read_to_string_file)
  ultimately show ?thesis
    using q dir t(2) by blast
qed

text \<open>
  An inventory on which the search cannot panic: its path, the names of its files and their
  stems are UTF-8, and its path is no malformed glob pattern.
\<close>

definition inventory_readable :: "glob_crate \<Rightarrow> fs \<Rightarrow> ca_cfg \<Rightarrow> bool" where
  "inventory_readable glob fs cfg \<longleftrightarrow>
     (\<forall>base. canonicalize fs (host_inventory cfg) = Inr base \<longrightarrow>
        valid_utf8 base \<and> (\<exists>l. glob (base @ ''/**/*.toml'') = Inr l
          \<and> (\<forall>p. Some p \<in> set l \<longrightarrow> valid_utf8 p \<and> (\<exists>s. file_stem p = Some s \<and> valid_utf8 s))))"

lemma find_config_returns:
  assumes "inventory_readable glob fs cfg"
  shows "\<exists>r. find_config_by_public_key K f glob dbg fs key cfg = Ok r"
proof (cases "canonicalize fs (host_inventory cfg)")
  case (Inl e)
  then show ?thesis
    by (auto simp: find_config_by_public_key_def split: sum.split)
next
  case (Inr base)
  then obtain l where l: "valid_utf8 base" "glob (base @ ''/**/*.toml'') = Inr l"
      "\<forall>p. Some p \<in> set l \<longrightarrow> valid_utf8 p \<and> (\<exists>s. file_stem p = Some s \<and> valid_utf8 s)"
    using assms unfolding inventory_readable_def by blast
  then have "\<forall>p \<in> set (List.map_filter id l). valid_utf8 p \<and> (\<exists>s. file_stem p = Some s \<and> valid_utf8 s)"
    by (auto simp: List.map_filter_def)
  from find_in_first_match [OF this, of K f dbg fs base] Inr l show ?thesis
    by (auto simp: find_config_by_public_key_def split: sum.split)
qed

section \<open>A concrete inventory\<close>

text \<open>
  The inventory \<open>/inv\<close> with an entry \<open>web\<close>, a nested entry \<open>sub/db\<close> and a link that leads
  outside; the text of an entry is its public key.
\<close>

definition example_fs :: fs where
  "example_fs = tree_fs
     [([''inv''], Dir), ([''inv'', ''web.toml''], File ''ssh-ed25519 AAAA web''),
      ([''inv'', ''sub''], Dir), ([''inv'', ''sub'', ''db.toml''], File ''ssh-ed25519 BBBB db''),
      ([''inv'', ''evil.toml''], Link ''../secret.toml''),
      ([''secret.toml''], File ''ssh-ed25519 CCCC secret''),
      ([''users.toml''], File ''users''), ([''default.toml''], File ''template''),
      ([''ca''], File ''PRIVATE'')]"

definition example_host :: "string \<Rightarrow> host_config" where
  "example_host key = \<lparr>hc_public_key = key, hc_validity_in_days = 30,
     hc_hostnames = [''web.example.org''], hc_extensions = []\<rparr>"

definition example_ca :: ca_cfg where
  "example_ca = \<lparr>user_list_file = ''/users.toml'', default_user_template = ''/default.toml'',
     host_inventory = ''/inv'', ca_key = ''/ca''\<rparr>"

definition example_parser :: "host_config toml_parser" where
  "example_parser t = Inr (example_host t)"

definition example_glob :: "string list \<Rightarrow> glob_crate" where
  "example_glob fl pat = (if pat = ''/inv/**/*.toml'' then Inr (map Some fl) else Inr [])"

lemma example_glob_in: "example_glob fl pat = Inr l \<Longrightarrow> Some p \<in> set l \<Longrightarrow> p \<in> set fl"
  by (auto simp: example_glob_def split: if_splits)

lemma example_direct:
  "\<forall>l p. example_glob [''/inv/web.toml''] (abs_path [''inv''] @ ''/**/*.toml'') = Inr l \<and> Some p \<in> set l \<longrightarrow>
      (\<exists>n b. p = abs_path ([''inv''] @ [n @ ''.toml'']) \<and> n \<noteq> [] \<and> slash \<notin> set n
        \<and> fs_nodes example_fs ([''inv''] @ [n @ ''.toml'']) = Some (File b))"
proof (intro allI impI)
  fix l p
  assume "example_glob [''/inv/web.toml''] (abs_path [''inv''] @ ''/**/*.toml'') = Inr l \<and> Some p \<in> set l"
  then have "p = ''/inv/web.toml''"
    using example_glob_in [of "[''/inv/web.toml'']"] by fastforce
  then show "\<exists>n b. p = abs_path ([''inv''] @ [n @ ''.toml'']) \<and> n \<noteq> [] \<and> slash \<notin> set n
      \<and> fs_nodes example_fs ([''inv''] @ [n @ ''.toml'']) = Some (File b)"
    by (rule_tac x = "''web''" in exI, rule_tac x = "''ssh-ed25519 AAAA web''" in exI)
      (simp add: abs_path_def example_fs_def tree_fs_def)
qed

lemma example_rooted: "has_root (host_inventory example_ca) \<or> fs_ok example_fs"
  by (simp add: example_ca_def has_root_def)

section \<open>Properties\<close>

text \<open>C7. Whatever host name is asked for, the file that \<open>read_host_config\<close> parses is a
  regular file physically below the inventory directory: no \<open>..\<close>, absolute name or symbolic
  link in the name or on the way leads outside.\<close>

theorem read_host_config_contained:
  assumes "read_host_config f fs h cfg = Ok hc"
    and "has_root (host_inventory cfg) \<or> fs_ok fs"
  shows "\<exists>dir q b text. resolve_path fs (host_inventory cfg) = Inr dir
    \<and> resolve_path fs (path_push (host_inventory cfg) (h @ ''.toml'')) = Inr q
    \<and> prefix dir q \<and> physical fs q \<and> fs_nodes fs q = Some (File b)
    \<and> from_utf8 b = Some text \<and> f text = Inr hc"
  using assms by (rule read_host_config_file)

lemma read_host_config_contained_witness:
  "\<exists>dir q b text. resolve_path example_fs ''/inv'' = Inr dir
    \<and> resolve_path example_fs ''/inv/web.toml'' = Inr q
    \<and> prefix dir q \<and> physical example_fs q \<and> fs_nodes example_fs q = Some (File b)
    \<and> from_utf8 b = Some text \<and> example_parser text = Inr (example_host ''ssh-ed25519 AAAA web'')"
proof -
  have "read_host_config example_parser example_fs ''web'' example_ca
      = Ok (example_host ''ssh-ed25519 AAAA web'')"
    by code_simp
  from read_host_config_contained [OF this example_rooted] show ?thesis
    by (simp add: example_ca_def path_push_def has_root_def)
qed

text \<open>A host name whose file resolves to a place outside the inventory directory is
  refused with the traversal error, whatever that file holds.\<close>

theorem host_traversal_refused:
  assumes "resolve_path fs (host_inventory cfg) = Inr dir"
    and "resolve_path fs (path_push (host_inventory cfg) (h @ ''.toml'')) = Inr q"
    and "\<not> prefix dir q"
    and "has_root (host_inventory cfg) \<or> fs_ok fs"
  shows "read_host_config f fs h cfg = Err (Message ''path traversal detected in host name'')"
proof -
  have "\<forall>n \<in> set dir. proper_name n"
    using resolve_path_sound [OF assms(1,4)] by blast
  moreover have "\<forall>n \<in> set q. proper_name n"
    using resolve_path_sound [OF assms(2) push_keeps_start [OF assms(4)]] by blast
  ultimately show ?thesis
    using assms(1-3)
    by (simp add: read_host_config_def ensure_path_within_directory_def canonicalize_def
        starts_with_abs_path)
qed

lemma host_traversal_refused_witness:
  "read_host_config example_parser example_fs ''../secret'' example_ca
     = Err (Message ''path traversal detected in host name'')
   \<and> read_host_config example_parser example_fs ''evil'' example_ca
     = Err (Message ''path traversal detected in host name'')"
proof
  have inv: "resolve_path example_fs (host_inventory example_ca) = Inr [''inv'']"
    by code_simp
  have np: "\<not> prefix [''inv''] [''secret.toml'']"
    by simp
  have "resolve_path example_fs (path_push (host_inventory example_ca) (''../secret'' @ ''.toml''))
      = Inr [''secret.toml'']"
    by code_simp
  from host_traversal_refused [OF inv this np example_rooted]
  show "read_host_config example_parser example_fs ''../secret'' example_ca
      = Err (Message ''path traversal detected in host name'')" .
  have "resolve_path example_fs (path_push (host_inventory example_ca) (''evil'' @ ''.toml''))
      = Inr [''secret.toml'']"
    by code_simp
  from host_traversal_refused [OF inv this np example_rooted]
  show "read_host_config example_parser example_fs ''evil'' example_ca
      = Err (Message ''path traversal detected in host name'')" .
qed

text \<open>A login by host key finds the first inventory file, in the order of the glob, that
  holds a key with the data of the presented key: the file found resolves into the inventory
  directory, the key stored in it has the presented key data, the host is named by the stem
  of the file, and no file before it holds that key.\<close>

theorem find_config_sound:
  assumes "find_config_by_public_key K f glob dbg fs key cfg = Ok (Some (h, hc))"
    and "has_root (host_inventory cfg) \<or> fs_ok fs"
    and "\<forall>pat l p. glob pat = Inr l \<and> Some p \<in> set l \<longrightarrow> has_root p"
  shows "\<exists>k k' dir base us p vs q text. pk_from_openssh K key = Inr k
    \<and> resolve_path fs (host_inventory cfg) = Inr dir \<and> base = abs_path dir
    \<and> (\<exists>l. glob (base @ ''/**/*.toml'') = Inr l \<and> List.map_filter id l = us @ p # vs)
    \<and> resolve_path fs p = Inr q \<and> prefix dir q
    \<and> read_to_string fs p = Inr text \<and> f text = Inr hc
    \<and> pk_from_openssh K (hc_public_key hc) = Inr k' \<and> pk_key_data K k' = pk_key_data K k
    \<and> file_stem p = Some h
    \<and> (\<forall>u \<in> set us. host_entry K f fs base (pk_key_data K k) u = None)"
proof -
  obtain k base entries us p vs where k: "pk_from_openssh K key = Inr k"
    and base: "canonicalize fs (host_inventory cfg) = Inr base"
    and l: "glob (base @ ''/**/*.toml'') = Inr entries" "List.map_filter id entries = us @ p # vs"
    and e: "host_entry K f fs base (pk_key_data K k) p = Some hc" and h: "file_stem p = Some h"
    and us: "\<forall>u \<in> set us. host_entry K f fs base (pk_key_data K k) u = None"
    using find_config_Some [OF assms(1)] by blast
  have "p \<in> set (List.map_filter id entries)"
    by (simp add: l(2))
  then have "Some p \<in> set entries"
    by (auto simp: List.map_filter_def)
  then have root: "has_root p \<or> fs_ok fs"
    using assms(3) l(1) by blast
  from e obtain cf t k' where cf: "canonicalize fs p = Inr cf" "path_starts_with cf base"
    and t: "read_to_string fs p = Inr t" "f t = Inr hc"
    and k': "pk_from_openssh K (hc_public_key hc) = Inr k'" "pk_key_data K k' = pk_key_data K k"
    unfolding host_entry_Some by blast
  obtain dir where dir: "base = abs_path dir" "resolve_path fs (host_inventory cfg) = Inr dir"
      "\<forall>n \<in> set dir. proper_name n"
    using canonicalize_resolves [OF base assms(2)] by blast
  obtain q where q: "cf = abs_path q" "resolve_path fs p = Inr q" "\<forall>n \<in> set q. proper_name n"
    using canonicalize_resolves [OF cf(1) root] by blast
  have "prefix dir q"
    using cf(2) dir q by (simp add: starts_with_abs_path)
  with k k' dir l q t h us show ?thesis by blast
qed

lemma find_config_sound_witness:
  "\<exists>p q hc. file_stem p = Some ''web'' \<and> resolve_path example_fs p = Inr q
    \<and> prefix [''inv''] q \<and> pk_key_data ref_crate (''ssh-ed25519'', ''AAAA'', []) = (''ssh-ed25519'', ''AAAA'')
    \<and> pk_from_openssh ref_crate (hc_public_key hc) = Inr (''ssh-ed25519'', ''AAAA'', ''web'')
    \<and> hc = example_host ''ssh-ed25519 AAAA web''"
proof -
  let ?fl = "[''/inv/evil.toml'', ''/inv/sub/db.toml'', ''/inv/web.toml'']"
  have found: "find_config_by_public_key ref_crate example_parser (example_glob ?fl) True example_fs
      ''ssh-ed25519 AAAA'' example_ca = Ok (Some (''web'', example_host ''ssh-ed25519 AAAA web''))"
    by code_simp
  have "\<forall>pat l p. example_glob ?fl pat = Inr l \<and> Some p \<in> set l \<longrightarrow> has_root p"
    using example_glob_in [of ?fl] by (fastforce simp: has_root_def)
  from find_config_sound [OF found example_rooted this] obtain dir p q where
    "resolve_path example_fs (host_inventory example_ca) = Inr dir"
    "resolve_path example_fs p = Inr q" "prefix dir q" "file_stem p = Some ''web''"
    by blast
  moreover have "resolve_path example_fs (host_inventory example_ca) = Inr [''inv'']"
    by code_simp
  moreover have "pk_from_openssh ref_crate (hc_public_key (example_host ''ssh-ed25519 AAAA web''))
      = Inr (''ssh-ed25519'', ''AAAA'', ''web'')"
    by code_simp
  ultimately show ?thesis
    by (auto simp: ref_crate_def)
qed

text \<open>C16. The search is the first match: when no file name can make it panic, the result is
  the entry of the first file that holds the key inside the inventory, and \<open>None\<close> exactly
  when no file does. Unreadable, malformed and outside files are skipped, never fatal.\<close>

theorem find_config_first_match:
  assumes "pk_from_openssh K key = Inr k"
    and "canonicalize fs (host_inventory cfg) = Inr base" and "valid_utf8 base"
    and "glob (base @ ''/**/*.toml'') = Inr entries"
    and "\<forall>p. Some p \<in> set entries \<longrightarrow> valid_utf8 p \<and> (\<exists>s. file_stem p = Some s \<and> valid_utf8 s)"
  shows "find_config_by_public_key K f glob dbg fs key cfg =
    Ok (case List.find (\<lambda>p. host_entry K f fs base (pk_key_data K k) p \<noteq> None)
               (List.map_filter id entries) of
          None \<Rightarrow> None
        | Some p \<Rightarrow> Some (the (file_stem p), the (host_entry K f fs base (pk_key_data K k) p)))"
proof -
  have "\<forall>p \<in> set (List.map_filter id entries). valid_utf8 p
      \<and> (\<exists>s. file_stem p = Some s \<and> valid_utf8 s)"
    using assms(5) by (auto simp: List.map_filter_def)
  from find_in_first_match [OF this] assms(1-4) show ?thesis
    by (simp add: find_config_by_public_key_def)
qed

lemma find_config_first_match_witness:
  "find_config_by_public_key ref_crate example_parser
      (example_glob [''/inv/evil.toml'', ''/inv/none.toml'', ''/inv/sub/db.toml'']) True example_fs
      ''ssh-ed25519 CCCC'' example_ca = Ok None"
proof -
  let ?fl = "[''/inv/evil.toml'', ''/inv/none.toml'', ''/inv/sub/db.toml'']"
  have k: "pk_from_openssh ref_crate ''ssh-ed25519 CCCC'' = Inr (''ssh-ed25519'', ''CCCC'', [])"
    and base: "canonicalize example_fs (host_inventory example_ca) = Inr ''/inv''"
    and v: "valid_utf8 ''/inv''"
    and g: "example_glob ?fl (''/inv'' @ ''/**/*.toml'') = Inr (map Some ?fl)"
    and st: "list_all (\<lambda>p. valid_utf8 p \<and> (case file_stem p of Some s \<Rightarrow> valid_utf8 s | None \<Rightarrow> False)) ?fl"
    and none: "List.find (\<lambda>p. host_entry ref_crate example_parser example_fs ''/inv''
        (pk_key_data ref_crate (''ssh-ed25519'', ''CCCC'', [])) p \<noteq> None)
        (List.map_filter id (map Some ?fl)) = None"
    by code_simp+
  have "\<forall>p. Some p \<in> set (map Some ?fl) \<longrightarrow>
      valid_utf8 p \<and> (\<exists>s. file_stem p = Some s \<and> valid_utf8 s)"
    using st by (auto split: option.splits)
  from find_config_first_match [where f = example_parser and dbg = True and glob = "example_glob ?fl" and base = "''/inv''", OF k base v g this] none
  show ?thesis by simp
qed

text \<open>The host name found at login names the same file again when it lies directly in the
  inventory.\<close>

lemma file_stem_direct:
  assumes "\<forall>n \<in> set dir. proper_name n" and "proper_name (h @ ''.toml'')" and "h \<noteq> []"
  shows "file_stem (abs_path (dir @ [h @ ''.toml''])) = Some h"
proof -
  have "components (abs_path (dir @ [h @ ''.toml''])) = RootDir # map Normal (dir @ [h @ ''.toml''])"
    using assms(1,2) by (intro components_abs_path) auto
  moreover have "stem (h @ ''.toml'') = h"
    using assms(3) stem_dot [of h "''toml''"] by simp
  ultimately show ?thesis
    by (simp add: file_stem_def)
qed

lemma resolve_child:
  assumes "physical_dir fs dir" and "\<forall>n \<in> set dir. proper_name n" and "proper_name n"
    and "fs_nodes fs (dir @ [n]) = Some (File b)"
    and "resolve_path fs (abs_path (dir @ [n])) = Inr q"
  shows "fs_access fs dir \<and> q = dir @ [n]"
proof -
  have "walk_names (abs_path (dir @ [n])) = dir @ [n]"
    using assms(2,3) by (intro walk_names_abs_path) auto
  then have r: "resolve fs max_links [] (dir @ [n]) = Inr q"
    using assms(5) by (simp add: resolve_path_def split: if_splits)
  have "resolve fs max_links [] dir = Inr dir" and "node_at fs dir = Some Dir"
    using resolve_physical_id [of fs "[]" dir] assms(1,2) by (simp_all add: physical_dir_def)
  then obtain b' where "resolve fs b' dir [n] = Inr q"
    using resolve_append r by metis
  with assms(3,4) show ?thesis
    by (simp add: resolve.simps(2) proper_name_def split: if_splits)
qed

lemma direct_entry_signable:
  assumes "find_config_by_public_key K f glob dbg fs key cfg = Ok (Some (h, hc))"
    and "resolve_path fs (host_inventory cfg) = Inr dir" and "node_at fs dir = Some Dir"
    and "has_root (host_inventory cfg) \<or> fs_ok fs"
    and "\<forall>l p. glob (abs_path dir @ ''/**/*.toml'') = Inr l \<and> Some p \<in> set l \<longrightarrow>
      (\<exists>n b. p = abs_path (dir @ [n @ ''.toml'']) \<and> n \<noteq> [] \<and> slash \<notin> set n
        \<and> fs_nodes fs (dir @ [n @ ''.toml'']) = Some (File b))"
  shows "read_host_config f fs h cfg = Ok hc"
proof -
  have dir: "\<forall>n \<in> set dir. proper_name n" "physical_dir fs dir"
    using resolve_path_sound [OF assms(2,4)] assms(3) by (auto simp: physical_dir_def)
  have base: "canonicalize fs (host_inventory cfg) = Inr (abs_path dir)"
    using assms(2) by (simp add: canonicalize_def)
  obtain k entries us p vs where l: "glob (abs_path dir @ ''/**/*.toml'') = Inr entries"
      "List.map_filter id entries = us @ p # vs"
    and e: "host_entry K f fs (abs_path dir) (pk_key_data K k) p = Some hc" and h: "file_stem p = Some h"
    using find_config_Some [OF assms(1)] base by (metis sum.inject(2))
  have "p \<in> set (List.map_filter id entries)"
    by (simp add: l(2))
  then have "Some p \<in> set entries"
    by (auto simp: List.map_filter_def)
  then obtain n b where p: "p = abs_path (dir @ [n @ ''.toml''])" "n \<noteq> []" "slash \<notin> set n"
      "fs_nodes fs (dir @ [n @ ''.toml'']) = Some (File b)"
    using assms(5) l(1) by blast
  let ?n = "n @ ''.toml''"
  have n: "proper_name ?n"
    using p(2,3) by (auto simp: proper_name_def Cons_eq_append_conv append_eq_Cons_conv)
  have "h = n"
    using file_stem_direct [OF dir(1) n p(2)] h p(1) by simp
  from e obtain cf t k' where cf: "canonicalize fs p = Inr cf" "path_starts_with cf (abs_path dir)"
    and t: "read_to_string fs p = Inr t" "f t = Inr hc"
    unfolding host_entry_Some by blast
  then obtain q where q: "resolve_path fs p = Inr q"
    by (auto simp: canonicalize_def split: sum.splits)
  then have acc: "fs_access fs dir" "q = dir @ [?n]"
    using resolve_child [OF dir(2,1) n p(4)] p(1) by auto
  have "resolve_path fs (path_push (host_inventory cfg) ?n) = Inr (dir @ [?n])"
    using assms(2) by (intro resolve_path_push_file [OF assms(2,3) _ n acc(1) p(4)])
      (auto simp: resolve_path_def)
  then have "canonicalize fs (path_push (host_inventory cfg) ?n) = Inr cf"
    using cf(1) q acc(2) by (simp add: canonicalize_def)
  moreover have "read_to_string fs cf = Inr t"
    using canonicalize_read [OF cf(1)] p(1) t(1) by simp
  ultimately show ?thesis
    using base cf(2) t(2) \<open>h = n\<close> unfolding read_host_config_Ok by blast
qed

text \<open>Login and signing agree on hosts whose entry is a regular file directly in the
  inventory: when every file the glob finds is one, the host name that a login by key
  yields is a name whose configuration \<open>read_host_config\<close> finds, and it is the same
  configuration.\<close>

theorem login_host_signable:
  assumes "find_config_by_public_key K f glob dbg fs key cfg = Ok (Some (h, hc))"
    and "resolve_path fs (host_inventory cfg) = Inr dir" and "node_at fs dir = Some Dir"
    and "has_root (host_inventory cfg) \<or> fs_ok fs"
    and "\<forall>l p. glob (abs_path dir @ ''/**/*.toml'') = Inr l \<and> Some p \<in> set l \<longrightarrow>
      (\<exists>n b. p = abs_path (dir @ [n @ ''.toml'']) \<and> n \<noteq> [] \<and> slash \<notin> set n
        \<and> fs_nodes fs (dir @ [n @ ''.toml'']) = Some (File b))"
  shows "read_host_config f fs h cfg = Ok hc"
  using assms by (rule direct_entry_signable)

lemma login_host_signable_witness:
  "read_host_config example_parser example_fs ''web'' example_ca
    = Ok (example_host ''ssh-ed25519 AAAA web'')"
proof -
  let ?fl = "[''/inv/web.toml'']"
  have found: "find_config_by_public_key ref_crate example_parser (example_glob ?fl) False example_fs
      ''ssh-ed25519 AAAA'' example_ca = Ok (Some (''web'', example_host ''ssh-ed25519 AAAA web''))"
    and dir: "resolve_path example_fs (host_inventory example_ca) = Inr [''inv'']"
      "node_at example_fs [''inv''] = Some Dir"
    by code_simp+
  from login_host_signable [OF found dir example_rooted example_direct] show ?thesis .
qed



end
