(* ===== verification/Authority.thy ===== *)
theory Authority
  imports User_Defaults Host_Inventory
begin

text \<open>
  \<open>certificat_authority/mod.rs\<close>: the certificate authority itself. The two signing methods
  read their parameters, take the clock twice, draw a nonce and a serial number, fill a
  certificate builder and sign. What is not code of the repository comes in through
  \<open>ca_env\<close> (crates, log levels), the file system and the \<open>readings\<close>.
\<close>

section \<open>Environment and state\<close>

text \<open>
  The crates the authority calls, and whether debug and error messages are logged: the
  arguments of a log macro are evaluated only then.
\<close>

record ('pk, 'kd, 'sk, 'b, 'c) ca_env =
  crate :: "('pk, 'kd, 'sk, 'b, 'c) ssh_key_crate"
  users_toml :: "user_list toml_parser"
  defaults_toml :: "user_defaults toml_parser"
  hosts_toml :: "host_config toml_parser"
  render_template :: jinja
  glob :: glob_crate
  debug_on :: bool
  error_on :: bool

text \<open>
  What one signature takes from the world: the two readings of the clock (nanoseconds
  since the epoch, negative before it), the nonce and the serial number.
\<close>

record readings =
  clock_after :: int
  clock_before :: int
  nonce :: bytes
  serial_no :: u64

record 'sk authority =
  private_key :: 'sk
  ca_config :: ca_cfg

definition ca_new ::
  "('pk, 'kd, 'sk, 'b, 'c) ca_env \<Rightarrow> fs \<Rightarrow> ca_cfg \<Rightarrow> 'sk authority outcome" where
  "ca_new env fs cfg =
     and_then (io_result (read_to_end fs (ca_key cfg))) (\<lambda>key_buffer.
     and_then (foreign (sk_from_openssh (crate env) key_buffer)) (\<lambda>key.
       Ok \<lparr>private_key = key, ca_config = cfg\<rparr>))"

section \<open>The clock\<close>

text \<open>\<open>now().duration_since(UNIX_EPOCH).unwrap().as_secs()\<close>\<close>

definition unix_secs :: "int \<Rightarrow> u64 outcome" where
  "unix_secs ns =
     (if ns < 0 then Panic ''called `Result::unwrap()` on an `Err` value: SystemTimeError''
      else Ok (word_of_int (ns div 1000000000)))"

section \<open>Filling the builder\<close>

text \<open>
  \<open>for principal in \<dots>\<close>: an error of \<open>valid_principal\<close> is dropped (\<open>let _ =\<close>).
  \<open>for extension in \<dots>\<close>: an error ends the function.
\<close>

primrec add_principals ::
  "('pk, 'kd, 'sk, 'b, 'c) ssh_key_crate \<Rightarrow> string list \<Rightarrow> 'b \<Rightarrow> 'b" where
  "add_principals K [] b = b"
| "add_principals K (p # ps) b = add_principals K ps (snd (cb_valid_principal K p b))"

primrec add_extensions ::
  "('pk, 'kd, 'sk, 'b, 'c) ssh_key_crate \<Rightarrow> string list \<Rightarrow> 'b \<Rightarrow> 'b outcome" where
  "add_extensions K [] b = Ok b"
| "add_extensions K (e # es) b =
     and_then (foreign (cb_extension K e '''' b)) (\<lambda>b'. add_extensions K es b')"

text \<open>
  The tail both signing methods have, from the first clock reading to the signature; they
  differ in the prefix of the key id, the certificate type and the parameters.
\<close>

definition build_certificate ::
  "('pk, 'kd, 'sk, 'b, 'c) ssh_key_crate \<Rightarrow> 'sk \<Rightarrow> readings \<Rightarrow> string \<Rightarrow> cert_type \<Rightarrow> string
    \<Rightarrow> u16 \<Rightarrow> string list \<Rightarrow> string list \<Rightarrow> 'pk \<Rightarrow> 'c outcome"
where
  "build_certificate K sk rd pre ty name validity_in_days principals extensions public_key =
     and_then (unix_secs (clock_after rd)) (\<lambda>valid_after.
     and_then (unix_secs (clock_before rd)) (\<lambda>now.
       let valid_before = now + (ucast validity_in_days :: u64) * 86400
       in
         and_then (foreign (cb_new_with_random_nonce K (nonce rd) public_key valid_after valid_before)) (\<lambda>b.
         and_then (foreign (cb_serial K (serial_no rd) b)) (\<lambda>b.
         and_then (foreign (cb_key_id K (pre @ ''-'' @ name @ ''-'' @ dec (unat valid_after)) b)) (\<lambda>b.
         and_then (foreign (cb_cert_type K ty b)) (\<lambda>b.
         and_then (foreign (cb_comment K (pk_comment K public_key) (add_principals K principals b))) (\<lambda>b.
         and_then (add_extensions K extensions b) (\<lambda>b.
           foreign (cb_sign K sk b)))))))))"

section \<open>The operations\<close>

definition sign_certificate ::
  "('pk, 'kd, 'sk, 'b, 'c) ca_env \<Rightarrow> fs \<Rightarrow> 'sk authority \<Rightarrow> readings \<Rightarrow> string \<Rightarrow> 'pk \<Rightarrow> 'c outcome"
where
  "sign_certificate env fs auth rd user public_key =
     and_then (read_user_defaults (users_toml env) (defaults_toml env) (render_template env) fs user
                (ca_config auth)) (\<lambda>user_defaults.
       build_certificate (crate env) (private_key auth) rd ''user'' UserCert user
         (ud_validity_in_days user_defaults) (ud_principals user_defaults)
         (ud_extensions user_defaults) public_key)"

definition check_public_key ::
  "('pk, 'kd, 'sk, 'b, 'c) ca_env \<Rightarrow> fs \<Rightarrow> 'sk authority \<Rightarrow> string \<Rightarrow> string option outcome" where
  "check_public_key env fs auth public_key =
     and_then (find_config_by_public_key (crate env) (hosts_toml env) (glob env) (debug_on env) fs
                public_key (ca_config auth))
       (\<lambda>found. case found of Some (host_name, _) \<Rightarrow> Ok (Some host_name) | None \<Rightarrow> Ok None)"

text \<open>The two \<open>unwrap\<close>s in the messages for a key mismatch run only when errors are logged.\<close>

definition log_keys :: "('pk, 'kd, 'sk, 'b, 'c) ca_env \<Rightarrow> 'pk list \<Rightarrow> unit outcome" where
  "log_keys env ks =
     (if error_on env \<and> (\<exists>k \<in> set ks. \<exists>e. pk_to_openssh (crate env) k = Inl e)
      then Panic ''called `Result::unwrap()` on an `Err` value''
      else Ok ())"

definition sign_host_certificate ::
  "('pk, 'kd, 'sk, 'b, 'c) ca_env \<Rightarrow> fs \<Rightarrow> 'sk authority \<Rightarrow> readings \<Rightarrow> string \<Rightarrow> 'pk \<Rightarrow> 'c outcome"
where
  "sign_host_certificate env fs auth rd host_name public_key =
     and_then (read_host_config (hosts_toml env) fs host_name (ca_config auth)) (\<lambda>host_config.
     and_then (map_err (\<lambda>_. WrongPublicKey host_name)
                (foreign (pk_from_openssh (crate env) (hc_public_key host_config)))) (\<lambda>config_pub_key.
       if pk_key_data (crate env) config_pub_key \<noteq> pk_key_data (crate env) public_key
       then and_then (log_keys env [config_pub_key, public_key]) (\<lambda>_. Err (WrongPublicKey host_name))
       else
         build_certificate (crate env) (private_key auth) rd ''host'' HostCert host_name
           (hc_validity_in_days host_config) (hc_hostnames host_config)
           (hc_extensions host_config) public_key))"

section \<open>What the builder ends up holding\<close>

lemma add_principals_fields:
  assumes "builder_laws K bv cv"
  shows "\<exists>ps'. subseq ps' ps
    \<and> bv (add_principals K ps b) = (bv b)\<lparr>cf_principals := cf_principals (bv b) @ ps'\<rparr>
    \<and> ((\<forall>p b. fst (cb_valid_principal K p b) = None) \<longrightarrow> ps' = ps)"
proof (induction ps arbitrary: b)
  case Nil
  have "bv b = (bv b)\<lparr>cf_principals := cf_principals (bv b) @ []\<rparr>" by simp
  then show ?case
    by (intro exI [of _ "[]"]) simp
next
  case (Cons p ps)
  obtain r b' where v: "cb_valid_principal K p b = (r, b')" by force
  obtain ps' where ps': "subseq ps' ps"
      "bv (add_principals K ps b') = (bv b')\<lparr>cf_principals := cf_principals (bv b') @ ps'\<rparr>"
      "(\<forall>p b. fst (cb_valid_principal K p b) = None) \<longrightarrow> ps' = ps"
    using Cons.IH by blast
  show ?case
  proof (cases r)
    case None
    then have "bv b' = (bv b)\<lparr>cf_principals := cf_principals (bv b) @ [p]\<rparr>"
      using assms v by (simp add: builder_laws_def)
    with ps' v show ?thesis
      by (intro exI [of _ "p # ps'"]) auto
  next
    case (Some e)
    then have "bv b' = bv b"
      using assms v by (auto simp: builder_laws_def)
    moreover have "\<not> (\<forall>p b. fst (cb_valid_principal K p b) = None)"
      using v Some by (metis fst_conv option.distinct(1))
    ultimately show ?thesis
      using ps' v by (intro exI [of _ ps']) auto
  qed
qed

lemma add_extensions_fields:
  assumes "builder_laws K bv cv" and "add_extensions K es b = Ok b'"
  shows "bv b' = (bv b)\<lparr>cf_extensions :=
    (\<lambda>n. if n \<in> set es then Some '''' else cf_extensions (bv b) n)\<rparr>"
  using assms(2)
proof (induction es arbitrary: b)
  case Nil
  then show ?case by simp
next
  case (Cons e es)
  then obtain b1 where b1: "cb_extension K e '''' b = Inr b1" "add_extensions K es b1 = Ok b'"
    by (auto simp: outcome_intros)
  have "bv b1 = (bv b)\<lparr>cf_extensions := (cf_extensions (bv b))(e := Some '''')\<rparr>"
    using assms(1) b1(1) by (simp add: builder_laws_def)
  moreover from this have "(\<lambda>n. if n \<in> set es then Some '''' else cf_extensions (bv b1) n)
      = (\<lambda>n. if n \<in> set (e # es) then Some '''' else cf_extensions (bv b) n)"
    by (auto simp: fun_eq_iff)
  ultimately show ?case
    using Cons.IH [OF b1(2)] by simp
qed

text \<open>
  Everything a certificate holds, field by field: the one lemma the properties of both
  signing methods rest on.
\<close>

definition issued ::
  "('pk, 'kd, 'sk, 'b, 'c) ssh_key_crate \<Rightarrow> string \<Rightarrow> cert_type \<Rightarrow> readings \<Rightarrow> string \<Rightarrow> u16
    \<Rightarrow> string list \<Rightarrow> string list \<Rightarrow> 'pk \<Rightarrow> 'kd cert_fields \<Rightarrow> bool"
where
  "issued K pre ty rd name days ps es pk v \<longleftrightarrow>
     cf_public_key v = pk_key_data K pk \<and> cf_serial v = serial_no rd \<and> cf_type v = ty
     \<and> (\<exists>valid_after now. unix_secs (clock_after rd) = Ok valid_after
          \<and> unix_secs (clock_before rd) = Ok now
          \<and> cf_key_id v = pre @ ''-'' @ name @ ''-'' @ dec (unat valid_after)
          \<and> cf_valid_after v = valid_after
          \<and> cf_valid_before v = now + (ucast days :: u64) * 86400)
     \<and> subseq (cf_principals v) ps
     \<and> ((\<forall>p b. fst (cb_valid_principal K p b) = None) \<longrightarrow> cf_principals v = ps)
     \<and> cf_comment v = pk_comment K pk
     \<and> cf_extensions v = (\<lambda>n. if n \<in> set es then Some '''' else None)"

lemma build_certificate_issued:
  assumes "builder_laws K bv cv"
    and "build_certificate K sk rd pre ty name days ps es pk = Ok c"
  shows "issued K pre ty rd name days ps es pk (cv c)"
proof -
  from assms(2) obtain a now b0 b1 b2 b3 b4 b5 where
    s: "unix_secs (clock_after rd) = Ok a" "unix_secs (clock_before rd) = Ok now"
      "cb_new_with_random_nonce K (nonce rd) pk a (now + (ucast days :: u64) * 86400) = Inr b0"
      "cb_serial K (serial_no rd) b0 = Inr b1"
      "cb_key_id K (pre @ ''-'' @ name @ ''-'' @ dec (unat a)) b1 = Inr b2"
      "cb_cert_type K ty b2 = Inr b3"
      "cb_comment K (pk_comment K pk) (add_principals K ps b3) = Inr b4"
    and e: "add_extensions K es b4 = Ok b5" and c: "cb_sign K sk b5 = Inr c"
    by (auto simp: build_certificate_def Let_def outcome_intros)
  obtain ps' where ps': "subseq ps' ps"
      "bv (add_principals K ps b3) = (bv b3)\<lparr>cf_principals := cf_principals (bv b3) @ ps'\<rparr>"
      "(\<forall>p b. fst (cb_valid_principal K p b) = None) \<longrightarrow> ps' = ps"
    using add_principals_fields [OF assms(1)] by blast
  have "cv c = (bv b4)\<lparr>cf_extensions :=
      (\<lambda>n. if n \<in> set es then Some '''' else cf_extensions (bv b4) n)\<rparr>"
    using add_extensions_fields [OF assms(1) e] builder_lawsD(6) [OF assms(1) c] by simp
  with ps' s(1,2) builder_lawsD(1) [OF assms(1) s(3)] builder_lawsD(2) [OF assms(1) s(4)]
    builder_lawsD(3) [OF assms(1) s(5)] builder_lawsD(4) [OF assms(1) s(6)]
    builder_lawsD(5) [OF assms(1) s(7)]
  show ?thesis
    unfolding issued_def by auto
qed

lemma build_certificate_clock:
  assumes "build_certificate K sk rd pre ty name days ps es pk = Panic m"
  shows "clock_after rd < 0 \<or> clock_before rd < 0"
proof -
  have ext: "add_extensions K es b \<noteq> Panic m'" for b m'
    by (induction es arbitrary: b) (auto simp: outcome_intros)
  from assms ext show ?thesis
    by (auto simp: build_certificate_def Let_def outcome_intros unix_secs_def split: if_splits)
qed

section \<open>The clock and the lifetime\<close>

lemma unix_secs_Ok:
  "unix_secs ns = Ok s \<longleftrightarrow> 0 \<le> ns \<and> s = word_of_int (ns div 1000000000)"
  by (auto simp: unix_secs_def)

text \<open>\<open>SystemTime\<close> counts seconds in an \<open>i64\<close>: readings beyond that do not exist.\<close>

definition clock_range :: "int \<Rightarrow> bool" where
  "clock_range ns \<longleftrightarrow> 0 \<le> ns \<and> ns div 1000000000 < 2 ^ 63"

lemma unix_secs_range:
  assumes "clock_range ns"
  shows "unix_secs ns = Ok (word_of_int (ns div 1000000000))"
    and "unat (word_of_int (ns div 1000000000) :: u64) = nat (ns div 1000000000)"
proof -
  have r: "0 \<le> ns div 1000000000" "ns div 1000000000 < 2 ^ 63"
    using assms by (auto simp: clock_range_def)
  then have "ns div 1000000000 < 2 ^ 64"
    by simp
  with r have "uint (word_of_int (ns div 1000000000) :: u64) = ns div 1000000000"
    by (simp add: uint_word_of_int take_bit_int_eq_self_iff)
  then show "unat (word_of_int (ns div 1000000000) :: u64) = nat (ns div 1000000000)"
    by (simp add: unat_eq_nat_uint)
  show "unix_secs ns = Ok (word_of_int (ns div 1000000000))"
    using assms by (simp add: unix_secs_def clock_range_def)
qed

lemma lifetime_no_wrap:
  fixes now :: u64 and days :: u16
  assumes "unat now < 2 ^ 63"
  shows "unat (now + ucast days * 86400) = unat now + unat days * 86400"
proof -
  have d: "unat days < 2 ^ 16"
    using unsigned_less [of days] by simp
  then have u: "unat (ucast days :: u64) = unat days"
    by (simp add: unsigned_ucast_eq take_bit_nat_eq_self)
  have m: "unat (ucast days * 86400 :: u64) = unat days * 86400"
    using d by (simp add: unat_word_ariths u)
  with assms d show ?thesis
    by (simp add: unat_word_ariths)
qed

section \<open>The contract of a certificate issuer\<close>

text \<open>
  Both signing methods promise the same: a certificate they return holds the requested key
  and name, with the type and key-id prefix of the method. What follows from that for key
  ids and lifetimes is proved once.
\<close>

locale certificate_issuer =
  fixes K :: "('pk, 'kd, 'sk, 'b, 'c) ssh_key_crate"
    and pre :: string
    and ty :: cert_type
    and sign :: "fs \<Rightarrow> 'sk authority \<Rightarrow> readings \<Rightarrow> string \<Rightarrow> 'pk \<Rightarrow> 'c outcome"
  assumes issues: "builder_laws K bv cv \<Longrightarrow> sign fs auth rd name pk = Ok c
      \<Longrightarrow> \<exists>days ps es. issued K pre ty rd name days ps es pk (cv c)"
begin

lemma issued_key_and_type:
  assumes "builder_laws K bv cv" and "sign fs auth rd name pk = Ok c"
  shows "cf_public_key (cv c) = pk_key_data K pk \<and> cf_type (cv c) = ty"
  using issues [OF assms] by (auto simp: issued_def)

lemma issued_key_id:
  assumes "builder_laws K bv cv" and "sign fs auth rd name pk = Ok c"
  shows "cf_key_id (cv c) = pre @ ''-'' @ name @ ''-'' @ dec (unat (cf_valid_after (cv c)))"
  using issues [OF assms] by (auto simp: issued_def)

lemma key_id_determines:
  assumes "builder_laws K bv cv" and "sign fs auth rd name pk = Ok c" and "sign fs' auth' rd' name' pk' = Ok c'"
    and "cf_key_id (cv c) = cf_key_id (cv c')"
  shows "name = name' \<and> cf_valid_after (cv c) = cf_valid_after (cv c')"
proof -
  have "(pre @ ''-'' @ name) @ CHR ''-'' # dec (unat (cf_valid_after (cv c)))
      = (pre @ ''-'' @ name') @ CHR ''-'' # dec (unat (cf_valid_after (cv c')))"
    using issued_key_id [OF assms(1,2)] issued_key_id [OF assms(1,3)] assms(4) by simp
  from last_sep_unique [OF this] show ?thesis
    by (simp add: word_unat_eq_iff)
qed

lemma lifetime:
  assumes "builder_laws K bv cv" and "sign fs auth rd name pk = Ok c"
    and "clock_range (clock_after rd)" and "clock_range (clock_before rd)"
  shows "\<exists>days :: u16. unat (cf_valid_after (cv c)) = nat (clock_after rd div 1000000000)
    \<and> unat (cf_valid_before (cv c)) = nat (clock_before rd div 1000000000) + unat days * 86400"
proof -
  obtain days ps es where i: "issued K pre ty rd name days ps es pk (cv c)"
    using issues [OF assms(1,2)] by blast
  have "nat (clock_before rd div 1000000000) < 2 ^ 63"
    using assms(4) by (auto simp: clock_range_def)
  then have "unat (word_of_int (clock_before rd div 1000000000) :: u64) < 2 ^ 63"
    using unix_secs_range(2) [OF assms(4)] by simp
  from lifetime_no_wrap [OF this, of days] i unix_secs_range [OF assms(3)] unix_secs_range [OF assms(4)]
  show ?thesis
    by (auto simp: issued_def)
qed

end

lemma sign_certificate_Ok:
  "sign_certificate env fs auth rd user pk = Ok c \<longleftrightarrow>
     (\<exists>d. read_user_defaults (users_toml env) (defaults_toml env) (render_template env) fs user
            (ca_config auth) = Ok d
        \<and> build_certificate (crate env) (private_key auth) rd ''user'' UserCert user
            (ud_validity_in_days d) (ud_principals d) (ud_extensions d) pk = Ok c)"
  by (simp add: sign_certificate_def outcome_intros)

lemma sign_host_certificate_Ok:
  "sign_host_certificate env fs auth rd h pk = Ok c \<longleftrightarrow>
     (\<exists>hc k. read_host_config (hosts_toml env) fs h (ca_config auth) = Ok hc
        \<and> pk_from_openssh (crate env) (hc_public_key hc) = Inr k
        \<and> pk_key_data (crate env) k = pk_key_data (crate env) pk
        \<and> build_certificate (crate env) (private_key auth) rd ''host'' HostCert h
            (hc_validity_in_days hc) (hc_hostnames hc) (hc_extensions hc) pk = Ok c)"
  by (auto simp: sign_host_certificate_def outcome_intros split: if_splits)

interpretation user_issuer:
  certificate_issuer "crate env" "''user''" UserCert "sign_certificate env" for env
  by unfold_locales (auto simp: sign_certificate_Ok dest: build_certificate_issued)

interpretation host_issuer:
  certificate_issuer "crate env" "''host''" HostCert "sign_host_certificate env" for env
  by unfold_locales (auto simp: sign_host_certificate_Ok dest: build_certificate_issued)

text \<open>Everything either method puts into a certificate it returns.\<close>

lemma sign_certificate_issued:
  assumes "builder_laws (crate env) bv cv" and "sign_certificate env fs auth rd user pk = Ok c"
  obtains d where "read_user_defaults (users_toml env) (defaults_toml env) (render_template env) fs user
      (ca_config auth) = Ok d"
    and "issued (crate env) ''user'' UserCert rd user (ud_validity_in_days d) (ud_principals d)
      (ud_extensions d) pk (cv c)"
  using assms(2) build_certificate_issued [OF assms(1)] unfolding sign_certificate_Ok by blast

lemma sign_host_certificate_issued:
  assumes "builder_laws (crate env) bv cv" and "sign_host_certificate env fs auth rd host pk = Ok c"
  obtains hc k where "read_host_config (hosts_toml env) fs host (ca_config auth) = Ok hc"
    and "pk_from_openssh (crate env) (hc_public_key hc) = Inr k"
    and "pk_key_data (crate env) k = pk_key_data (crate env) pk"
    and "issued (crate env) ''host'' HostCert rd host (hc_validity_in_days hc) (hc_hostnames hc)
      (hc_extensions hc) pk (cv c)"
  using assms(2) build_certificate_issued [OF assms(1)] unfolding sign_host_certificate_Ok by blast

text \<open>
  Nothing in the authority panics when the clock is after the epoch, the inventory is
  readable, and the keys that would be logged can be printed.
\<close>

definition calm :: "('pk, 'kd, 'sk, 'b, 'c) ca_env \<Rightarrow> fs \<Rightarrow> readings \<Rightarrow> ca_cfg \<Rightarrow> bool" where
  "calm env fs rd cfg \<longleftrightarrow>
     0 \<le> clock_after rd \<and> 0 \<le> clock_before rd \<and> inventory_readable (glob env) fs cfg
     \<and> (error_on env \<longrightarrow> (\<forall>k. \<exists>s. pk_to_openssh (crate env) k = Inr s))"

lemma sign_certificate_calm:
  "calm env fs rd cfg \<Longrightarrow> sign_certificate env fs auth rd user pk \<noteq> Panic m"
  using build_certificate_clock read_user_defaults_panic_free
  by (fastforce simp: calm_def sign_certificate_def outcome_intros)

lemma read_host_config_no_panic: "read_host_config f fs h cfg \<noteq> Panic m"
  by (auto simp: read_host_config_def Let_def outcome_intros read_toml_file_def split: sum.splits)

lemma sign_host_certificate_calm:
  assumes "calm env fs rd cfg"
  shows "sign_host_certificate env fs auth rd host pk \<noteq> Panic m"
proof -
  have "log_keys env ks \<noteq> Panic m'" for ks m'
    using assms by (auto simp: calm_def log_keys_def) (metis Inl_Inr_False)
  moreover have "build_certificate (crate env) sk rd pre ty name days ps es pk \<noteq> Panic m'"
    for sk pre ty name days ps es m'
    using build_certificate_clock assms unfolding calm_def by fastforce
  ultimately show ?thesis
    using read_host_config_no_panic
    by (auto simp: sign_host_certificate_def outcome_intros split: if_splits)
qed

lemma check_public_key_calm:
  "calm env fs rd (ca_config auth) \<Longrightarrow> check_public_key env fs auth key \<noteq> Panic m"
  using find_config_returns [of "glob env" fs "ca_config auth" "crate env" "hosts_toml env" "debug_on env" key]
  by (auto simp: calm_def check_public_key_def outcome_intros split: option.splits)

section \<open>A concrete authority\<close>

text \<open>
  The crates of \<open>Reference_Crates\<close> on the files of the concrete inventory; the template
  renders to the user's name, which becomes the only principal.
\<close>

definition example_defaults :: "string \<Rightarrow> user_defaults" where
  "example_defaults u = \<lparr>ud_validity_in_days = 7, ud_principals = [u, ''''],
     ud_extensions = [''permit-pty'']\<rparr>"

definition example_env ::
  "(ref_key, string \<times> string, bytes, (string \<times> string) cert_fields,
    bytes \<times> (string \<times> string) cert_fields) ca_env"
where
  "example_env = \<lparr>crate = ref_crate, users_toml = (\<lambda>_. Inr \<lparr>users = Map.empty\<rparr>),
     defaults_toml = (\<lambda>t. Inr (example_defaults t)), hosts_toml = example_parser,
     render_template = (\<lambda>name text ctx. Inr name), glob = example_glob [''/inv/web.toml''],
     debug_on = True, error_on = True\<rparr>"

definition example_authority :: "bytes authority" where
  "example_authority = \<lparr>private_key = ''PRIVATE'', ca_config = example_ca\<rparr>"

definition example_readings :: readings where
  "example_readings = \<lparr>clock_after = 1700000000000000000, clock_before = 1700000001000000000,
     nonce = [], serial_no = 42\<rparr>"

definition example_cert :: "bytes \<times> (string \<times> string) cert_fields" where
  "example_cert = (''PRIVATE'', \<lparr>cf_public_key = (''ssh-ed25519'', ''AAAA''), cf_serial = 42,
     cf_key_id = ''user-alice-1700000000'', cf_type = UserCert, cf_principals = [''alice''],
     cf_valid_after = 1700000000, cf_valid_before = 1700000001 + 7 * 86400,
     cf_comment = ''me'', cf_extensions = [''permit-pty'' \<mapsto> []]\<rparr>)"

definition example_host_cert :: "bytes \<times> (string \<times> string) cert_fields" where
  "example_host_cert = (''PRIVATE'', \<lparr>cf_public_key = (''ssh-ed25519'', ''AAAA''), cf_serial = 42,
     cf_key_id = ''host-web-1700000000'', cf_type = HostCert, cf_principals = [''web.example.org''],
     cf_valid_after = 1700000000, cf_valid_before = 1700000001 + 30 * 86400,
     cf_comment = ''me'', cf_extensions = Map.empty\<rparr>)"

lemma example_ca_new:
  "ca_new example_env example_fs example_ca = Ok example_authority"
  by code_simp

lemma example_build:
  "build_certificate ref_crate ''PRIVATE'' example_readings ''user'' UserCert ''alice'' 7
     [''alice'', ''''] [''permit-pty''] (''ssh-ed25519'', ''AAAA'', ''me'') = Ok example_cert"
  by (simp add: build_certificate_def example_readings_def unix_secs_def Let_def ref_crate_def
      dec.simps digit_char_def example_cert_def fun_eq_iff)

lemma example_build_host:
  "build_certificate ref_crate ''PRIVATE'' example_readings ''host'' HostCert ''web'' 30
     [''web.example.org''] [] (''ssh-ed25519'', ''AAAA'', ''me'') = Ok example_host_cert"
  by (simp add: build_certificate_def example_readings_def unix_secs_def Let_def ref_crate_def
      dec.simps digit_char_def example_host_cert_def)

lemma example_sign:
  "sign_certificate example_env example_fs example_authority example_readings ''alice''
     (''ssh-ed25519'', ''AAAA'', ''me'') = Ok example_cert"
proof -
  have "read_to_string example_fs (user_list_file example_ca) = Inr ''users''"
    and "read_to_string example_fs (default_user_template example_ca) = Inr ''template''"
    by code_simp+
  then have "read_user_defaults (users_toml example_env) (defaults_toml example_env)
      (render_template example_env) example_fs ''alice'' (ca_config example_authority)
      = Ok (example_defaults ''alice'')"
    by (simp add: read_user_defaults_Ok user_template_path_def MAX_TEMPLATE_SIZE_def
        example_env_def example_authority_def)
  moreover have "build_certificate (crate example_env) (private_key example_authority)
      example_readings ''user'' UserCert ''alice'' (ud_validity_in_days (example_defaults ''alice''))
      (ud_principals (example_defaults ''alice'')) (ud_extensions (example_defaults ''alice''))
      (''ssh-ed25519'', ''AAAA'', ''me'') = Ok example_cert"
    using example_build by (simp add: example_env_def example_authority_def example_defaults_def)
  ultimately show ?thesis
    unfolding sign_certificate_Ok by blast
qed

lemma example_sign_host:
  "sign_host_certificate example_env example_fs example_authority example_readings ''web''
     (''ssh-ed25519'', ''AAAA'', ''me'') = Ok example_host_cert"
proof -
  have "read_host_config (hosts_toml example_env) example_fs ''web'' (ca_config example_authority)
      = Ok (example_host ''ssh-ed25519 AAAA web'')"
    and "pk_from_openssh (crate example_env) (hc_public_key (example_host ''ssh-ed25519 AAAA web''))
      = Inr (''ssh-ed25519'', ''AAAA'', ''web'')"
    and "pk_key_data (crate example_env) (''ssh-ed25519'', ''AAAA'', ''web'')
      = pk_key_data (crate example_env) (''ssh-ed25519'', ''AAAA'', ''me'')"
    by code_simp+
  moreover have "build_certificate (crate example_env) (private_key example_authority)
      example_readings ''host'' HostCert ''web''
      (hc_validity_in_days (example_host ''ssh-ed25519 AAAA web''))
      (hc_hostnames (example_host ''ssh-ed25519 AAAA web''))
      (hc_extensions (example_host ''ssh-ed25519 AAAA web''))
      (''ssh-ed25519'', ''AAAA'', ''me'') = Ok example_host_cert"
    using example_build_host by (simp add: example_env_def example_authority_def example_host_def)
  ultimately show ?thesis
    unfolding sign_host_certificate_Ok by blast
qed

section \<open>Properties\<close>





text \<open>A key that is not the one of the inventory entry gets no certificate: the request is
  refused with \<open>WrongPublicKey\<close> (whatever the clock, the nonce and the entry's lists are),
  as long as the two keys can be printed for the log.\<close>

theorem wrong_host_key_refused:
  assumes "read_host_config (hosts_toml env) fs host (ca_config auth) = Ok hc"
    and "pk_from_openssh (crate env) (hc_public_key hc) = Inr k"
    and "pk_key_data (crate env) k \<noteq> pk_key_data (crate env) pk"
    and "error_on env \<longrightarrow> (\<exists>s s'. pk_to_openssh (crate env) k = Inr s \<and> pk_to_openssh (crate env) pk = Inr s')"
  shows "sign_host_certificate env fs auth rd host pk = Err (WrongPublicKey host)"
  using assms by (auto simp: sign_host_certificate_def log_keys_def)

lemma wrong_host_key_refused_witness:
  "sign_host_certificate example_env example_fs example_authority example_readings ''web''
     (''ssh-ed25519'', ''EVIL'', []) = Err (WrongPublicKey ''web'')"
proof -
  have hc: "read_host_config (hosts_toml example_env) example_fs ''web'' (ca_config example_authority)
      = Ok (example_host ''ssh-ed25519 AAAA web'')"
    and k: "pk_from_openssh (crate example_env) (hc_public_key (example_host ''ssh-ed25519 AAAA web''))
      = Inr (''ssh-ed25519'', ''AAAA'', ''web'')"
    and ne: "pk_key_data (crate example_env) (''ssh-ed25519'', ''AAAA'', ''web'')
      \<noteq> pk_key_data (crate example_env) (''ssh-ed25519'', ''EVIL'', [])"
    by code_simp+
  have "error_on example_env \<longrightarrow> (\<exists>s s'. pk_to_openssh (crate example_env) (''ssh-ed25519'', ''AAAA'', ''web'') = Inr s
      \<and> pk_to_openssh (crate example_env) (''ssh-ed25519'', ''EVIL'', []) = Inr s')"
    by (simp add: example_env_def ref_crate_def)
  from wrong_host_key_refused [OF hc k ne this] show ?thesis .
qed

text \<open>C20. The validity window never wraps: for any reading of the clock that \<open>SystemTime\<close> can
  give, the window of a user certificate starts at the first reading in whole seconds and
  ends a whole number of days (at most 65535) after the second one.\<close>

theorem sign_certificate_lifetime:
  assumes "builder_laws (crate env) bv cv" and "sign_certificate env fs auth rd user pk = Ok c"
    and "clock_range (clock_after rd)" and "clock_range (clock_before rd)"
  shows "\<exists>days :: u16. unat (cf_valid_after (cv c)) = nat (clock_after rd div 1000000000)
    \<and> unat (cf_valid_before (cv c)) = nat (clock_before rd div 1000000000) + unat days * 86400"
  using assms by (rule user_issuer.lifetime)

lemma sign_certificate_lifetime_witness:
  "\<exists>days :: u16. unat (cf_valid_before (snd example_cert)) = 1700000001 + unat days * 86400"
proof -
  have "builder_laws (crate example_env) id snd"
    using ref_crate_builder_laws by (simp add: example_env_def)
  from sign_certificate_lifetime [OF this example_sign] show ?thesis
    by (auto simp: example_readings_def clock_range_def)
qed

text \<open>C19. The key id of a certificate tells kind, name and time apart: two certificates with
  the same key id were issued by the same method for the same name in the same second, even
  when names contain dashes.\<close>

theorem key_ids_unambiguous:
  assumes "builder_laws (crate env) bv cv"
    and "(case ty of UserCert \<Rightarrow> sign_certificate | HostCert \<Rightarrow> sign_host_certificate)
      env fs auth rd name pk = Ok c"
    and "(case ty' of UserCert \<Rightarrow> sign_certificate | HostCert \<Rightarrow> sign_host_certificate)
      env fs' auth' rd' name' pk' = Ok c'"
    and "cf_key_id (cv c) = cf_key_id (cv c')"
  shows "ty = ty' \<and> name = name' \<and> cf_valid_after (cv c) = cf_valid_after (cv c')"
proof -
  have uu: ?thesis if "ty = UserCert" "ty' = UserCert"
    using assms(2,3) that user_issuer.key_id_determines [OF assms(1) _ _ assms(4)] by simp
  have hh: ?thesis if "ty = HostCert" "ty' = HostCert"
    using assms(2,3) that host_issuer.key_id_determines [OF assms(1) _ _ assms(4)] by simp
  have "hd (cf_key_id (cv c)) = (case ty of UserCert \<Rightarrow> CHR ''u'' | HostCert \<Rightarrow> CHR ''h'')"
    using assms(2) user_issuer.issued_key_id [OF assms(1)] host_issuer.issued_key_id [OF assms(1)]
    by (cases ty) fastforce+
  moreover have "hd (cf_key_id (cv c')) = (case ty' of UserCert \<Rightarrow> CHR ''u'' | HostCert \<Rightarrow> CHR ''h'')"
    using assms(3) user_issuer.issued_key_id [OF assms(1)] host_issuer.issued_key_id [OF assms(1)]
    by (cases ty') fastforce+
  ultimately have "ty = ty'"
    using assms(4) by (cases ty; cases ty') simp_all
  with uu hh show ?thesis
    by (cases ty) simp_all
qed

lemma key_ids_unambiguous_witness:
  "cf_key_id (snd example_cert) \<noteq> cf_key_id (snd example_host_cert)"
proof
  assume eq: "cf_key_id (snd example_cert) = cf_key_id (snd example_host_cert)"
  have "builder_laws (crate example_env) id snd"
    using ref_crate_builder_laws by (simp add: example_env_def)
  from key_ids_unambiguous [OF this, of UserCert _ _ _ _ _ _ HostCert, OF _ _ eq]
    example_sign example_sign_host
  show False by fastforce
qed

text \<open>Signing for a user never panics on a clock after the epoch, whatever the files, the
  crates and the request are.\<close>

theorem sign_certificate_no_panic:
  assumes "0 \<le> clock_after rd" and "0 \<le> clock_before rd"
  shows "sign_certificate env fs auth rd user pk \<noteq> Panic m"
  using assms build_certificate_clock read_user_defaults_panic_free
  by (fastforce simp: sign_certificate_def outcome_intros)

lemma sign_certificate_no_panic_witness:
  "sign_certificate example_env example_fs example_authority example_readings ''alice''
     (''ssh-ed25519'', ''AAAA'', ''me'') \<noteq> Panic ''clock''"
  by (rule sign_certificate_no_panic) (simp_all add: example_readings_def)

text \<open>C17. A host that logs in by the key of an entry directly in the inventory gets its
  certificate: the name \<open>check_public_key\<close> answers leads \<open>sign_host_certificate\<close> to an entry
  with the same key, so that only building the certificate can still fail.\<close>

theorem login_then_sign_host:
  assumes "check_public_key env fs auth key = Ok (Some h)"
    and "pk_from_openssh (crate env) key = Inr k" and "pk_key_data (crate env) pk = pk_key_data (crate env) k"
    and "resolve_path fs (host_inventory (ca_config auth)) = Inr dir" and "node_at fs dir = Some Dir"
    and "has_root (host_inventory (ca_config auth)) \<or> fs_ok fs"
    and "\<forall>l p. glob env (abs_path dir @ ''/**/*.toml'') = Inr l \<and> Some p \<in> set l \<longrightarrow>
      (\<exists>n b. p = abs_path (dir @ [n @ ''.toml'']) \<and> n \<noteq> [] \<and> slash \<notin> set n
        \<and> fs_nodes fs (dir @ [n @ ''.toml'']) = Some (File b))"
  shows "\<exists>hc. read_host_config (hosts_toml env) fs h (ca_config auth) = Ok hc
    \<and> sign_host_certificate env fs auth rd h pk = build_certificate (crate env) (private_key auth) rd ''host'' HostCert h
      (hc_validity_in_days hc) (hc_hostnames hc) (hc_extensions hc) pk"
proof -
  obtain hc where found: "find_config_by_public_key (crate env) (hosts_toml env) (glob env) (debug_on env)
      fs key (ca_config auth) = Ok (Some (h, hc))"
    using assms(1) by (auto simp: check_public_key_def outcome_intros split: option.splits prod.splits)
  have r: "read_host_config (hosts_toml env) fs h (ca_config auth) = Ok hc"
    using direct_entry_signable [OF found assms(4-7)] .
  moreover from found obtain k' where "pk_from_openssh (crate env) (hc_public_key hc) = Inr k'"
      "pk_key_data (crate env) k' = pk_key_data (crate env) k"
    using find_config_Some [OF found] assms(2) unfolding host_entry_Some by (metis sum.inject(2))
  ultimately have "sign_host_certificate env fs auth rd h pk =
      build_certificate (crate env) (private_key auth) rd ''host'' HostCert h
        (hc_validity_in_days hc) (hc_hostnames hc) (hc_extensions hc) pk"
    using assms(3) by (simp add: sign_host_certificate_def)
  with r show ?thesis by blast
qed

lemma login_then_sign_host_witness:
  "\<exists>hc. read_host_config (hosts_toml example_env) example_fs ''web'' (ca_config example_authority) = Ok hc
    \<and> sign_host_certificate example_env example_fs example_authority example_readings ''web''
      (''ssh-ed25519'', ''AAAA'', []) =
    build_certificate (crate example_env) (private_key example_authority) example_readings
      ''host'' HostCert ''web'' (hc_validity_in_days hc) (hc_hostnames hc) (hc_extensions hc)
      (''ssh-ed25519'', ''AAAA'', [])"
proof -
  have c: "check_public_key example_env example_fs example_authority ''ssh-ed25519 AAAA'' = Ok (Some ''web'')"
    and k: "pk_from_openssh (crate example_env) ''ssh-ed25519 AAAA'' = Inr (''ssh-ed25519'', ''AAAA'', [])"
    and dir: "resolve_path example_fs (host_inventory (ca_config example_authority)) = Inr [''inv'']"
      "node_at example_fs [''inv''] = Some Dir"
      "has_root (host_inventory (ca_config example_authority)) \<or> fs_ok example_fs"
    by (code_simp, code_simp, code_simp, code_simp, simp add: example_authority_def example_ca_def has_root_def)
  have "\<forall>l p. glob example_env (abs_path [''inv''] @ ''/**/*.toml'') = Inr l \<and> Some p \<in> set l \<longrightarrow>
      (\<exists>n b. p = abs_path ([''inv''] @ [n @ ''.toml'']) \<and> n \<noteq> [] \<and> slash \<notin> set n
        \<and> fs_nodes example_fs ([''inv''] @ [n @ ''.toml'']) = Some (File b))"
    using example_direct by (simp add: example_env_def)
  from login_then_sign_host [OF c k refl dir this] show ?thesis .
qed

end
