(* ===== verification/Ca_Ipc.thy ===== *)
theory Ca_Ipc
  imports Authority
begin

text \<open>
  The messages between the SSH side and the authority (\<open>CaRequest\<close>, \<open>CaResponse\<close>,
  \<open>AuthenticatedRequest\<close> of \<open>certificat_authority/mod.rs\<close>) and their wire format: a 4-byte
  big-endian length and that many bytes of JSON, at most \<open>MAX_MESSAGE_SIZE\<close> of them.
\<close>

section \<open>Messages\<close>

datatype 'pk ca_request =
    SignCertificate string 'pk
  | CheckPublicKey 'pk
  | SignHostCertificate string 'pk

datatype 'c ca_response =
    SignedCertificate 'c
  | ErrorResponse string
  | KeyFound "string option"

record 'pk auth_request =
  token :: string
  counter :: u64
  request :: "'pk ca_request"

text \<open>
  \<open>serde_json\<close> on these types and \<open>ct_eq\<close> of \<open>subtle\<close>, third-party code. Its documented
  behaviour: what was serialised is valid UTF-8 and deserialises to the same value, and
  \<open>ct_eq\<close> on byte slices decides equality.
\<close>

record ('pk, 'c) ipc_crates =
  request_to_string :: "'pk auth_request \<Rightarrow> string + string"
  request_from_str :: "string \<Rightarrow> string + 'pk auth_request"
  response_to_string :: "'c ca_response \<Rightarrow> string + string"
  response_from_str :: "string \<Rightarrow> string + 'c ca_response"
  ct_eq :: "bytes \<Rightarrow> bytes \<Rightarrow> bool"

definition json_roundtrip :: "('pk, 'c) ipc_crates \<Rightarrow> bool" where
  "json_roundtrip J \<longleftrightarrow>
     (\<forall>q s. request_to_string J q = Inr s \<longrightarrow> valid_utf8 s \<and> request_from_str J s = Inr q)
   \<and> (\<forall>r s. response_to_string J r = Inr s \<longrightarrow> valid_utf8 s \<and> response_from_str J s = Inr r)"

definition ct_eq_exact :: "('pk, 'c) ipc_crates \<Rightarrow> bool" where
  "ct_eq_exact J \<longleftrightarrow> (\<forall>a b. ct_eq J a b \<longleftrightarrow> a = b)"

section \<open>Length prefixes\<close>

definition to_be_bytes :: "u32 \<Rightarrow> bytes" where
  "to_be_bytes n =
     [char_of (unat (drop_bit 24 n)), char_of (unat (drop_bit 16 n)),
      char_of (unat (drop_bit 8 n)), char_of (unat n)]"

definition from_be_bytes :: "bytes \<Rightarrow> u32" where
  "from_be_bytes b = word_of_nat (foldl (\<lambda>v c. 256 * v + of_char c) 0 b)"

lemma length_to_be_bytes [wire_simps]: "length (to_be_bytes n) = 4"
  by (simp add: to_be_bytes_def)

lemma from_to_be_bytes [wire_simps]: "from_be_bytes (to_be_bytes n) = n"
proof -
  define m where "m = unat n"
  have m: "m < 2 ^ 32"
    using unsigned_less [of n] by (simp add: m_def)
  have d1: "256 * (m div 256) + m mod 256 = m"
    by simp
  have d2: "256 * (m div 65536) + m div 256 mod 256 = m div 256"
    using mult_div_mod_eq [of 256 "m div 256"] by (simp add: div_mult2_eq [symmetric])
  have d3: "256 * (m div 16777216) + m div 65536 mod 256 = m div 65536"
    using mult_div_mod_eq [of 256 "m div 65536"] by (simp add: div_mult2_eq [symmetric])
  have d4: "m div 16777216 mod 256 = m div 16777216"
    using m by simp
  have "foldl (\<lambda>v c. 256 * v + of_char c) 0 (to_be_bytes n)
      = 256 * (256 * (256 * (m div 16777216 mod 256) + m div 65536 mod 256)
        + m div 256 mod 256) + m mod 256"
    unfolding to_be_bytes_def unat_drop_bit_eq by (simp add: drop_bit_eq_div m_def)
  also have "\<dots> = unat n"
    by (simp only: d4 d3 d2 d1) (simp add: m_def)
  finally show ?thesis
    by (simp add: from_be_bytes_def)
qed

section \<open>Frames\<close>

text \<open>
  \<open>as u32\<close> truncates the length. Both sides write the prefix of the truncated length and
  then the whole payload.
\<close>

definition payload_len :: "string \<Rightarrow> u32" where
  "payload_len s = word_of_nat (length s)"

definition frame :: "string \<Rightarrow> bytes" where
  "frame s = to_be_bytes (payload_len s) @ s"

text \<open>
  Reading from a socket that holds the bytes \<open>inp\<close> and whose peer has closed it (\<open>eof\<close>) or
  not: \<open>read_exact\<close> of \<open>n\<close> bytes gives them, fails at the end of the stream, or waits for
  as long as the peer keeps the connection open.
\<close>

datatype 'a awaited =
    Got 'a
  | Early_eof
  | Pending
  | Too_long u32

definition read_exact :: "nat \<Rightarrow> bytes \<Rightarrow> bool \<Rightarrow> (bytes \<times> bytes) awaited" where
  "read_exact n inp eof =
     (if n \<le> length inp then Got (take n inp, drop n inp)
      else if eof then Early_eof else Pending)"

definition read_frame :: "bytes \<Rightarrow> bool \<Rightarrow> bytes awaited" where
  "read_frame inp eof =
     (case read_exact 4 inp eof of
        Got (len_buf, rest) \<Rightarrow>
          (let msg_len = from_be_bytes len_buf
           in if msg_len > MAX_MESSAGE_SIZE then Too_long msg_len
              else (case read_exact (unat msg_len) rest eof of
                      Got (buf, _) \<Rightarrow> Got buf
                    | Early_eof \<Rightarrow> Early_eof
                    | Pending \<Rightarrow> Pending
                    | Too_long k \<Rightarrow> Too_long k))
      | Early_eof \<Rightarrow> Early_eof
      | Pending \<Rightarrow> Pending
      | Too_long k \<Rightarrow> Too_long k)"

lemma payload_len_small:
  assumes "length s \<le> 65536"
  shows "unat (payload_len s) = length s" and "payload_len s \<le> MAX_MESSAGE_SIZE"
proof -
  show u: "unat (payload_len s) = length s"
    using assms by (simp add: payload_len_def unat_of_nat)
  show "payload_len s \<le> MAX_MESSAGE_SIZE"
    using assms u by (simp add: word_le_nat_alt MAX_MESSAGE_SIZE_def)
qed

lemma read_exact_append:
  "n = length a \<Longrightarrow> read_exact n (a @ b) eof = Got (a, b)"
  by (simp add: read_exact_def)

lemma read_frame_frame [wire_simps]:
  assumes "length s \<le> 65536"
  shows "read_frame (frame s @ rest) eof = Got s"
proof -
  have "read_exact 4 (frame s @ rest) eof = Got (to_be_bytes (payload_len s), s @ rest)"
    by (simp add: frame_def read_exact_append wire_simps)
  moreover have "read_exact (unat (payload_len s)) (s @ rest) eof = Got (s, rest)"
    using payload_len_small(1) [OF assms] by (simp add: read_exact_append)
  moreover have "\<not> payload_len s > MAX_MESSAGE_SIZE"
    using payload_len_small(2) [OF assms] by simp
  ultimately show ?thesis
    by (simp add: read_frame_def wire_simps)
qed

lemma read_frame_Got:
  assumes "read_frame inp eof = Got s"
  shows "length s \<le> 65536 \<and> length s = unat (from_be_bytes (take 4 inp))
    \<and> (\<exists>rest. inp = take 4 inp @ s @ rest)"
proof -
  let ?n = "from_be_bytes (take 4 inp)" and ?r = "drop 4 inp"
  have n: "?n \<le> MAX_MESSAGE_SIZE" and l: "unat ?n \<le> length ?r" and s: "s = take (unat ?n) ?r"
    using assms
    by (auto simp: read_frame_def read_exact_def Let_def not_less split: if_splits)
  have "length s = unat ?n"
    using l s by simp
  moreover have "unat ?n \<le> 65536"
    using n by (simp add: word_le_nat_alt MAX_MESSAGE_SIZE_def)
  moreover have "inp = take 4 inp @ s @ drop (unat ?n) ?r"
    using s by (metis append_take_drop_id)
  ultimately show ?thesis by metis
qed

section \<open>The contract of a framing\<close>

text \<open>
  What both ends of the socket rely on: a payload within the limit comes back out of its
  frame, whatever follows it, and nothing is delivered before it is complete.
\<close>

locale framing =
  fixes enc :: "string \<Rightarrow> bytes"
    and dec :: "bytes \<Rightarrow> bool \<Rightarrow> bytes awaited"
    and fits :: "string \<Rightarrow> bool"
  assumes dec_enc: "fits s \<Longrightarrow> dec (enc s @ rest) eof = Got s"
    and dec_partial: "fits s \<Longrightarrow> k < length (enc s) \<Longrightarrow>
      dec (take k (enc s)) eof = (if eof then Early_eof else Pending)"
begin

lemma enc_inj: "fits s \<Longrightarrow> fits t \<Longrightarrow> enc s = enc t \<Longrightarrow> s = t"
  using dec_enc [of s "[]" True] dec_enc [of t "[]" True] by simp

lemma no_prefix_confusion:
  assumes "fits s" and "fits t" and "enc s @ u = enc t @ v"
  shows "s = t"
  using dec_enc [OF assms(1), of u True] dec_enc [OF assms(2), of v True] assms(3) by simp

end

lemma read_frame_partial:
  assumes "length s \<le> 65536" and "k < length (frame s)"
  shows "read_frame (take k (frame s)) eof = (if eof then Early_eof else Pending)"
proof (cases "k < 4")
  case True
  then show ?thesis
    by (simp add: read_frame_def read_exact_def)
next
  case False
  then have cut: "take k (frame s) = to_be_bytes (payload_len s) @ take (k - 4) s"
    by (simp add: frame_def wire_simps)
  have k: "k - 4 < length s"
    using assms(2) False by (simp add: frame_def wire_simps)
  then have "read_exact (unat (payload_len s)) (take (k - 4) s) eof
      = (if eof then Early_eof else Pending)"
    using payload_len_small(1) [OF assms(1)] by (simp add: read_exact_def)
  moreover have "\<not> payload_len s > MAX_MESSAGE_SIZE"
    using payload_len_small(2) [OF assms(1)] by simp
  ultimately show ?thesis
    unfolding cut by (simp add: read_frame_def read_exact_append wire_simps)
qed

interpretation wire: framing frame read_frame "\<lambda>s. length s \<le> 65536"
  by unfold_locales (simp_all add: wire_simps read_frame_partial)

section \<open>A concrete instance of the crates\<close>

text \<open>A serialisation given by two finite tables, for the witnesses.\<close>

definition table_json ::
  "('pk auth_request \<times> string) list \<Rightarrow> ('c ca_response \<times> string) list \<Rightarrow> ('pk, 'c) ipc_crates" where
  "table_json qs rs =
     \<lparr>request_to_string = (\<lambda>q. case map_of qs q of None \<Rightarrow> Inl ''unsupported'' | Some s \<Rightarrow> Inr s),
      request_from_str = (\<lambda>s. case map_of (map prod.swap qs) s of
        None \<Rightarrow> Inl ''expected value at line 1 column 1'' | Some q \<Rightarrow> Inr q),
      response_to_string = (\<lambda>r. case map_of rs r of None \<Rightarrow> Inl ''unsupported'' | Some s \<Rightarrow> Inr s),
      response_from_str = (\<lambda>s. case map_of (map prod.swap rs) s of
        None \<Rightarrow> Inl ''expected value at line 1 column 1'' | Some r \<Rightarrow> Inr r),
      ct_eq = (=)\<rparr>"

lemma map_of_swap:
  assumes "distinct (map snd l)" and "map_of l x = Some y"
  shows "map_of (map prod.swap l) y = Some x"
proof -
  have "distinct (map fst (map prod.swap l))"
    using assms(1) by (simp add: comp_def)
  moreover have "(y, x) \<in> set (map prod.swap l)"
    using map_of_SomeD [OF assms(2)] by force
  ultimately show ?thesis
    by (rule map_of_is_SomeI)
qed

lemma table_json_ct_eq: "ct_eq_exact (table_json qs rs)"
  by (simp add: ct_eq_exact_def table_json_def)

lemma table_json_roundtrip:
  assumes "distinct (map snd qs)" and "distinct (map snd rs)"
    and "list_all valid_utf8 (map snd qs)" and "list_all valid_utf8 (map snd rs)"
  shows "json_roundtrip (table_json qs rs)"
proof -
  have v: "valid_utf8 s" if "map_of l x = Some s" and "list_all valid_utf8 (map snd l)"
    for l :: "('x \<times> string) list" and x s
    using map_of_SomeD [OF that(1)] that(2) by (force simp: list_all_iff)
  show ?thesis
    using assms v [of qs] v [of rs]
    by (auto simp: json_roundtrip_def table_json_def map_of_swap split: option.splits)
qed

section \<open>Properties\<close>

text \<open>C29. The wire format is unambiguous: a payload within the limit comes back out of its
  frame unchanged, whatever bytes follow; an incomplete frame is never taken for a complete
  one but waited for, or dropped once the peer has closed; and no stream of bytes can be
  read as two different payloads.\<close>

theorem frames_decode_exactly:
  assumes "length s \<le> 65536"
  shows "read_frame (frame s @ rest) eof = Got s
    \<and> (k < length (frame s) \<longrightarrow> read_frame (take k (frame s)) eof = (if eof then Early_eof else Pending))
    \<and> (length s' \<le> 65536 \<and> frame s @ rest = frame s' @ rest' \<longrightarrow> s = s' \<and> rest = rest')"
proof -
  have "s = s' \<and> rest = rest'" if "length s' \<le> 65536" and "frame s @ rest = frame s' @ rest'"
    using wire.no_prefix_confusion [OF assms that] that(2) by simp
  then show ?thesis
    using wire.dec_enc [OF assms] wire.dec_partial [OF assms] by blast
qed

lemma frames_decode_exactly_witness:
  "read_frame (frame ''{}'' @ ''junk'') False = Got ''{}'' \<and> read_frame (take 5 (frame ''{}'')) False = Pending"
  using frames_decode_exactly [of "''{}''" "''junk''" False 5] by (simp add: frame_def wire_simps)

end
