(* ===== verification/Ca_Server.thy ===== *)
theory Ca_Server
  imports Ca_Ipc
begin

text \<open>
  \<open>certificat_authority/ca_server.rs\<close>: the server of the authority. Its state is the last
  accepted counter; a connection is checked for the peer's user, read, authenticated,
  dispatched and answered, one after the other.
\<close>

section \<open>State\<close>

record 'sk server =
  socket_path :: string
  srv_ca :: "'sk authority"
  auth_token :: string
  last_counter :: u64

definition server_new :: "string \<Rightarrow> 'sk authority \<Rightarrow> string \<Rightarrow> 'sk server" where
  "server_new path auth tok =
     \<lparr>socket_path = path, srv_ca = auth, auth_token = tok, last_counter = 0\<rparr>"

section \<open>Dispatch\<close>

fun handle_request ::
  "('pk, 'kd, 'sk, 'b, 'c) ca_env \<Rightarrow> fs \<Rightarrow> 'sk authority \<Rightarrow> readings \<Rightarrow> 'pk ca_request
    \<Rightarrow> 'c ca_response outcome"
where
  "handle_request env fs auth rd (SignCertificate user public_key) =
     and_then (sign_certificate env fs auth rd user public_key)
       (\<lambda>signed_cert. Ok (SignedCertificate signed_cert))"
| "handle_request env fs auth rd (SignHostCertificate host_name public_key) =
     and_then (sign_host_certificate env fs auth rd host_name public_key)
       (\<lambda>signed_cert. Ok (SignedCertificate signed_cert))"
| "handle_request env fs auth rd (CheckPublicKey public_key) =
     (case pk_to_openssh (crate env) public_key of
        Inl e \<Rightarrow> Ok (KeyFound None)
      | Inr str_key \<Rightarrow>
          and_then (check_public_key env fs auth str_key) (\<lambda>found. Ok (KeyFound found)))"

text \<open>
  From the text of a request to the response: lines 115 to 150. Only a request with the
  token and a fresh counter changes the state, and it does so before it is executed.
\<close>

definition answer ::
  "('pk, 'kd, 'sk, 'b, 'c) ca_env \<Rightarrow> ('pk, 'c) ipc_crates \<Rightarrow> fs \<Rightarrow> readings \<Rightarrow> 'sk server \<Rightarrow> string
    \<Rightarrow> 'sk server \<times> 'c ca_response outcome"
where
  "answer env J fs rd srv request_json =
     (case request_from_str J request_json of
        Inl e \<Rightarrow> (srv, Ok (ErrorResponse (''Invalid request format: '' @ e)))
      | Inr auth_req \<Rightarrow>
          if \<not> ct_eq J (token auth_req) (auth_token srv)
          then (srv, Ok (ErrorResponse ''authentication failed''))
          else if counter auth_req \<le> last_counter srv
          then (srv, Ok (ErrorResponse ''authentication failed''))
          else
            (srv\<lparr>last_counter := counter auth_req\<rparr>,
             (case handle_request env fs (srv_ca srv) rd (request auth_req) of
                Ok resp \<Rightarrow> Ok resp
              | Err e \<Rightarrow> Ok (ErrorResponse (error_display e))
              | Panic m \<Rightarrow> Panic m)))"

section \<open>One connection\<close>

text \<open>
  What the kernel knows of an accepted connection: the user of the peer (if it can be
  told), the bytes the peer sends, whether it then closes its end, and whether our two
  writes succeed.
\<close>

record conn =
  peer_uid :: "u32 option"
  received :: bytes
  peer_closed :: bool
  write_len_ok :: bool
  write_payload_ok :: bool

text \<open>
  What came of a connection: dropped without an answer, waiting forever for the peer,
  answered (the response and the bytes sent), or \<open>run\<close> ended by an error or a panic.
\<close>

datatype 'c served =
    Dropped
  | Stalled
  | Served "'c ca_response" bytes
  | ServeError error
  | ServePanic string

definition respond :: "('pk, 'c) ipc_crates \<Rightarrow> conn \<Rightarrow> 'c ca_response \<Rightarrow> 'c served" where
  "respond J cn response =
     (case response_to_string J response of
        Inl e \<Rightarrow> ServeError (Foreign e)
      | Inr response_json \<Rightarrow>
          Served response
            (if \<not> write_len_ok cn then []
             else if \<not> write_payload_ok cn then to_be_bytes (payload_len response_json)
             else frame response_json))"

definition serve ::
  "('pk, 'kd, 'sk, 'b, 'c) ca_env \<Rightarrow> ('pk, 'c) ipc_crates \<Rightarrow> u32 \<Rightarrow> fs \<Rightarrow> readings \<Rightarrow> 'sk server \<Rightarrow> conn
    \<Rightarrow> 'sk server \<times> 'c served"
where
  "serve env J server_uid fs rd srv cn =
     (case peer_uid cn of
        None \<Rightarrow> (srv, Dropped)
      | Some uid \<Rightarrow>
          if uid \<noteq> server_uid then (srv, Dropped)
          else
            (case read_frame (received cn) (peer_closed cn) of
               Early_eof \<Rightarrow> (srv, Dropped)
             | Too_long _ \<Rightarrow> (srv, Dropped)
             | Pending \<Rightarrow> (srv, Stalled)
             | Got buf \<Rightarrow>
                 (case from_utf8 buf of
                    None \<Rightarrow> (srv, Dropped)
                  | Some request_json \<Rightarrow>
                      (case answer env J fs rd srv request_json of
                         (srv', Ok response) \<Rightarrow> (srv', respond J cn response)
                       | (srv', Err e) \<Rightarrow> (srv', ServeError e)
                       | (srv', Panic m) \<Rightarrow> (srv', ServePanic m)))))"

section \<open>The accept loop\<close>

text \<open>
  What \<open>run\<close> meets: the set-up calls, and then connections or failures of \<open>accept\<close>, each
  connection with the file system and the readings of its time.
\<close>

record socket_setup =
  stale_socket :: bool
  remove_result :: "io_error option"
  bind_result :: "io_error option"
  chmod_result :: "io_error option"

fun io_done :: "io_error option \<Rightarrow> unit outcome" where
  "io_done None = Ok ()"
| "io_done (Some e) = Err (IoError e)"

definition start_listening :: "socket_setup \<Rightarrow> unit outcome" where
  "start_listening st =
     and_then (if stale_socket st then io_done (remove_result st) else Ok ()) (\<lambda>_.
     and_then (io_done (bind_result st)) (\<lambda>_. io_done (chmod_result st)))"

datatype accept_event =
    Accepted fs readings conn
  | AcceptFailed

text \<open>
  The loop over the events: the outcome of each connection in order, until a connection
  stalls or ends \<open>run\<close>; the events after it are never looked at.
\<close>

fun run_loop ::
  "('pk, 'kd, 'sk, 'b, 'c) ca_env \<Rightarrow> ('pk, 'c) ipc_crates \<Rightarrow> u32 \<Rightarrow> 'sk server \<Rightarrow> accept_event list
    \<Rightarrow> 'sk server \<times> 'c served list"
where
  "run_loop env J uid srv [] = (srv, [])"
| "run_loop env J uid srv (AcceptFailed # evs) = run_loop env J uid srv evs"
| "run_loop env J uid srv (Accepted fs rd cn # evs) =
     (case serve env J uid fs rd srv cn of
        (srv', Dropped) \<Rightarrow> (let (srv'', out) = run_loop env J uid srv' evs in (srv'', Dropped # out))
      | (srv', Served r b) \<Rightarrow>
          (let (srv'', out) = run_loop env J uid srv' evs in (srv'', Served r b # out))
      | (srv', final) \<Rightarrow> (srv', [final]))"

definition run ::
  "('pk, 'kd, 'sk, 'b, 'c) ca_env \<Rightarrow> ('pk, 'c) ipc_crates \<Rightarrow> u32 \<Rightarrow> socket_setup \<Rightarrow> 'sk server
    \<Rightarrow> accept_event list \<Rightarrow> ('sk server \<times> 'c served list) outcome"
where
  "run env J uid st srv evs =
     and_then (start_listening st) (\<lambda>_. Ok (run_loop env J uid srv evs))"

section \<open>Which requests are executed\<close>

text \<open>
  The specification of access: a connection gets the request \<open>q\<close> executed when its peer is
  the server's own user and it sends a complete frame that parses to \<open>q\<close> under the token
  with a counter above the last accepted one.
\<close>

definition admitted ::
  "('pk, 'c) ipc_crates \<Rightarrow> u32 \<Rightarrow> 'sk server \<Rightarrow> conn \<Rightarrow> 'pk auth_request option" where
  "admitted J uid srv cn =
     (if peer_uid cn \<noteq> Some uid then None
      else case read_frame (received cn) (peer_closed cn) of
        Got buf \<Rightarrow>
          (case from_utf8 buf of
             Some js \<Rightarrow>
               (case request_from_str J js of
                  Inr q \<Rightarrow> if ct_eq J (token q) (auth_token srv) \<and> last_counter srv < counter q
                           then Some q else None
                | Inl _ \<Rightarrow> None)
           | None \<Rightarrow> None)
      | _ \<Rightarrow> None)"

lemma serve_admitted:
  assumes "admitted J uid srv cn = Some q"
  shows "serve env J uid fs rd srv cn = (srv\<lparr>last_counter := counter q\<rparr>,
    case handle_request env fs (srv_ca srv) rd (request q) of
      Ok resp \<Rightarrow> respond J cn resp
    | Err e \<Rightarrow> respond J cn (ErrorResponse (error_display e))
    | Panic m \<Rightarrow> ServePanic m)"
  using assms
  by (auto simp: admitted_def serve_def answer_def not_le
      split: if_splits awaited.splits option.splits sum.splits outcome.split)

lemma serve_not_admitted:
  assumes "admitted J uid srv cn = None"
  shows "fst (serve env J uid fs rd srv cn) = srv"
    and "snd (serve env J uid fs rd srv cn) \<in> {Dropped, Stalled}
      \<or> (\<exists>m. snd (serve env J uid fs rd srv cn) = respond J cn (ErrorResponse m))"
  using assms
  by (auto simp: admitted_def serve_def answer_def
      split: if_splits awaited.splits option.splits sum.splits)

lemma respond_Served: "respond J cn r = Served r' b \<Longrightarrow> r' = r"
  by (cases "response_to_string J r") (auto simp: respond_def)

lemma handle_request_calm:
  assumes "calm env fs rd (ca_config auth)"
  shows "handle_request env fs auth rd req \<noteq> Panic m"
  using sign_certificate_calm [OF assms] sign_host_certificate_calm [OF assms] check_public_key_calm [OF assms]
  by (cases req) (auto simp: outcome_intros split: sum.splits)

lemma serve_keeps:
  "auth_token (fst (serve env J uid fs rd srv cn)) = auth_token srv"
  "srv_ca (fst (serve env J uid fs rd srv cn)) = srv_ca srv"
  by (cases "admitted J uid srv cn"; simp add: serve_admitted serve_not_admitted)+

lemma serve_stalls:
  assumes "snd (serve env J uid fs rd srv cn) = Stalled"
  shows "read_frame (received cn) (peer_closed cn) = Pending"
  using assms
  by (auto simp: serve_def respond_def split: option.splits if_splits awaited.splits prod.splits
      outcome.splits sum.splits)

lemma serve_answers:
  assumes "calm env fs rd (ca_config (srv_ca srv))"
    and "read_frame (received cn) (peer_closed cn) \<noteq> Pending"
    and "\<forall>r. \<exists>s. response_to_string J r = Inr s"
  shows "snd (serve env J uid fs rd srv cn) = Dropped \<or> (\<exists>r b. snd (serve env J uid fs rd srv cn) = Served r b)"
proof -
  have resp: "\<exists>r b. respond J cn r' = Served r b" for r'
    using assms(3) [rule_format, of r'] by (auto simp: respond_def)
  show ?thesis
  proof (cases "admitted J uid srv cn")
    case None
    then show ?thesis
      using serve_not_admitted(2) [OF None, of env fs rd] serve_stalls [of env J uid fs rd srv cn] assms(2) resp
      by (metis insertE singletonD)
  next
    case (Some q)
    then show ?thesis
      using handle_request_calm [OF assms(1), of "request q"] resp
      by (simp add: serve_admitted split: outcome.split)
  qed
qed

section \<open>The contract of a replay guard\<close>

text \<open>
  A state that remembers the last admitted number, and steps that admit at most one number
  each. Whatever the steps do otherwise, the admitted numbers of a run strictly increase.
\<close>

primrec admitted_along :: "('s \<Rightarrow> 'e \<Rightarrow> u64 option) \<Rightarrow> ('s \<Rightarrow> 'e \<Rightarrow> 's) \<Rightarrow> 's \<Rightarrow> 'e list \<Rightarrow> u64 list" where
  "admitted_along admits step s [] = []"
| "admitted_along admits step s (e # es) =
     (case admits s e of None \<Rightarrow> [] | Some n \<Rightarrow> [n]) @ admitted_along admits step (step s e) es"

locale replay_guard =
  fixes last :: "'s \<Rightarrow> u64"
    and admits :: "'s \<Rightarrow> 'e \<Rightarrow> u64 option"
    and step :: "'s \<Rightarrow> 'e \<Rightarrow> 's"
  assumes fresh: "admits s e = Some n \<Longrightarrow> last s < n \<and> last (step s e) = n"
    and idle: "admits s e = None \<Longrightarrow> last (step s e) = last s"
begin

lemma step_mono: "last s \<le> last (step s e)"
  using fresh [of s e] idle [of s e] by (cases "admits s e") auto

lemma run_mono: "last s \<le> last (foldl step s es)"
proof (induction es arbitrary: s)
  case (Cons e es)
  show ?case
    using step_mono [of s e] Cons.IH [of "step s e"] by simp
qed simp

lemma admitted_above: "n \<in> set (admitted_along admits step s es) \<Longrightarrow> last s < n"
proof (induction es arbitrary: s)
  case (Cons e es)
  show ?case
  proof (cases "n \<in> set (admitted_along admits step (step s e) es)")
    case True
    with Cons.IH step_mono [of s e] show ?thesis by fastforce
  next
    case False
    with Cons.prems have "admits s e = Some n"
      by (cases "admits s e") auto
    then show ?thesis
      by (simp add: fresh)
  qed
qed simp

lemma admitted_increasing: "sorted_wrt (<) (admitted_along admits step s es)"
proof (induction es arbitrary: s)
  case (Cons e es)
  show ?case
  proof (cases "admits s e")
    case None
    with Cons.IH show ?thesis by simp
  next
    case (Some n)
    have "n < m" if "m \<in> set (admitted_along admits step (step s e) es)" for m
      using admitted_above [OF that] fresh [OF Some] by simp
    with Some Cons.IH show ?thesis by simp
  qed
qed simp

lemma admitted_once: "distinct (admitted_along admits step s es)"
  using admitted_increasing [of s es] by (simp add: strict_sorted_iff)

lemma stale_refused:
  assumes "admits s e = Some n" and "admits (foldl step (step s e) es) e' = Some m"
  shows "n < m"
  using fresh [OF assms(1)] fresh [OF assms(2)] run_mono [of "step s e" es] by auto

end

fun server_admits :: "('pk, 'c) ipc_crates \<Rightarrow> u32 \<Rightarrow> 'sk server \<Rightarrow> accept_event \<Rightarrow> u64 option" where
  "server_admits J uid srv (Accepted fs rd cn) = map_option counter (admitted J uid srv cn)"
| "server_admits J uid srv AcceptFailed = None"

fun server_step ::
  "('pk, 'kd, 'sk, 'b, 'c) ca_env \<Rightarrow> ('pk, 'c) ipc_crates \<Rightarrow> u32 \<Rightarrow> 'sk server \<Rightarrow> accept_event \<Rightarrow> 'sk server"
where
  "server_step env J uid srv (Accepted fs rd cn) = fst (serve env J uid fs rd srv cn)"
| "server_step env J uid srv AcceptFailed = srv"

lemma admitted_fresh:
  "admitted J uid srv cn = Some q \<Longrightarrow> last_counter srv < counter q"
  by (auto simp: admitted_def split: if_splits awaited.splits option.splits sum.splits)

interpretation ca_guard: replay_guard last_counter "server_admits J uid" "server_step env J uid"
  for J uid env
proof (unfold_locales, goal_cases)
  case (1 s e n)
  then show ?case
    by (cases e) (auto simp: serve_admitted dest: admitted_fresh)
next
  case (2 s e)
  then show ?case
    by (cases e) (auto simp: serve_not_admitted)
qed

text \<open>The loop processes a prefix of its events with that step.\<close>

lemma run_loop_prefix:
  "\<exists>done rest. evs = done @ rest \<and> fst (run_loop env J uid srv evs) = foldl (server_step env J uid) srv done"
proof (induction env J uid srv evs rule: run_loop.induct)
  case (1 env J uid srv)
  then show ?case by simp
next
  case (2 env J uid srv evs)
  then obtain d r where "evs = d @ r" "fst (run_loop env J uid srv evs) = foldl (server_step env J uid) srv d"
    by blast
  then show ?case
    by (intro exI [of _ "AcceptFailed # d"] exI [of _ r]) simp
next
  case (3 env J uid srv fs rd cn evs)
  obtain srv' o' where s: "serve env J uid fs rd srv cn = (srv', o')" by force
  have stop: ?case if "fst (run_loop env J uid srv (Accepted fs rd cn # evs)) = srv'"
    using that s by (intro exI [of _ "[Accepted fs rd cn]"] exI [of _ evs]) simp
  have go: ?case if "fst (run_loop env J uid srv (Accepted fs rd cn # evs)) = fst (run_loop env J uid srv' evs)"
    and "\<exists>d r. evs = d @ r \<and> fst (run_loop env J uid srv' evs) = foldl (server_step env J uid) srv' d"
  proof -
    from that(2) obtain d r where "evs = d @ r"
        "fst (run_loop env J uid srv' evs) = foldl (server_step env J uid) srv' d"
      by blast
    with that(1) s show ?thesis
      by (intro exI [of _ "Accepted fs rd cn # d"] exI [of _ r]) simp
  qed
  show ?case
    using s "3.IH" stop go by (cases o') (simp_all add: case_prod_beta)
qed

section \<open>A concrete server\<close>

text \<open>
  A server with the concrete authority and the token \<open>secret\<close>, and the messages of the
  witnesses: the same request under two numbers, a host request, and one with a bad token.
\<close>

definition example_user_request :: "ref_key ca_request" where
  "example_user_request = SignCertificate ''alice'' (''ssh-ed25519'', ''AAAA'', ''me'')"

definition example_host_request :: "ref_key ca_request" where
  "example_host_request = SignHostCertificate ''web'' (''ssh-ed25519'', ''AAAA'', ''me'')"

definition example_message :: "string \<Rightarrow> u64 \<Rightarrow> ref_key ca_request \<Rightarrow> ref_key auth_request" where
  "example_message tok n req = \<lparr>token = tok, counter = n, request = req\<rparr>"

definition example_json :: "(ref_key, bytes \<times> (string \<times> string) cert_fields) ipc_crates" where
  "example_json = table_json
     [(example_message ''secret'' 1 example_user_request, ''q1''),
      (example_message ''secret'' 2 example_user_request, ''q2''),
      (example_message ''secret'' 3 example_host_request, ''q3''),
      (example_message ''guess'' 4 example_host_request, ''q4'')]
     [(SignedCertificate example_cert, ''cert''), (SignedCertificate example_host_cert, ''host''),
      (ErrorResponse ''authentication failed'', ''failed'')]"

lemma example_json_roundtrip: "json_roundtrip example_json"
  unfolding example_json_def by (rule table_json_roundtrip) (simp_all, code_simp+)

lemma example_json_ct_eq: "ct_eq_exact example_json"
  by (simp add: example_json_def table_json_ct_eq)

definition example_server :: "bytes server" where
  "example_server = server_new ''/run/ca.sock'' example_authority ''secret''"

definition example_conn :: "string \<Rightarrow> conn" where
  "example_conn s = \<lparr>peer_uid = Some 1000, received = frame s, peer_closed = False,
     write_len_ok = True, write_payload_ok = True\<rparr>"

lemma example_received:
  assumes "length s \<le> 65536" and "valid_utf8 s" and "request_from_str example_json s = Inr q"
  shows "admitted example_json 1000 srv (example_conn s) =
    (if token q = auth_token srv \<and> last_counter srv < counter q then Some q else None)"
  using assms wire.dec_enc [of s "[]" False] example_json_ct_eq
  by (simp add: admitted_def example_conn_def from_utf8_def ct_eq_exact_def)

lemma example_admitted:
  "admitted example_json 1000 example_server (example_conn ''q1'')
     = Some (example_message ''secret'' 1 example_user_request)"
proof -
  have "request_from_str example_json ''q1'' = Inr (example_message ''secret'' 1 example_user_request)"
    by (simp add: example_json_def table_json_def)
  moreover have "valid_utf8 ''q1''"
    by code_simp
  ultimately show ?thesis
    by (simp add: example_received example_message_def example_server_def server_new_def)
qed

lemma example_calm:
  assumes "\<And>k. \<exists>s. pk_to_openssh K k = Inr s"
  shows "calm (example_env\<lparr>crate := K\<rparr>) example_fs example_readings (ca_config example_authority)"
proof -
  have base: "canonicalize example_fs (host_inventory (ca_config example_authority)) = Inr ''/inv''"
    and stem: "file_stem ''/inv/web.toml'' = Some ''web''"
    and v: "valid_utf8 ''/inv''" "valid_utf8 ''/inv/web.toml''" "valid_utf8 ''web''"
    by code_simp+
  have "inventory_readable (glob example_env) example_fs (ca_config example_authority)"
    using base stem v
    by (simp add: inventory_readable_def example_env_def example_glob_def)
  with assms show ?thesis
    by (simp add: calm_def example_readings_def)
qed

section \<open>Properties\<close>



text \<open>C5. A certificate leaves the server only on an admitted request: the peer is the server's
  own user, the frame parses to a request with the server's token and a counter above every
  one accepted before, and the certificate is what the authority signed for exactly that
  request.\<close>

theorem certificates_only_when_admitted:
  assumes "ct_eq_exact J" and "serve env J uid fs rd srv cn = (srv', Served (SignedCertificate c) b)"
  shows "\<exists>q js. peer_uid cn = Some uid \<and> read_frame (received cn) (peer_closed cn) = Got js
    \<and> request_from_str J js = Inr q \<and> token q = auth_token srv \<and> last_counter srv < counter q
    \<and> srv' = srv\<lparr>last_counter := counter q\<rparr>
    \<and> (case request q of
         SignCertificate user pk \<Rightarrow> sign_certificate env fs (srv_ca srv) rd user pk = Ok c
       | SignHostCertificate host pk \<Rightarrow> sign_host_certificate env fs (srv_ca srv) rd host pk = Ok c
       | CheckPublicKey pk \<Rightarrow> False)"
proof (cases "admitted J uid srv cn")
  case None
  have False
    using serve_not_admitted(2) [OF None, of env fs rd] assms(2)
    by (auto dest: respond_Served [OF sym])
  then show ?thesis by blast
next
  case (Some q)
  then obtain js where "peer_uid cn = Some uid" "read_frame (received cn) (peer_closed cn) = Got js"
      "request_from_str J js = Inr q" "token q = auth_token srv" "last_counter srv < counter q"
    using assms(1)
    by (auto simp: admitted_def ct_eq_exact_def from_utf8_def
        split: if_splits awaited.splits option.splits sum.splits)
  moreover have "handle_request env fs (srv_ca srv) rd (request q) = Ok (SignedCertificate c)"
    using assms(2)
    by (auto simp: serve_admitted [OF Some] split: outcome.splits dest!: respond_Served)
  then have "case request q of
         SignCertificate user pk \<Rightarrow> sign_certificate env fs (srv_ca srv) rd user pk = Ok c
       | SignHostCertificate host pk \<Rightarrow> sign_host_certificate env fs (srv_ca srv) rd host pk = Ok c
       | CheckPublicKey pk \<Rightarrow> False"
    by (cases "request q") (auto simp: outcome_intros split: sum.splits)
  moreover have "srv' = srv\<lparr>last_counter := counter q\<rparr>"
    using assms(2) by (simp add: serve_admitted [OF Some])
  ultimately show ?thesis by blast
qed

lemma certificates_only_when_admitted_witness:
  "\<exists>q. token q = ''secret'' \<and> 0 < counter q
    \<and> request_from_str example_json ''q1'' = Inr q"
proof -
  have "handle_request example_env example_fs (srv_ca example_server) example_readings example_user_request
      = Ok (SignedCertificate example_cert)"
    using example_sign by (simp add: example_user_request_def example_server_def server_new_def)
  then have "serve example_env example_json 1000 example_fs example_readings example_server (example_conn ''q1'')
      = (example_server\<lparr>last_counter := 1\<rparr>, Served (SignedCertificate example_cert) (frame ''cert''))"
    using serve_admitted [OF example_admitted, of example_env example_fs example_readings]
    by (simp add: example_message_def)
      (simp add: respond_def example_json_def table_json_def example_conn_def)
  from certificates_only_when_admitted [OF example_json_ct_eq this] show ?thesis
    using wire.dec_enc [of "''q1''" "[]" False]
    by (auto simp: example_server_def server_new_def example_conn_def)
qed

text \<open>C12. Who is not admitted changes nothing: a connection of another user, or whose peer
  cannot be told, gets no answer; a complete request with a wrong token or a number that is
  not above the last accepted one gets \<open>authentication failed\<close>; in every case the server's
  state stays as it was.\<close>

theorem unauthenticated_requests_refused:
  assumes "ct_eq_exact J"
  shows "(peer_uid cn \<noteq> Some uid \<longrightarrow> serve env J uid fs rd srv cn = (srv, Dropped))
    \<and> (peer_uid cn = Some uid \<and> read_frame (received cn) (peer_closed cn) = Got js \<and> valid_utf8 js
        \<and> request_from_str J js = Inr q
        \<and> (token q \<noteq> auth_token srv \<or> counter q \<le> last_counter srv)
      \<longrightarrow> serve env J uid fs rd srv cn = (srv, respond J cn (ErrorResponse ''authentication failed'')))"
  using assms
  by (auto simp: serve_def answer_def ct_eq_exact_def from_utf8_def split: option.splits)

lemma unauthenticated_requests_refused_witness:
  "serve example_env example_json 1000 example_fs example_readings example_server (example_conn ''q4'')
    = (example_server, respond example_json (example_conn ''q4'') (ErrorResponse ''authentication failed''))"
proof -
  have "request_from_str example_json ''q4'' = Inr (example_message ''guess'' 4 example_host_request)"
    by (simp add: example_json_def table_json_def)
  moreover have "valid_utf8 ''q4''"
    by code_simp
  moreover have "read_frame (received (example_conn ''q4'')) False = Got ''q4''"
    using wire.dec_enc [of "''q4''" "[]" False] by (simp add: example_conn_def)
  ultimately show ?thesis
    using unauthenticated_requests_refused [OF example_json_ct_eq, where cn = "example_conn ''q4''"
        and uid = 1000 and js = "''q4''" and srv = example_server
        and q = "example_message ''guess'' 4 example_host_request"]
    by (simp add: example_conn_def example_message_def example_server_def server_new_def)
qed

text \<open>C11. A request that was executed once is refused ever after: when its bytes, or any request
  with a number not above it, come again after any further connections, the server answers
  \<open>authentication failed\<close> and executes nothing.\<close>

theorem replayed_request_refused:
  assumes "ct_eq_exact J" and "admitted J uid srv cn = Some q"
    and "srv' = foldl (server_step env J uid) (fst (serve env J uid fs rd srv cn)) evs"
    and "peer_uid cn' = Some uid" and "read_frame (received cn') (peer_closed cn') = Got js"
    and "valid_utf8 js" and "request_from_str J js = Inr q'" and "counter q' \<le> counter q"
  shows "serve env J uid fs' rd' srv' cn' = (srv', respond J cn' (ErrorResponse ''authentication failed''))"
proof -
  have "last_counter (fst (serve env J uid fs rd srv cn)) = counter q"
    using assms(2) by (simp add: serve_admitted)
  then have "counter q \<le> last_counter srv'"
    using ca_guard.run_mono assms(3) by metis
  with assms(8) have "counter q' \<le> last_counter srv'"
    by simp
  with assms show ?thesis
    by (simp add: serve_def answer_def from_utf8_def)
qed

lemma replayed_request_refused_witness:
  "\<exists>srv'. serve example_env example_json 1000 example_fs example_readings srv' (example_conn ''q1'')
    = (srv', respond example_json (example_conn ''q1'') (ErrorResponse ''authentication failed''))"
proof -
  have js: "request_from_str example_json ''q1'' = Inr (example_message ''secret'' 1 example_user_request)"
    by (simp add: example_json_def table_json_def)
  have v: "valid_utf8 ''q1''"
    by code_simp
  have u: "peer_uid (example_conn ''q1'') = Some 1000"
    by (simp add: example_conn_def)
  have r: "read_frame (received (example_conn ''q1'')) (peer_closed (example_conn ''q1'')) = Got ''q1''"
    using wire.dec_enc [of "''q1''" "[]" False] by (simp add: example_conn_def)
  from replayed_request_refused [where evs = "[]" and env = example_env and fs = example_fs
      and rd = example_readings, OF example_json_ct_eq example_admitted refl u r v js]
  show ?thesis by blast
qed



text \<open>One silent peer stops the authority: a connection of the server's own user that sends
  less than a frame and keeps the socket open is waited for without a time limit, and no
  later connection is looked at.\<close>

theorem silent_peer_blocks_loop:
  assumes "peer_uid cn = Some uid" and "length (received cn) < 4" and "\<not> peer_closed cn"
  shows "run_loop env J uid srv (Accepted fs rd cn # evs) = (srv, [Stalled])"
  using assms by (simp add: serve_def read_frame_def read_exact_def)

lemma silent_peer_blocks_loop_witness:
  "run_loop example_env example_json 1000 example_server
     [Accepted example_fs example_readings ((example_conn ''q1'')\<lparr>received := []\<rparr>),
      Accepted example_fs example_readings (example_conn ''q1'')] = (example_server, [Stalled])"
  by (rule silent_peer_blocks_loop) (simp_all add: example_conn_def)

text \<open>C24. No request crashes the CA process: when the clock is after the epoch, the inventory's
  path, file names and stems are UTF-8 and the path is no malformed glob pattern, and keys
  that are logged can be printed, then \<open>handle_request\<close> returns an answer or an error for
  every request, whatever the files hold and whatever the other crates do.\<close>

theorem handle_request_no_panic:
  assumes "calm env fs rd (ca_config auth)"
  shows "handle_request env fs auth rd req \<noteq> Panic m"
  using assms by (rule handle_request_calm)

lemma handle_request_no_panic_witness:
  "handle_request (example_env\<lparr>crate := ref_crate\<lparr>pk_to_openssh := (\<lambda>k. Inr ''key'')\<rparr>\<rparr>) example_fs
     example_authority example_readings example_host_request \<noteq> Panic ''clock''"
  by (rule handle_request_no_panic) (simp add: example_calm)

end
