(* ===== verification/Ca_Client.thy ===== *)
theory Ca_Client
  imports Ca_Server
begin

text \<open>
  \<open>certificat_authority/ca_client.rs\<close>: the client half. All clones of a client share one
  atomic counter, the only state; a request is numbered, wrapped, sent and its answer read.
\<close>

section \<open>State\<close>

record client =
  c_socket_path :: string
  c_auth_token :: string
  c_counter :: u64

definition client_new :: "string \<Rightarrow> string \<Rightarrow> client" where
  "client_new path tok = \<lparr>c_socket_path = path, c_auth_token = tok, c_counter = 0\<rparr>"

section \<open>Sending a request\<close>

text \<open>\<open>fetch_add\<close> wraps around and gives the old value, to which \<open>checked_add\<close> adds one.\<close>

definition next_counter :: "client \<Rightarrow> client \<times> u64 outcome" where
  "next_counter c =
     (let prev = c_counter c
      in (c\<lparr>c_counter := prev + 1\<rparr>,
          case checked_add prev 1 of
            None \<Rightarrow> Err (Message ''IPC counter exhausted: restart the CA process to restore service'')
          | Some n \<Rightarrow> Ok n))"

definition size_message :: "string \<Rightarrow> u32 \<Rightarrow> string" where
  "size_message what n =
     what @ '' size '' @ dec (unat n) @ '' exceeds maximum allowed '' @ dec (unat MAX_MESSAGE_SIZE)"

text \<open>The bytes that go out for a numbered request: lines 62 to 80.\<close>

definition encode_request ::
  "('pk, 'c) ipc_crates \<Rightarrow> string \<Rightarrow> u64 \<Rightarrow> 'pk ca_request \<Rightarrow> bytes outcome" where
  "encode_request J tok n req =
     and_then (foreign (request_to_string J \<lparr>token = tok, counter = n, request = req\<rparr>)) (\<lambda>request_json.
       if payload_len request_json > MAX_MESSAGE_SIZE
       then Err (Message (size_message ''Request'' (payload_len request_json)))
       else Ok (frame request_json))"

text \<open>
  The answer, from what the socket delivers: lines 83 to 100. \<open>None\<close> is a client that waits
  forever.
\<close>

definition read_response ::
  "('pk, 'c) ipc_crates \<Rightarrow> bytes \<Rightarrow> bool \<Rightarrow> 'c ca_response outcome option" where
  "read_response J inp closed =
     (case read_frame inp closed of
        Pending \<Rightarrow> None
      | Early_eof \<Rightarrow> Some (Err (IoError UnexpectedEof))
      | Too_long n \<Rightarrow> Some (Err (Message (size_message ''Response'' n)))
      | Got buf \<Rightarrow>
          Some (case from_utf8 buf of
                  None \<Rightarrow> Err (Foreign ''invalid utf-8 sequence'')
                | Some response_json \<Rightarrow> foreign (response_from_str J response_json)))"

text \<open>
  The whole method. \<open>connected\<close> and \<open>written\<close> are the results of connecting and of the
  writes; \<open>peer\<close> maps what was sent to what comes back and whether the peer closes.
\<close>

definition send_request ::
  "('pk, 'c) ipc_crates \<Rightarrow> io_error option \<Rightarrow> io_error option \<Rightarrow> (bytes \<Rightarrow> bytes \<times> bool) \<Rightarrow> client
    \<Rightarrow> 'pk ca_request \<Rightarrow> client \<times> 'c ca_response outcome option"
where
  "send_request J connected written peer c req =
     (case connected of
        Some e \<Rightarrow> (c, Some (Err (IoError e)))
      | None \<Rightarrow>
          (case next_counter c of
             (c', Ok n) \<Rightarrow>
               (case encode_request J (c_auth_token c') n req of
                  Ok out \<Rightarrow>
                    (case written of
                       Some e \<Rightarrow> (c', Some (Err (IoError e)))
                     | None \<Rightarrow> (c', case peer out of (inp, closed) \<Rightarrow> read_response J inp closed))
                | Err e \<Rightarrow> (c', Some (Err e))
                | Panic m \<Rightarrow> (c', Some (Panic m)))
           | (c', Err e) \<Rightarrow> (c', Some (Err e))
           | (c', Panic m) \<Rightarrow> (c', Some (Panic m))))"

section \<open>The counter\<close>

lemma next_counter_Ok:
  "snd (next_counter c) = Ok n \<longleftrightarrow> c_counter c \<noteq> - 1 \<and> n = c_counter c + 1"
  using checked_add_one_None_iff [of "c_counter c"]
  by (auto simp: next_counter_def Let_def checked_add_def split: option.splits if_splits)

lemma next_counter_state [simp]: "c_counter (fst (next_counter c)) = c_counter c + 1"
  by (simp add: next_counter_def Let_def)

lemma next_counter_token [simp]: "c_auth_token (fst (next_counter c)) = c_auth_token c"
  by (simp add: next_counter_def Let_def)

lemma next_counter_no_panic [simp]: "snd (next_counter c) \<noteq> Panic m"
  by (auto simp: next_counter_def Let_def split: option.splits)

lemma encode_request_Ok:
  "encode_request J tok n req = Ok out \<longleftrightarrow>
     (\<exists>js. request_to_string J \<lparr>token = tok, counter = n, request = req\<rparr> = Inr js
        \<and> payload_len js \<le> MAX_MESSAGE_SIZE \<and> out = frame js)"
  by (auto simp: encode_request_def outcome_intros not_less split: if_splits)

section \<open>Client and server together\<close>

text \<open>
  One request over an undisturbed connection: the server accepts it from the client's user,
  reads what the client sent and closes the socket after its answer. The peer function
  gives what the client reads; the server's new state stands beside the result.
\<close>

definition client_conn :: "u32 \<Rightarrow> bytes \<Rightarrow> conn" where
  "client_conn uid out = \<lparr>peer_uid = Some uid, received = out, peer_closed = False,
     write_len_ok = True, write_payload_ok = True\<rparr>"

definition server_peer ::
  "('pk, 'kd, 'sk, 'b, 'c) ca_env \<Rightarrow> ('pk, 'c) ipc_crates \<Rightarrow> u32 \<Rightarrow> fs \<Rightarrow> readings \<Rightarrow> 'sk server
    \<Rightarrow> bytes \<Rightarrow> bytes \<times> bool"
where
  "server_peer env J uid fs rd srv out =
     (case snd (serve env J uid fs rd srv (client_conn uid out)) of
        Served r b \<Rightarrow> (b, True)
      | Stalled \<Rightarrow> ([], False)
      | _ \<Rightarrow> ([], True))"

definition rpc ::
  "('pk, 'kd, 'sk, 'b, 'c) ca_env \<Rightarrow> ('pk, 'c) ipc_crates \<Rightarrow> u32 \<Rightarrow> fs \<Rightarrow> readings \<Rightarrow> client \<times> 'sk server
    \<Rightarrow> 'pk ca_request \<Rightarrow> (client \<times> 'sk server) \<times> 'c ca_response outcome option"
where
  "rpc env J uid fs rd cs req =
     (let c = fst cs; srv = snd cs;
          (c', res) = send_request J None None (server_peer env J uid fs rd srv) c req;
          srv' = (case snd (next_counter c) of
                    Ok n \<Rightarrow>
                      (case encode_request J (c_auth_token c) n req of
                         Ok out \<Rightarrow> fst (serve env J uid fs rd srv (client_conn uid out))
                       | _ \<Rightarrow> srv)
                  | _ \<Rightarrow> srv)
      in ((c', srv'), res))"

text \<open>What the authority answers when it is called directly; \<open>None\<close> is a panic.\<close>

definition local_answer :: "'c ca_response outcome \<Rightarrow> 'c ca_response option" where
  "local_answer r =
     (case r of
        Ok resp \<Rightarrow> Some resp
      | Err e \<Rightarrow> Some (ErrorResponse (error_display e))
      | Panic m \<Rightarrow> None)"

text \<open>Token shared, and no number accepted that the client has not given out.\<close>

definition in_sync :: "client \<times> 'sk server \<Rightarrow> bool" where
  "in_sync cs \<longleftrightarrow> c_auth_token (fst cs) = auth_token (snd cs)
     \<and> last_counter (snd cs) \<le> c_counter (fst cs)"

lemma send_request_client:
  "fst (send_request J None w peer c req) = fst (next_counter c)"
  by (auto simp: send_request_def split: prod.split outcome.split option.split)

lemma rpc_client: "fst (fst (rpc env J uid fs rd cs req)) = fst (next_counter (fst cs))"
  by (simp add: rpc_def Let_def case_prod_beta send_request_client)

lemma read_frame_short_length:
  assumes "read_frame (frame s) eof = Got b" and "payload_len s \<le> MAX_MESSAGE_SIZE"
  shows "b = take (unat (payload_len s)) s"
  using assms
  by (auto simp: read_frame_def frame_def read_exact_append wire_simps read_exact_def Let_def
      not_less split: if_splits)

lemma rpc_server_cases:
  "snd (fst (rpc env J uid fs rd cs req)) = snd cs
   \<or> (\<exists>n out. snd (next_counter (fst cs)) = Ok n
        \<and> encode_request J (c_auth_token (fst cs)) n req = Ok out
        \<and> snd (fst (rpc env J uid fs rd cs req)) = fst (serve env J uid fs rd (snd cs) (client_conn uid out)))"
  by (auto simp: rpc_def Let_def case_prod_beta split: outcome.split)

lemma admitted_client_conn:
  assumes "json_roundtrip J" and "encode_request J tok n req = Ok out"
    and "request_to_string J \<lparr>token = tok, counter = n, request = req\<rparr> = Inr js"
    and "length js \<le> 65536"
  shows "admitted J uid srv (client_conn uid out) =
    (if ct_eq J tok (auth_token srv) \<and> last_counter srv < n
     then Some \<lparr>token = tok, counter = n, request = req\<rparr> else None)"
proof -
  have out: "out = frame js"
    using assms(2,3) by (auto simp: encode_request_Ok)
  have "valid_utf8 js" and parse: "request_from_str J js = Inr \<lparr>token = tok, counter = n, request = req\<rparr>"
    using assms(1,3) by (auto simp: json_roundtrip_def)
  then have "from_utf8 js = Some js"
    by (simp add: from_utf8_def)
  moreover have "read_frame (frame js) False = Got js"
    using wire.dec_enc [OF assms(4), of "[]"] by simp
  ultimately show ?thesis
    using parse by (simp add: admitted_def client_conn_def out)
qed

text \<open>One undisturbed round trip, from number to answer: what is sent, and what the server does.\<close>

lemma served_direct:
  assumes "json_roundtrip J" and "ct_eq_exact J" and "in_sync (c, srv)" and "c_counter c \<noteq> - 1"
    and "request_to_string J \<lparr>token = c_auth_token c, counter = c_counter c + 1, request = req\<rparr> = Inr js"
    and "length js \<le> 65536"
    and "local_answer (handle_request env fs (srv_ca srv) rd req) = Some resp"
    and "response_to_string J resp = Inr rs"
  shows "next_counter c = (c\<lparr>c_counter := c_counter c + 1\<rparr>, Ok (c_counter c + 1))"
    and "encode_request J (c_auth_token c) (c_counter c + 1) req = Ok (frame js)"
    and "serve env J uid fs rd srv (client_conn uid (frame js))
      = (srv\<lparr>last_counter := c_counter c + 1\<rparr>, Served resp (frame rs))"
proof -
  let ?n = "c_counter c + 1"
  let ?q = "\<lparr>token = c_auth_token c, counter = ?n, request = req\<rparr>"
  show "next_counter c = (c\<lparr>c_counter := ?n\<rparr>, Ok ?n)"
    using assms(4) next_counter_Ok [of c ?n] by (simp add: prod_eq_iff) (simp add: next_counter_def Let_def)
  show enc: "encode_request J (c_auth_token c) ?n req = Ok (frame js)"
    using assms(5) payload_len_small(2) [OF assms(6)] by (simp add: encode_request_Ok)
  have "last_counter srv < ?n"
    using assms(3,4) by (simp add: in_sync_def le_imp_less_inc)
  moreover have "ct_eq J (c_auth_token c) (auth_token srv)"
    using assms(2,3) by (simp add: ct_eq_exact_def in_sync_def)
  ultimately have adm: "admitted J uid srv (client_conn uid (frame js)) = Some ?q"
    using admitted_client_conn [OF assms(1) enc assms(5,6), of uid srv] by simp
  have "respond J (client_conn uid (frame js)) resp = Served resp (frame rs)"
    using assms(8) by (simp add: respond_def client_conn_def)
  then show "serve env J uid fs rd srv (client_conn uid (frame js))
      = (srv\<lparr>last_counter := ?n\<rparr>, Served resp (frame rs))"
    using assms(7) by (simp add: serve_admitted [OF adm] local_answer_def split: outcome.splits)
qed

lemma rpc_direct:
  assumes "json_roundtrip J" and "ct_eq_exact J" and "in_sync (c, srv)" and "c_counter c \<noteq> - 1"
    and "request_to_string J \<lparr>token = c_auth_token c, counter = c_counter c + 1, request = req\<rparr> = Inr js"
    and "length js \<le> 65536"
    and "local_answer (handle_request env fs (srv_ca srv) rd req) = Some resp"
    and "response_to_string J resp = Inr rs" and "length rs \<le> 65536"
  shows "rpc env J uid fs rd (c, srv) req =
    ((c\<lparr>c_counter := c_counter c + 1\<rparr>, srv\<lparr>last_counter := c_counter c + 1\<rparr>), Some (Ok resp))"
proof -
  have "valid_utf8 rs" and "response_from_str J rs = Inr resp"
    using assms(1,8) by (auto simp: json_roundtrip_def)
  moreover have "read_frame (frame rs) True = Got rs"
    using wire.dec_enc [OF assms(9), of "[]"] by simp
  ultimately have "read_response J (frame rs) True = Some (Ok resp)"
    by (simp add: read_response_def from_utf8_def)
  with served_direct [OF assms(1-8)] show ?thesis
    by (simp add: rpc_def Let_def send_request_def server_peer_def)
qed

section \<open>Properties\<close>

text \<open>C6. The socket is transparent: while client and server share the token and the server
  has accepted no number the client has not given out, a request that fits into a message
  gets exactly the answer that the authority gives when it is called directly (errors as
  their text), and both counters move to the number of the request.\<close>

theorem rpc_transparent:
  assumes "json_roundtrip J" and "ct_eq_exact J" and "in_sync (c, srv)" and "c_counter c \<noteq> - 1"
    and "request_to_string J \<lparr>token = c_auth_token c, counter = c_counter c + 1, request = req\<rparr> = Inr js"
    and "length js \<le> 65536"
    and "local_answer (handle_request env fs (srv_ca srv) rd req) = Some resp"
    and "response_to_string J resp = Inr rs" and "length rs \<le> 65536"
  shows "rpc env J uid fs rd (c, srv) req =
    ((c\<lparr>c_counter := c_counter c + 1\<rparr>, srv\<lparr>last_counter := c_counter c + 1\<rparr>), Some (Ok resp))"
  using assms by (rule rpc_direct)

lemma rpc_transparent_witness:
  "rpc example_env example_json 1000 example_fs example_readings
      (client_new ''/run/ca.sock'' ''secret'', example_server) example_user_request
    = ((client_new ''/run/ca.sock'' ''secret''\<lparr>c_counter := 1\<rparr>, example_server\<lparr>last_counter := 1\<rparr>),
       Some (Ok (SignedCertificate example_cert)))"
proof -
  let ?c = "client_new ''/run/ca.sock'' ''secret''"
  have sync: "in_sync (?c, example_server)" and ne: "c_counter ?c \<noteq> - 1"
    by (simp_all add: in_sync_def client_new_def example_server_def server_new_def)
  have q: "request_to_string example_json
      \<lparr>token = c_auth_token ?c, counter = c_counter ?c + 1, request = example_user_request\<rparr> = Inr ''q1''"
    by (simp add: example_json_def table_json_def example_message_def client_new_def)
  have local: "local_answer (handle_request example_env example_fs (srv_ca example_server)
      example_readings example_user_request) = Some (SignedCertificate example_cert)"
    using example_sign
    by (simp add: local_answer_def example_user_request_def example_server_def server_new_def)
  have r: "response_to_string example_json (SignedCertificate example_cert) = Inr ''cert''"
    by (simp add: example_json_def table_json_def)
  from rpc_transparent [OF example_json_roundtrip example_json_ct_eq sync ne q _ local r, of 1000]
  show ?thesis by (simp add: client_new_def)
qed

text \<open>No message is as long as the length prefix can count.\<close>

definition addressable :: "('pk, 'c) ipc_crates \<Rightarrow> bool" where
  "addressable J \<longleftrightarrow> (\<forall>q s. request_to_string J q = Inr s \<longrightarrow> length s < 2 ^ 32)"

lemma payload_len_exact:
  assumes "length s < 2 ^ 32"
  shows "unat (payload_len s) = length s"
  using assms by (simp add: payload_len_def unat_of_nat)

lemma encoded_length:
  assumes "addressable J" and "encode_request J tok n req = Ok out"
  obtains js where "request_to_string J \<lparr>token = tok, counter = n, request = req\<rparr> = Inr js"
    and "out = frame js" and "length js \<le> 65536"
proof -
  obtain js where js: "request_to_string J \<lparr>token = tok, counter = n, request = req\<rparr> = Inr js"
      "payload_len js \<le> MAX_MESSAGE_SIZE" "out = frame js"
    using assms(2) unfolding encode_request_Ok by blast
  have "unat (payload_len js) = length js"
    using assms(1) js(1) by (intro payload_len_exact) (auto simp: addressable_def)
  then have "length js \<le> 65536"
    using js(2) by (simp add: word_le_nat_alt MAX_MESSAGE_SIZE_def)
  with js show thesis by (auto intro: that)
qed

lemma serve_encoded:
  assumes "json_roundtrip J" and "addressable J" and "encode_request J tok n req = Ok out"
  shows "admitted J uid srv (client_conn uid out) =
    (if ct_eq J tok (auth_token srv) \<and> last_counter srv < n
     then Some \<lparr>token = tok, counter = n, request = req\<rparr> else None)"
  using encoded_length [OF assms(2,3)] admitted_client_conn [OF assms(1,3)] by metis

lemma serve_encoded_last:
  assumes "json_roundtrip J" and "addressable J" and "encode_request J tok n req = Ok out"
  shows "last_counter (fst (serve env J uid fs rd srv (client_conn uid out))) \<in> {last_counter srv, n}"
proof (cases "admitted J uid srv (client_conn uid out)")
  case None
  then show ?thesis by (simp add: serve_not_admitted)
next
  case (Some q)
  then show ?thesis
    using serve_encoded [OF assms, of uid srv] by (auto simp: serve_admitted split: if_splits)
qed

lemma rpc_last_counter:
  assumes "json_roundtrip J" and "addressable J"
  shows "last_counter (snd (fst (rpc env J uid fs rd cs req))) = last_counter (snd cs)
    \<or> c_counter (fst cs) \<noteq> - 1
      \<and> last_counter (snd (fst (rpc env J uid fs rd cs req))) = c_counter (fst cs) + 1"
  using rpc_server_cases [of env J uid fs rd cs req]
proof
  assume "\<exists>n out. snd (next_counter (fst cs)) = Ok n
        \<and> encode_request J (c_auth_token (fst cs)) n req = Ok out
        \<and> snd (fst (rpc env J uid fs rd cs req)) = fst (serve env J uid fs rd (snd cs) (client_conn uid out))"
  then obtain n out where n: "snd (next_counter (fst cs)) = Ok n"
    and enc: "encode_request J (c_auth_token (fst cs)) n req = Ok out"
    and srv: "snd (fst (rpc env J uid fs rd cs req)) = fst (serve env J uid fs rd (snd cs) (client_conn uid out))"
    by blast
  from serve_encoded_last [OF assms enc, of env uid fs rd "snd cs"] srv n show ?thesis
    by (auto simp: next_counter_Ok)
qed simp

lemma in_sync_step:
  assumes "json_roundtrip J" and "addressable J" and "in_sync cs" and "c_counter (fst cs) \<noteq> - 1"
  shows "in_sync (fst (rpc env J uid fs rd cs req))"
proof -
  have "auth_token (snd (fst (rpc env J uid fs rd cs req))) = auth_token (snd cs)"
    using rpc_server_cases [of env J uid fs rd cs req] by (auto simp: serve_keeps)
  moreover have "last_counter (snd (fst (rpc env J uid fs rd cs req))) \<le> c_counter (fst cs) + 1"
    using rpc_last_counter [OF assms(1,2), of env uid fs rd cs req]
      le_imp_less_inc [of "last_counter (snd cs)" "c_counter (fst cs)"] assms(3,4)
    by (auto simp: in_sync_def)
  ultimately show ?thesis
    using assms(3) by (simp add: in_sync_def rpc_client)
qed

text \<open>A sequence of requests, one after the other, each at its own time.\<close>

primrec rpc_all ::
  "('pk, 'kd, 'sk, 'b, 'c) ca_env \<Rightarrow> ('pk, 'c) ipc_crates \<Rightarrow> u32 \<Rightarrow> client \<times> 'sk server
    \<Rightarrow> (fs \<times> readings \<times> 'pk ca_request) list \<Rightarrow> client \<times> 'sk server"
where
  "rpc_all env J uid cs [] = cs"
| "rpc_all env J uid cs (x # xs) =
     rpc_all env J uid (fst (rpc env J uid (fst x) (fst (snd x)) cs (snd (snd x)))) xs"

text \<open>Client and server stay in step: however many requests are sent one after the other
  (fewer than \<open>2 ^ 64\<close> over the life of the client), and whatever becomes of each of them,
  the server never gets ahead of the client, so that the next request is not refused as a
  replay.\<close>

theorem sequential_requests_in_sync:
  assumes "json_roundtrip J" and "addressable J" and "in_sync cs"
    and "unat (c_counter (fst cs)) + length xs < 2 ^ 64"
  shows "in_sync (rpc_all env J uid cs xs)
    \<and> unat (c_counter (fst (rpc_all env J uid cs xs))) = unat (c_counter (fst cs)) + length xs"
  using assms(3,4)
proof (induction xs arbitrary: cs)
  case Nil
  then show ?case by simp
next
  case (Cons x xs)
  have ne: "c_counter (fst cs) \<noteq> - 1"
    using Cons.prems(2) by (auto simp: unsigned_minus_1_eq_mask mask_eq_exp_minus_1)
  let ?cs = "fst (rpc env J uid (fst x) (fst (snd x)) cs (snd (snd x)))"
  have c: "unat (c_counter (fst ?cs)) = unat (c_counter (fst cs)) + 1"
    using unat_inc [OF ne] by (simp add: rpc_client)
  have "in_sync ?cs"
    using in_sync_step [OF assms(1,2) Cons.prems(1) ne] .
  moreover have "unat (c_counter (fst ?cs)) + length xs < 2 ^ 64"
    using Cons.prems(2) c by simp
  ultimately show ?case
    using Cons.IH [of ?cs] c by simp
qed

lemma sequential_requests_in_sync_witness:
  "in_sync (rpc_all example_env example_json 1000
     (client_new ''/run/ca.sock'' ''secret'', example_server)
     [(example_fs, example_readings, example_user_request),
      (example_fs, example_readings, example_host_request)])"
proof -
  let ?cs = "(client_new ''/run/ca.sock'' ''secret'', example_server)"
  let ?xs = "[(example_fs, example_readings, example_user_request),
      (example_fs, example_readings, example_host_request)]"
  have a: "addressable example_json"
    by (auto simp: addressable_def example_json_def table_json_def split: if_splits)
  have s: "in_sync ?cs"
    by (simp add: in_sync_def client_new_def example_server_def server_new_def)
  have l: "unat (c_counter (fst ?cs)) + length ?xs < 2 ^ 64"
    by (simp add: client_new_def)
  show ?thesis
    using sequential_requests_in_sync [OF example_json_roundtrip a s l] by (rule conjunct1)
qed

text \<open>The counter is exhausted once and then starts again: at \<open>2 ^ 64 - 1\<close> exactly one
  request fails with the exhaustion error, the counter wraps to zero, and the request after
  it goes out under the number 1, which a server that has accepted any number refuses.\<close>

theorem counter_wraps_after_exhaustion:
  assumes "c_counter c = - 1"
  shows "snd (next_counter c)
      = Err (Message ''IPC counter exhausted: restart the CA process to restore service'')
    \<and> c_counter (fst (next_counter c)) = 0
    \<and> snd (next_counter (fst (next_counter c))) = Ok 1"
  using assms checked_add_one_None_iff [of "c_counter c"]
  by (simp add: next_counter_Ok) (simp add: next_counter_def Let_def)

lemma counter_wraps_after_exhaustion_witness:
  "c_counter (fst (next_counter ((client_new ''/run/ca.sock'' ''secret'')\<lparr>c_counter := - 1\<rparr>))) = 0"
  using counter_wraps_after_exhaustion [of "(client_new ''/run/ca.sock'' ''secret'')\<lparr>c_counter := - 1\<rparr>"]
  by simp

text \<open>C30. What the size check refuses: exactly the requests whose length modulo \<open>2 ^ 32\<close> is
  above the limit. Below \<open>2 ^ 32\<close> bytes that is the documented limit; at or above it the
  truncation to 32 bits can let an oversized request pass.\<close>

theorem request_size_check:
  assumes "request_to_string J \<lparr>token = tok, counter = n, request = req\<rparr> = Inr js"
  shows "(\<exists>m. encode_request J tok n req = Err m) \<longleftrightarrow> 65536 < length js mod 2 ^ 32"
proof -
  have "unat (payload_len js) = length js mod 2 ^ 32"
    by (simp add: payload_len_def unat_of_nat)
  moreover have "payload_len js > MAX_MESSAGE_SIZE \<longleftrightarrow> 65536 < unat (payload_len js)"
    by (simp add: word_less_nat_alt MAX_MESSAGE_SIZE_def)
  ultimately show ?thesis
    using assms by (auto simp: encode_request_def)
qed

lemma request_size_check_witness:
  "\<not> (\<exists>m. encode_request example_json ''secret'' 1 example_user_request = Err m)"
  by (subst request_size_check [where js = "''q1''"])
    (simp_all add: example_json_def table_json_def example_message_def)

text \<open>An answer above the limit reaches the client as an error: the server sends it whole,
  the client refuses it by its prefix.\<close>

theorem oversized_answer_refused:
  assumes "response_to_string J resp = Inr rs" and "65536 < length rs" and "length rs < 2 ^ 32"
    and "write_len_ok cn" and "write_payload_ok cn"
  shows "respond J cn resp = Served resp (frame rs)
    \<and> read_response J (frame rs) closed
        = Some (Err (Message (''Response size '' @ dec (length rs) @ '' exceeds maximum allowed 65536'')))"
proof -
  have u: "unat (payload_len rs) = length rs"
    using assms(3) by (rule payload_len_exact)
  then have big: "payload_len rs > MAX_MESSAGE_SIZE"
    using assms(2) by (simp add: word_less_nat_alt MAX_MESSAGE_SIZE_def)
  have "read_exact 4 (frame rs) closed = Got (to_be_bytes (payload_len rs), rs)"
    by (simp add: frame_def read_exact_append wire_simps)
  with big have "read_frame (frame rs) closed = Too_long (payload_len rs)"
    by (simp add: read_frame_def wire_simps Let_def)
  moreover have "dec (unat MAX_MESSAGE_SIZE) = ''65536''"
    by (simp add: MAX_MESSAGE_SIZE_def dec.simps digit_char_def)
  ultimately show ?thesis
    using assms u by (simp add: respond_def read_response_def size_message_def)
qed

lemma oversized_answer_refused_witness:
  "read_response (table_json [] [(ErrorResponse [], replicate 70000 CHR ''x'')] :: (ref_key, nat) ipc_crates)
      (frame (replicate 70000 CHR ''x'')) True
    = Some (Err (Message (''Response size '' @ dec 70000 @ '' exceeds maximum allowed 65536'')))"
proof -
  let ?J = "table_json [] [(ErrorResponse [], replicate 70000 CHR ''x'')] :: (ref_key, nat) ipc_crates"
  have "response_to_string ?J (ErrorResponse []) = Inr (replicate 70000 CHR ''x'')"
    by (simp add: table_json_def)
  from oversized_answer_refused [OF this, of "client_conn 0 []" True] show ?thesis
    by (simp add: client_conn_def)
qed

end
