(* ===== verification/Ssh_Handler.thy ===== *)
theory Ssh_Handler
  imports Identity Ca_Client
begin

text \<open>
  \<open>ssh_server/mod.rs\<close>, \<open>host_key_signer.rs\<close>, \<open>user_key_signer.rs\<close> and
  \<open>signing_common.rs\<close>: what one SSH connection does. Every callback of the handler is a
  function of the handler's state; what it does to the session and asks of the authority is
  a list of actions beside its result.
\<close>

section \<open>Input validation\<close>

definition is_ascii_alphanumeric :: "char \<Rightarrow> bool" where
  "is_ascii_alphanumeric c =
     (let n = of_char c :: nat
      in 48 \<le> n \<and> n \<le> 57 \<or> 65 \<le> n \<and> n \<le> 90 \<or> 97 \<le> n \<and> n \<le> 122)"

definition validate_username :: "string \<Rightarrow> bool" where
  "validate_username user \<longleftrightarrow>
     user \<noteq> [] \<and> length user \<le> 64
     \<and> list_all (\<lambda>c. is_ascii_alphanumeric c \<or> c \<in> {CHR ''.'', CHR ''_'', CHR ''@'', CHR ''-''}) user"

definition validate_hostname :: "string \<Rightarrow> string + unit" where
  "validate_hostname host_name =
     (if host_name = [] \<or> contains_str host_name ''/'' \<or> contains_str host_name [CHR 0x5C]
         \<or> contains_str host_name ''..'' \<or> contains_str host_name [CHR 0x00]
      then Inl (''invalid host name: '' @ [CHR 0x27] @ host_name @ [CHR 0x27])
      else Inr ())"

definition parse_exec_command :: "bytes \<Rightarrow> string \<times> string list" where
  "parse_exec_command d =
     (case split_whitespace (from_utf8_lossy d) of
        [] \<Rightarrow> ('''', [])
      | command_name # args \<Rightarrow> (command_name, args))"

section \<open>State, results and actions\<close>

datatype auth_method = PasswordAuth | PublicKeyAuth

record 'rk handler =
  h_id :: nat
  h_username :: "string option"
  h_auth_method :: "auth_method option"
  h_public_key :: "'rk option"

datatype auth = Accept | Reject

datatype session_error = RequestDenied | KeyError string

text \<open>
  What a callback ends in: a value, an error that ends the session, a panic, or a wait for
  the authority that never ends.
\<close>

datatype 'a callback =
    Done 'a
  | Failed session_error
  | Panicked string
  | Waiting

text \<open>
  Requests to the authority and the calls on the russh session; the results of the latter
  are dropped (\<open>let _ =\<close>).
\<close>

datatype 'pk action =
    AskCa "'pk ca_request"
  | Disconnect string
  | ChannelData nat string
  | ExitStatus nat u32
  | ChannelEof nat
  | ChannelClose nat

text \<open>
  The authority as a session sees it: \<open>send_request\<close> on the shared client, \<open>None\<close> when it
  never returns. \<open>rk_print\<close> is \<open>to_openssh\<close> of russh's key type.
\<close>

type_synonym ('pk, 'c) ca_call = "'pk ca_request \<Rightarrow> 'c ca_response outcome option"

definition new_handler :: "nat \<Rightarrow> 'rk handler" where
  "new_handler n = \<lparr>h_id = n, h_username = None, h_auth_method = None, h_public_key = None\<rparr>"

section \<open>Authentication\<close>

text \<open>\<open>test_auth\<close> is the cargo feature of that name.\<close>

definition auth_password ::
  "bool \<Rightarrow> authenticator list \<Rightarrow> string \<Rightarrow> string \<Rightarrow> 'rk handler \<Rightarrow> 'rk handler \<times> auth callback"
where
  "auth_password test_auth authenticators user password h =
     (if \<not> validate_username user then (h, Done Reject)
      else if test_auth then
        (if user = ''test'' \<and> password = ''test''
         then (h\<lparr>h_username := Some user, h_auth_method := Some PasswordAuth\<rparr>, Done Accept)
         else (h, Done Reject))
      else
        (case first_accepting authenticators user (Password password) of
           Ok True \<Rightarrow> (h\<lparr>h_username := Some user, h_auth_method := Some PasswordAuth\<rparr>, Done Accept)
         | Panic m \<Rightarrow> (h, Panicked m)
         | _ \<Rightarrow> (h, Failed RequestDenied)))"

definition auth_publickey ::
  "('rk \<Rightarrow> string + string) \<Rightarrow> ('pk, 'kd, 'sk, 'b, 'c) ssh_key_crate \<Rightarrow> ('pk, 'c) ca_call
    \<Rightarrow> string \<Rightarrow> 'rk \<Rightarrow> 'rk handler \<Rightarrow> 'rk handler \<times> auth callback \<times> 'pk action list"
where
  "auth_publickey rk_print K ask user public_key h =
     (case rk_print public_key of
        Inl e \<Rightarrow> (h, Panicked (''called `Result::unwrap()` on an `Err` value: '' @ e), [])
      | Inr s \<Rightarrow>
          (case pk_from_openssh K s of
             Inl e \<Rightarrow> (h, Panicked (''called `Result::unwrap()` on an `Err` value: '' @ e), [])
           | Inr k \<Rightarrow>
               (let reject = (h, Done Reject, [AskCa (CheckPublicKey k)])
                in case ask (CheckPublicKey k) of
                   None \<Rightarrow> (h, Waiting, [AskCa (CheckPublicKey k)])
                 | Some (Ok (KeyFound (Some name))) \<Rightarrow>
                     (h\<lparr>h_username := Some name, h_auth_method := Some PublicKeyAuth,
                        h_public_key := Some public_key\<rparr>,
                      Done Accept, [AskCa (CheckPublicKey k)])
                 | Some (Ok (KeyFound None)) \<Rightarrow> reject
                 | Some (Ok (ErrorResponse e)) \<Rightarrow> reject
                 | Some (Err e) \<Rightarrow> reject
                 | Some (Ok (SignedCertificate c)) \<Rightarrow>
                     (h, Panicked ''Key check reploed with signed cert, which must not happen'',
                      [AskCa (CheckPublicKey k)])
                 | Some (Panic m) \<Rightarrow> (h, Panicked m, [AskCa (CheckPublicKey k)]))))"

section \<open>Signing\<close>

text \<open>\<open>parse_openssh_key\<close>: the key, or the disconnect that reports why there is none.\<close>

definition parse_openssh_key ::
  "('pk, 'kd, 'sk, 'b, 'c) ssh_key_crate \<Rightarrow> string \<Rightarrow> 'pk option \<times> 'pk action list" where
  "parse_openssh_key K raw =
     (case key_from_openssh K raw of
        Ok key \<Rightarrow> (Some key, [])
      | Err e \<Rightarrow> (None, [Disconnect (''failed to read openssh public key: '' @ error_display e)])
      | Panic m \<Rightarrow> (None, []))"

definition send_sign_request ::
  "('pk, 'c) ca_call \<Rightarrow> 'pk ca_request \<Rightarrow> 'c option callback \<times> 'pk action list" where
  "send_sign_request ask req =
     (case ask req of
        None \<Rightarrow> (Waiting, [AskCa req])
      | Some (Ok (SignedCertificate cert)) \<Rightarrow> (Done (Some cert), [AskCa req])
      | Some (Ok (ErrorResponse e)) \<Rightarrow>
          (Done None, [AskCa req, Disconnect (''CA server error: '' @ e)])
      | Some (Err e) \<Rightarrow>
          (Done None, [AskCa req, Disconnect (''Failed to send request to CA server: '' @ error_display e)])
      | Some (Ok (KeyFound f)) \<Rightarrow>
          (Panicked ''Signing request replied with KeyFound, which must not happen'', [AskCa req])
      | Some (Panic m) \<Rightarrow> (Panicked m, [AskCa req]))"

definition send_cert_and_close ::
  "('pk, 'kd, 'sk, 'b, 'c) ssh_key_crate \<Rightarrow> 'c \<Rightarrow> nat \<Rightarrow> 'pk action list" where
  "send_cert_and_close K cert channel =
     (case cert_to_openssh K cert of
        Inl e \<Rightarrow> [Disconnect (''failed to convert cert to openssh format: '' @ e)]
      | Inr openssh_cert \<Rightarrow>
          [ChannelData channel openssh_cert, ExitStatus channel 0, ChannelEof channel,
           ChannelClose channel])"

text \<open>The tail both signing handlers have: ask, then send what came back.\<close>

definition sign_and_send ::
  "('pk, 'kd, 'sk, 'b, 'c) ssh_key_crate \<Rightarrow> ('pk, 'c) ca_call \<Rightarrow> 'pk ca_request \<Rightarrow> nat
    \<Rightarrow> unit callback \<times> 'pk action list"
where
  "sign_and_send K ask req channel =
     (case send_sign_request ask req of
        (Done (Some cert), acts) \<Rightarrow> (Done (), acts @ send_cert_and_close K cert channel)
      | (Done None, acts) \<Rightarrow> (Done (), acts)
      | (Failed e, acts) \<Rightarrow> (Failed e, acts)
      | (Panicked m, acts) \<Rightarrow> (Panicked m, acts)
      | (Waiting, acts) \<Rightarrow> (Waiting, acts))"

definition handler_sign_user_key ::
  "('pk, 'kd, 'sk, 'b, 'c) ssh_key_crate \<Rightarrow> ('pk, 'c) ca_call \<Rightarrow> nat \<Rightarrow> bytes \<Rightarrow> 'rk handler
    \<Rightarrow> unit callback \<times> 'pk action list"
where
  "handler_sign_user_key K ask channel d h =
     (case h_username h of
        None \<Rightarrow> (Panicked ''user not set'', [])
      | Some username \<Rightarrow>
          if h_auth_method h = Some PublicKeyAuth
          then (Done (), [Disconnect ''Public key authenticated users can only request host certificates.''])
          else
            (case parse_openssh_key K (from_utf8_lossy d) of
               (None, acts) \<Rightarrow> (Done (), acts)
             | (Some public_key, acts) \<Rightarrow>
                 (case sign_and_send K ask (SignCertificate username public_key) channel of
                    (r, acts') \<Rightarrow> (r, acts @ acts'))))"

definition handle_sign_host_key ::
  "('pk, 'kd, 'sk, 'b, 'c) ssh_key_crate \<Rightarrow> ('pk, 'c) ca_call \<Rightarrow> nat \<Rightarrow> string list \<Rightarrow> 'rk handler
    \<Rightarrow> unit callback \<times> 'pk action list"
where
  "handle_sign_host_key K ask channel args h =
     (case args of
        host_name # key_args \<Rightarrow>
          if key_args = []
          then (Done (), [Disconnect ''Usage: sign_host_key <host_name> <public_key>''])
          else
            (case validate_hostname host_name of
               Inl error_message \<Rightarrow> (Done (), [Disconnect error_message])
             | Inr _ \<Rightarrow>
                 (case parse_openssh_key K (join_with '' '' key_args) of
                    (None, acts) \<Rightarrow> (Done (), acts)
                  | (Some public_key, acts) \<Rightarrow>
                      if h_username h = None then (Panicked unwrap_none, acts)
                      else
                        (case sign_and_send K ask (SignHostCertificate host_name public_key) channel of
                           (r, acts') \<Rightarrow> (r, acts @ acts'))))
      | [] \<Rightarrow> (Done (), [Disconnect ''Usage: sign_host_key <host_name> <public_key>'']))"

definition data ::
  "('pk, 'kd, 'sk, 'b, 'c) ssh_key_crate \<Rightarrow> ('pk, 'c) ca_call \<Rightarrow> nat \<Rightarrow> bytes \<Rightarrow> 'rk handler
    \<Rightarrow> unit callback \<times> 'pk action list"
where
  "data K ask channel d h = handler_sign_user_key K ask channel d h"

definition exec_request ::
  "('rk \<Rightarrow> string + string) \<Rightarrow> ('pk, 'kd, 'sk, 'b, 'c) ssh_key_crate \<Rightarrow> ('pk, 'c) ca_call
    \<Rightarrow> nat \<Rightarrow> bytes \<Rightarrow> 'rk handler \<Rightarrow> unit callback \<times> 'pk action list"
where
  "exec_request rk_print K ask channel d h =
     (let (command_name, _) = parse_exec_command d
      in case h_public_key h of
         None \<Rightarrow> (Failed RequestDenied, [])
       | Some pubkey \<Rightarrow>
           (case rk_print pubkey of
              Inl e \<Rightarrow> (Failed (KeyError e), [])
            | Inr pub_key \<Rightarrow>
                (case h_username h of
                   None \<Rightarrow> (Failed RequestDenied, [])
                 | Some hostname \<Rightarrow>
                     if command_name = ''sign_host_key''
                     then handle_sign_host_key K ask channel [hostname, pub_key] h
                     else (Done (), [Disconnect (''Unknown command: '' @ command_name)]))))"

section \<open>Lemmas on validation\<close>

lemma contains_char: "contains_str s [c] \<longleftrightarrow> c \<in> set s"
  by (induction s) auto

lemma sublist_char [simp]: "sublist [c] (s :: string) \<longleftrightarrow> c \<in> set s"
  using contains_char contains_str_iff_sublist by metis

lemma validate_hostname_ok:
  "validate_hostname h = Inr () \<longleftrightarrow>
     h \<noteq> [] \<and> slash \<notin> set h \<and> CHR 0x5C \<notin> set h \<and> CHR 0x00 \<notin> set h \<and> \<not> sublist ''..'' h"
  by (auto simp: validate_hostname_def contains_str_iff_sublist)

lemma hostname_file_proper:
  "h \<noteq> [] \<Longrightarrow> slash \<notin> set h \<Longrightarrow> proper_name (h @ ''.toml'')"
  by (auto simp: proper_name_def Cons_eq_append_conv append_eq_Cons_conv)

lemma hostname_one_component:
  assumes "validate_hostname host = Inr ()"
  shows "path_names (path_push base (host @ ''.toml'')) = path_names base @ [host @ ''.toml'']"
proof -
  have "proper_name (host @ ''.toml'')"
    using assms by (simp add: validate_hostname_ok hostname_file_proper)
  then have "\<not> has_root (host @ ''.toml'')" and "path_names (host @ ''.toml'') = [host @ ''.toml'']"
    using proper_name_rootless path_names_plain unfolding proper_name_def by blast+
  then show ?thesis
    by (simp add: path_names_push)
qed

section \<open>Properties\<close>

text \<open>A user name that passes \<open>validate_username\<close> consists of 1 to 64 of the letters,
  digits and \<open>. _ @ -\<close>: it is one line of ASCII with no white space, no quote, backslash,
  brace, percent sign, bracket, equals sign or slash, so that it cannot end a TOML string or
  open a template expression where the template quotes it.\<close>

theorem validated_username_safe:
  assumes "validate_username user"
  shows "user \<noteq> [] \<and> length user \<le> 64 \<and> (\<forall>c \<in> set user. is_ascii c \<and> \<not> is_whitespace [c]
    \<and> c \<notin> {CHR 0x22, CHR 0x27, CHR 0x5C, CHR ''{'', CHR ''}'', CHR ''%'', CHR ''#'', CHR ''['',
        CHR '']'', CHR ''='', CHR ''/'', CHR 0x0A, CHR 0x00})"
proof -
  have "is_ascii c \<and> \<not> is_whitespace [c]
      \<and> c \<notin> {CHR 0x22, CHR 0x27, CHR 0x5C, CHR ''{'', CHR ''}'', CHR ''%'', CHR ''#'', CHR ''['',
        CHR '']'', CHR ''='', CHR ''/'', CHR 0x0A, CHR 0x00}"
    if "is_ascii_alphanumeric c \<or> c \<in> {CHR ''.'', CHR ''_'', CHR ''@'', CHR ''-''}" for c
  proof (cases "is_ascii_alphanumeric c")
    case True
    then show ?thesis
      by (auto simp: is_ascii_alphanumeric_def is_ascii_def is_whitespace_def code_point_def Let_def)
  next
    case False
    with that have "c \<in> {CHR ''.'', CHR ''_'', CHR ''@'', CHR ''-''}" by blast
    then show ?thesis
      by (auto simp: is_ascii_def is_whitespace_def code_point_def Let_def)
  qed
  with assms show ?thesis
    by (auto simp: validate_username_def list_all_iff)
qed

lemma validated_username_safe_witness:
  "list_all is_ascii ''alice@example.org''"
proof -
  have "validate_username ''alice@example.org''"
    by (simp add: validate_username_def is_ascii_alphanumeric_def)
  from validated_username_safe [OF this] show ?thesis
    unfolding list_all_iff by blast
qed

text \<open>C27. A host name that passes \<open>validate_hostname\<close> names one file directly in the
  inventory: pushing \<open>name.toml\<close> to any directory appends exactly one path component, which is
  neither \<open>.\<close> nor \<open>..\<close>.\<close>

theorem validated_hostname_single_component:
  assumes "validate_hostname host = Inr ()"
  shows "proper_name (host @ ''.toml'')
    \<and> path_names (path_push base (host @ ''.toml'')) = path_names base @ [host @ ''.toml'']"
  using assms by (simp add: validate_hostname_ok hostname_file_proper hostname_one_component)

lemma validated_hostname_single_component_witness:
  "path_names (path_push ''/inv'' (''web'' @ ''.toml'')) = path_names ''/inv'' @ [''web.toml'']"
  using validated_hostname_single_component [of "''web''" "''/inv''"]
  by (simp add: validate_hostname_def)

text \<open>\<open>validate_hostname\<close> refuses exactly the names that are empty or hold a slash, a
  backslash, a NUL byte or two dots in a row, with a message that quotes the name.\<close>

theorem validate_hostname_decides:
  "validate_hostname host =
    (if host = [] \<or> CHR ''/'' \<in> set host \<or> CHR 0x5C \<in> set host \<or> CHR 0x00 \<in> set host \<or> sublist ''..'' host
     then Inl (''invalid host name: '' @ [CHR 0x27] @ host @ [CHR 0x27]) else Inr ())"
  by (auto simp: validate_hostname_def contains_str_iff_sublist)

text \<open>Parsing an exec request never yields a token with white space or an empty argument,
  for any bytes whatsoever, and the command name is empty only when nothing was sent but
  white space.\<close>

theorem parse_exec_command_tokens:
  assumes "parse_exec_command d = (name, args)"
  shows "(\<forall>t \<in> set (name # args). valid_utf8 t \<and> (\<forall>c \<in> set (chars_of t). \<not> is_whitespace c))
    \<and> (\<forall>t \<in> set args. t \<noteq> [])
    \<and> (name = [] \<longrightarrow> args = [] \<and> split_whitespace (from_utf8_lossy d) = [])"
proof (cases "split_whitespace (from_utf8_lossy d)")
  case Nil
  with assms show ?thesis
    by (auto simp: parse_exec_command_def chars_of_def valid_utf8_def)
next
  case (Cons n as)
  with assms have "name = n" "args = as"
    by (simp_all add: parse_exec_command_def)
  then have "t \<in> set (split_whitespace (from_utf8_lossy d))" if "t \<in> set (name # args)" for t
    using that Cons by simp
  with split_whitespace_token [OF lossy_valid] \<open>name = n\<close> Cons show ?thesis
    by (metis list.set_intros(1) set_subset_Cons subsetD)
qed

lemma parse_exec_command_tokens_witness:
  "list_all valid_utf8 [''sign_host_key'', ''now'']"
proof -
  have a: "\<forall>c \<in> set ''  sign_host_key now ''. is_ascii c"
    by (simp add: is_ascii_def)
  have "from_utf8_lossy ''  sign_host_key now '' = ''  sign_host_key now ''"
    using a by (intro lossy_id ascii_valid)
  then have "parse_exec_command ''  sign_host_key now '' = (''sign_host_key'', [''now''])"
    using ascii_chars_of [OF a]
    by (simp add: parse_exec_command_def split_whitespace_def is_whitespace_def code_point_def)
  from parse_exec_command_tokens [OF this] show ?thesis
    unfolding list_all_iff by blast
qed

text \<open>C28. A command written as words between single blanks is read back as those words.\<close>

theorem parse_exec_command_roundtrip:
  assumes "\<forall>t \<in> set (name # args). t \<noteq> [] \<and> valid_utf8 t \<and> (\<forall>c \<in> set (chars_of t). \<not> is_whitespace c)"
  shows "parse_exec_command (join_with '' '' (name # args)) = (name, args)"
proof -
  have "valid_utf8 (join_with '' '' (name # args))"
    using assms by (intro valid_join_blank) blast
  then have "from_utf8_lossy (join_with '' '' (name # args)) = join_with '' '' (name # args)"
    by (rule lossy_id)
  with split_whitespace_join [OF assms] show ?thesis
    by (simp add: parse_exec_command_def del: join_with.simps)
qed

lemma parse_exec_command_roundtrip_witness:
  "parse_exec_command (join_with '' '' [''sign_host_key'', ''now'']) = (''sign_host_key'', [''now''])"
proof (rule parse_exec_command_roundtrip)
  have "valid_utf8 t \<and> (\<forall>c \<in> set (chars_of t). \<not> is_whitespace c)"
    if "t \<in> {''sign_host_key'', ''now''}" for t
    using that by (intro ascii_word) (auto simp: is_ascii_def is_whitespace_def code_point_def)
  then show "\<forall>t \<in> set [''sign_host_key'', ''now'']. t \<noteq> [] \<and> valid_utf8 t
      \<and> (\<forall>c \<in> set (chars_of t). \<not> is_whitespace c)"
    by simp
qed

end
