(* ===== verification/Ssh_Session.thy ===== *)
theory Ssh_Session
  imports Ssh_Handler
begin

text \<open>
  One SSH connection from its first callback to its last. The order of the callbacks is
  russh's: authentication attempts until one is accepted, channel callbacks only then, and
  nothing after the session has ended. Whatever the authority answers at each step, the
  invariant says what the connection may have asked it for.
\<close>

section \<open>Events and steps\<close>

datatype 'rk event =
    PasswordAttempt string string
  | KeyAttempt string 'rk
  | Data nat bytes
  | Exec nat bytes

text \<open>How the connection was authenticated; kept for the proofs only.\<close>

datatype 'rk grant =
    ByPassword string string
  | ByKey 'rk string

record ('rk, 'pk, 'c) session =
  s_handler :: "'rk handler"
  s_alive :: bool
  s_grant :: "'rk grant option"
  s_asked :: "('pk ca_request \<times> 'c ca_response outcome option) list"

definition session_start :: "nat \<Rightarrow> ('rk, 'pk, 'c) session" where
  "session_start n = \<lparr>s_handler = new_handler n, s_alive = True, s_grant = None, s_asked = []\<rparr>"

fun asked_in :: "('pk, 'c) ca_call \<Rightarrow> 'pk action list \<Rightarrow> ('pk ca_request \<times> 'c ca_response outcome option) list" where
  "asked_in ask [] = []"
| "asked_in ask (AskCa req # acts) = (req, ask req) # asked_in ask acts"
| "asked_in ask (a # acts) = asked_in ask acts"

definition disconnects :: "'pk action list \<Rightarrow> bool" where
  "disconnects acts \<longleftrightarrow> (\<exists>a \<in> set acts. case a of Disconnect m \<Rightarrow> True | _ \<Rightarrow> False)"

fun goes_on :: "'a callback \<Rightarrow> bool" where
  "goes_on (Done x) = True"
| "goes_on r = False"

text \<open>
  One callback: the handler, whether the session goes on, and what was asked. \<open>ask\<close> is the
  authority at this moment.
\<close>

inductive session_step ::
  "bool \<Rightarrow> authenticator list \<Rightarrow> ('rk \<Rightarrow> string + string) \<Rightarrow> ('pk, 'kd, 'sk, 'b, 'c) ssh_key_crate
    \<Rightarrow> ('rk, 'pk, 'c) session \<Rightarrow> 'rk event \<Rightarrow> ('rk, 'pk, 'c) session \<Rightarrow> bool"
  for test_auth auths rk_print K
where
  password: "\<lbrakk>s_alive s; s_grant s = None;
      auth_password test_auth auths user pw (s_handler s) = (h, r)\<rbrakk> \<Longrightarrow>
    session_step test_auth auths rk_print K s (PasswordAttempt user pw)
      (s\<lparr>s_handler := h, s_alive := goes_on r,
         s_grant := (if r = Done Accept then Some (ByPassword user pw) else None)\<rparr>)"
| key: "\<lbrakk>s_alive s; s_grant s = None;
      auth_publickey rk_print K ask user k (s_handler s) = (h, r, acts)\<rbrakk> \<Longrightarrow>
    session_step test_auth auths rk_print K s (KeyAttempt user k)
      (s\<lparr>s_handler := h, s_alive := goes_on r,
         s_grant := (if r = Done Accept then Some (ByKey k (the (h_username h))) else None),
         s_asked := s_asked s @ asked_in ask acts\<rparr>)"
| data: "\<lbrakk>s_alive s; s_grant s \<noteq> None; data K ask ch d (s_handler s) = (r, acts)\<rbrakk> \<Longrightarrow>
    session_step test_auth auths rk_print K s (Data ch d)
      (s\<lparr>s_alive := goes_on r \<and> \<not> disconnects acts, s_asked := s_asked s @ asked_in ask acts\<rparr>)"
| exec: "\<lbrakk>s_alive s; s_grant s \<noteq> None;
      exec_request rk_print K ask ch d (s_handler s) = (r, acts)\<rbrakk> \<Longrightarrow>
    session_step test_auth auths rk_print K s (Exec ch d)
      (s\<lparr>s_alive := goes_on r \<and> \<not> disconnects acts, s_asked := s_asked s @ asked_in ask acts\<rparr>)"

inductive_cases session_stepE: "session_step test_auth auths rk_print K s e s'"

inductive session_run ::
  "bool \<Rightarrow> authenticator list \<Rightarrow> ('rk \<Rightarrow> string + string) \<Rightarrow> ('pk, 'kd, 'sk, 'b, 'c) ssh_key_crate
    \<Rightarrow> nat \<Rightarrow> ('rk, 'pk, 'c) session \<Rightarrow> bool"
  for test_auth auths rk_print K n
where
  start: "session_run test_auth auths rk_print K n (session_start n)"
| step: "\<lbrakk>session_run test_auth auths rk_print K n s; session_step test_auth auths rk_print K s e s'\<rbrakk>
    \<Longrightarrow> session_run test_auth auths rk_print K n s'"

section \<open>What one callback asks for\<close>

lemma asked_in_append [simp]: "asked_in ask (a @ b) = asked_in ask a @ asked_in ask b"
  by (induction ask a rule: asked_in.induct) auto

lemma parse_openssh_key_Some:
  "parse_openssh_key K raw = (Some k, acts) \<longleftrightarrow> pk_from_openssh K raw = Inr k \<and> acts = []"
  by (cases "pk_from_openssh K raw") (auto simp: parse_openssh_key_def key_from_openssh_def)

lemma parse_openssh_key_None:
  "parse_openssh_key K raw = (None, acts) \<Longrightarrow> asked_in ask acts = [] \<and> (\<exists>m. acts = [Disconnect m])"
  by (cases "pk_from_openssh K raw") (auto simp: parse_openssh_key_def key_from_openssh_def)

lemma asked_in_send_cert [simp]: "asked_in ask (send_cert_and_close K cert ch) = []"
  by (simp add: send_cert_and_close_def split: sum.split)

lemma asked_in_sign_and_send:
  "sign_and_send K ask req ch = (r, acts) \<Longrightarrow> asked_in ask acts = [(req, ask req)]"
  by (auto simp: sign_and_send_def send_sign_request_def
      split: option.splits outcome.splits ca_response.splits)

lemma asked_in_data:
  assumes "data K ask ch d h = (r, acts)"
  shows "asked_in ask acts = [] \<or>
    (\<exists>u k. h_username h = Some u \<and> h_auth_method h \<noteq> Some PublicKeyAuth
       \<and> pk_from_openssh K (from_utf8_lossy d) = Inr k
       \<and> asked_in ask acts = [(SignCertificate u k, ask (SignCertificate u k))])"
  using assms
  by (auto simp: data_def handler_sign_user_key_def parse_openssh_key_Some
      dest: parse_openssh_key_None [where ask = ask] asked_in_sign_and_send
      split: option.splits if_splits prod.splits)

lemma asked_in_exec:
  assumes "exec_request rk_print K ask ch d h = (r, acts)"
  shows "asked_in ask acts = [] \<or>
    (\<exists>host rk s k. h_username h = Some host \<and> h_public_key h = Some rk \<and> rk_print rk = Inr s
       \<and> validate_hostname host = Inr () \<and> pk_from_openssh K s = Inr k
       \<and> fst (parse_exec_command d) = ''sign_host_key''
       \<and> asked_in ask acts = [(SignHostCertificate host k, ask (SignHostCertificate host k))])"
  using assms
  by (auto simp: exec_request_def handle_sign_host_key_def parse_openssh_key_Some Let_def
      dest: parse_openssh_key_None [where ask = ask] asked_in_sign_and_send
      split: option.splits if_splits prod.splits sum.splits)

lemma auth_password_Accept:
  assumes "auth_password test_auth auths user pw h = (h', Done Accept)"
  shows "validate_username user
    \<and> (test_auth \<and> user = ''test'' \<and> pw = ''test'' \<or> \<not> test_auth \<and> first_accepting auths user (Password pw) = Ok True)
    \<and> h' = h\<lparr>h_username := Some user, h_auth_method := Some PasswordAuth\<rparr>"
  using assms by (auto simp: auth_password_def split: if_splits outcome.splits bool.splits)

lemma auth_password_other:
  "auth_password test_auth auths user pw h = (h', r) \<Longrightarrow> r \<noteq> Done Accept \<Longrightarrow> h' = h"
  by (auto simp: auth_password_def split: if_splits outcome.splits bool.splits)

lemma auth_publickey_Accept:
  assumes "auth_publickey rk_print K ask user rk h = (h', Done Accept, acts)"
  shows "\<exists>s k name. rk_print rk = Inr s \<and> pk_from_openssh K s = Inr k
    \<and> ask (CheckPublicKey k) = Some (Ok (KeyFound (Some name))) \<and> acts = [AskCa (CheckPublicKey k)]
    \<and> h' = h\<lparr>h_username := Some name, h_auth_method := Some PublicKeyAuth, h_public_key := Some rk\<rparr>"
  using assms
  by (auto simp: auth_publickey_def Let_def
      split: sum.splits option.splits outcome.splits ca_response.splits)

lemma auth_publickey_other:
  assumes "auth_publickey rk_print K ask user rk h = (h', r, acts)"
  shows "(r \<noteq> Done Accept \<longrightarrow> h' = h) \<and> (\<forall>x \<in> set (asked_in ask acts). \<exists>k. fst x = CheckPublicKey k)"
  using assms
  by (auto simp: auth_publickey_def Let_def
      split: sum.splits option.splits outcome.splits ca_response.splits)

section \<open>The invariant\<close>

definition granted ::
  "bool \<Rightarrow> authenticator list \<Rightarrow> ('rk \<Rightarrow> string + string) \<Rightarrow> ('pk, 'kd, 'sk, 'b, 'c) ssh_key_crate
    \<Rightarrow> ('rk, 'pk, 'c) session \<Rightarrow> bool"
where
  "granted test_auth auths rk_print K s \<longleftrightarrow>
     (case s_grant s of
        None \<Rightarrow> h_username (s_handler s) = None \<and> h_auth_method (s_handler s) = None
          \<and> h_public_key (s_handler s) = None
      | Some (ByPassword u pw) \<Rightarrow>
          validate_username u
          \<and> (test_auth \<and> u = ''test'' \<and> pw = ''test''
             \<or> \<not> test_auth \<and> first_accepting auths u (Password pw) = Ok True)
          \<and> h_username (s_handler s) = Some u \<and> h_auth_method (s_handler s) = Some PasswordAuth
          \<and> h_public_key (s_handler s) = None
      | Some (ByKey rk name) \<Rightarrow>
          h_username (s_handler s) = Some name \<and> h_auth_method (s_handler s) = Some PublicKeyAuth
          \<and> h_public_key (s_handler s) = Some rk
          \<and> (\<exists>st k. rk_print rk = Inr st \<and> pk_from_openssh K st = Inr k
               \<and> (CheckPublicKey k, Some (Ok (KeyFound (Some name)))) \<in> set (s_asked s)))"

definition entitled ::
  "('rk \<Rightarrow> string + string) \<Rightarrow> ('pk, 'kd, 'sk, 'b, 'c) ssh_key_crate \<Rightarrow> 'rk grant option
    \<Rightarrow> 'pk ca_request \<Rightarrow> bool"
where
  "entitled rk_print K g req \<longleftrightarrow>
     (case req of
        CheckPublicKey k \<Rightarrow> True
      | SignCertificate u k \<Rightarrow> \<exists>pw. g = Some (ByPassword u pw)
      | SignHostCertificate host k \<Rightarrow>
          validate_hostname host = Inr ()
          \<and> (\<exists>rk st. g = Some (ByKey rk host) \<and> rk_print rk = Inr st \<and> pk_from_openssh K st = Inr k))"

definition session_inv ::
  "bool \<Rightarrow> authenticator list \<Rightarrow> ('rk \<Rightarrow> string + string) \<Rightarrow> ('pk, 'kd, 'sk, 'b, 'c) ssh_key_crate
    \<Rightarrow> ('rk, 'pk, 'c) session \<Rightarrow> bool"
where
  "session_inv test_auth auths rk_print K s \<longleftrightarrow>
     granted test_auth auths rk_print K s
     \<and> (\<forall>x \<in> set (s_asked s). entitled rk_print K (s_grant s) (fst x))"

lemma session_inv_start: "session_inv test_auth auths rk_print K (session_start n)"
  by (simp add: session_inv_def granted_def session_start_def new_handler_def)

text \<open>While nothing is granted only key checks have been asked, so a grant may be added.\<close>

lemma only_checks:
  assumes "\<forall>x \<in> set l. entitled rk_print K None (fst x)" and "x \<in> set l"
  shows "\<exists>k. fst x = CheckPublicKey k"
  using assms by (cases "fst x") (fastforce simp: entitled_def)+

lemma entitled_check: "\<exists>k. req = CheckPublicKey k \<Longrightarrow> entitled rk_print K g req"
  by (auto simp: entitled_def)

lemma channel_entitled:
  assumes "granted test_auth auths rk_print K s" and "s_grant s \<noteq> None"
  shows "data K ask ch d (s_handler s) = (r, acts)
      \<Longrightarrow> \<forall>x \<in> set (asked_in ask acts). entitled rk_print K (s_grant s) (fst x)"
    and "exec_request rk_print K ask ch d (s_handler s) = (r, acts)
      \<Longrightarrow> \<forall>x \<in> set (asked_in ask acts). entitled rk_print K (s_grant s) (fst x)"
proof -
  show "\<forall>x \<in> set (asked_in ask acts). entitled rk_print K (s_grant s) (fst x)"
    if "data K ask ch d (s_handler s) = (r, acts)"
    using asked_in_data [OF that] assms
    by (auto simp: granted_def entitled_def split: option.splits grant.splits)
  show "\<forall>x \<in> set (asked_in ask acts). entitled rk_print K (s_grant s) (fst x)"
    if "exec_request rk_print K ask ch d (s_handler s) = (r, acts)"
    using asked_in_exec [OF that] assms
    by (auto simp: granted_def entitled_def split: option.splits grant.splits)
qed

lemma granted_more:
  "granted test_auth auths rk_print K s \<Longrightarrow>
    granted test_auth auths rk_print K (s\<lparr>s_alive := a, s_asked := s_asked s @ qs\<rparr>)"
  by (auto simp: granted_def split: option.splits grant.splits)

lemma session_inv_step:
  assumes "session_step test_auth auths rk_print K s e s'"
    and "session_inv test_auth auths rk_print K s"
  shows "session_inv test_auth auths rk_print K s'"
  using assms
proof (induction rule: session_step.induct)
  case (password s user pw h r)
  have checks: "\<forall>x \<in> set (s_asked s). entitled rk_print K g (fst x)" for g
    using password.prems password.hyps(2) only_checks entitled_check
    unfolding session_inv_def by metis
  show ?case
  proof (cases "r = Done Accept")
    case True
    with auth_password_Accept password.hyps(3) have
      "validate_username user
        \<and> (test_auth \<and> user = ''test'' \<and> pw = ''test''
           \<or> \<not> test_auth \<and> first_accepting auths user (Password pw) = Ok True)"
      and "h = (s_handler s)\<lparr>h_username := Some user, h_auth_method := Some PasswordAuth\<rparr>"
      by blast+
    moreover have "h_public_key (s_handler s) = None"
      using password.prems password.hyps(2) by (simp add: session_inv_def granted_def)
    ultimately show ?thesis
      using True checks by (simp add: session_inv_def granted_def)
  next
    case False
    then have "h = s_handler s"
      using auth_password_other password.hyps(3) by blast
    with False checks password.prems password.hyps(2) show ?thesis
      by (simp add: session_inv_def granted_def)
  qed
next
  case (key s ask user k h r acts)
  have old: "\<forall>x \<in> set (s_asked s). entitled rk_print K g (fst x)" for g
    using key.prems key.hyps(2) only_checks entitled_check unfolding session_inv_def by metis
  have new: "\<forall>x \<in> set (asked_in ask acts). entitled rk_print K g (fst x)" for g
    using auth_publickey_other [OF key.hyps(3)] by (auto simp: entitled_def)
  show ?case
  proof (cases "r = Done Accept")
    case True
    obtain st pk name where g: "rk_print k = Inr st" "pk_from_openssh K st = Inr pk"
        "ask (CheckPublicKey pk) = Some (Ok (KeyFound (Some name)))"
        "acts = [AskCa (CheckPublicKey pk)]"
        "h = (s_handler s)\<lparr>h_username := Some name, h_auth_method := Some PublicKeyAuth,
          h_public_key := Some k\<rparr>"
      using auth_publickey_Accept [OF key.hyps(3) [unfolded True]] by blast
    with old new show ?thesis
      using True by (auto simp: session_inv_def granted_def)
  next
    case False
    then have "h = s_handler s"
      using auth_publickey_other [OF key.hyps(3)] by blast
    with False old new key.prems key.hyps(2) show ?thesis
      by (auto simp: session_inv_def granted_def)
  qed
next
  case (data s ask ch d r acts)
  with channel_entitled(1) [OF _ data.hyps(2,3)] granted_more show ?case
    by (auto simp: session_inv_def)
next
  case (exec s ask ch d r acts)
  with channel_entitled(2) [OF _ exec.hyps(2,3)] granted_more show ?case
    by (auto simp: session_inv_def)
qed

lemma session_inv_run:
  "session_run test_auth auths rk_print K n s \<Longrightarrow> session_inv test_auth auths rk_print K s"
  by (induction rule: session_run.induct) (auto intro: session_inv_start session_inv_step)

section \<open>A concrete session\<close>

text \<open>
  Alice logs in with her password and sends her key; the host \<open>web\<close> logs in with its key
  and asks for its certificate. Keys of russh are their OpenSSH text here.
\<close>

definition example_ask ::
  "(ref_key, bytes \<times> (string \<times> string) cert_fields) ca_call" where
  "example_ask req =
     (case req of
        CheckPublicKey k \<Rightarrow> Some (Ok (KeyFound (if fst (snd k) = ''AAAA'' then Some ''web'' else None)))
      | SignCertificate u k \<Rightarrow> Some (Ok (SignedCertificate example_cert))
      | SignHostCertificate h k \<Rightarrow> Some (Ok (SignedCertificate example_host_cert)))"

definition example_key_text :: string where
  "example_key_text = ''ssh-ed25519 AAAA me''"

lemma example_key_parses:
  "pk_from_openssh ref_crate example_key_text = Inr (''ssh-ed25519'', ''AAAA'', ''me'')"
  by (simp add: ref_crate_def example_key_text_def)

lemma example_key_lossy: "from_utf8_lossy example_key_text = example_key_text"
  by (intro lossy_id ascii_valid) (simp add: example_key_text_def is_ascii_def)

definition example_user_session ::
  "(string, ref_key, bytes \<times> (string \<times> string) cert_fields) session" where
  "example_user_session =
     \<lparr>s_handler = \<lparr>h_id = 1, h_username = Some ''alice'', h_auth_method = Some PasswordAuth,
        h_public_key = None\<rparr>,
      s_alive = True, s_grant = Some (ByPassword ''alice'' ''pw''),
      s_asked = [(SignCertificate ''alice'' (''ssh-ed25519'', ''AAAA'', ''me''),
        Some (Ok (SignedCertificate example_cert)))]\<rparr>"

lemma example_user_run:
  "session_run False [pam_authenticate example_pam] Inr ref_crate 1 example_user_session"
proof -
  let ?run = "session_run False [pam_authenticate example_pam] Inr ref_crate 1
    :: (string, ref_key, bytes \<times> (string \<times> string) cert_fields) session \<Rightarrow> bool"
  let ?step = "session_step False [pam_authenticate example_pam] Inr ref_crate
    :: (string, ref_key, bytes \<times> (string \<times> string) cert_fields) session \<Rightarrow> string event \<Rightarrow> _ \<Rightarrow> bool"
  let ?h = "\<lparr>h_id = 1, h_username = Some ''alice'', h_auth_method = Some PasswordAuth,
    h_public_key = None\<rparr> :: string handler"
  let ?s1 = "\<lparr>s_handler = ?h, s_alive = True, s_grant = Some (ByPassword ''alice'' ''pw''), s_asked = []\<rparr>
    :: (string, ref_key, bytes \<times> (string \<times> string) cert_fields) session"
  have "auth_password False [pam_authenticate example_pam] ''alice'' ''pw'' (new_handler 1)
      = (?h, Done Accept)"
    by (simp add: auth_password_def validate_username_def is_ascii_alphanumeric_def new_handler_def
        pam_authenticate_user_def example_pam_def)
  then have "?step (session_start 1) (PasswordAttempt ''alice'' ''pw'') ?s1"
    using session_step.password [of "session_start 1" False "[pam_authenticate example_pam]"
        "''alice''" "''pw''" ?h "Done Accept" Inr ref_crate]
    by (simp add: session_start_def)
  then have run1: "?run ?s1"
    by (rule session_run.step [OF session_run.start])
  have "data ref_crate example_ask 0 example_key_text ?h
      = (Done (), AskCa (SignCertificate ''alice'' (''ssh-ed25519'', ''AAAA'', ''me''))
          # send_cert_and_close ref_crate example_cert 0)"
    using example_key_parses
    by (simp add: data_def handler_sign_user_key_def example_key_lossy parse_openssh_key_def
        key_from_openssh_def sign_and_send_def send_sign_request_def example_ask_def)
  then have "?step ?s1 (Data 0 example_key_text) example_user_session"
    using session_step.data [of ?s1 ref_crate example_ask 0 example_key_text "Done ()" _ False
        "[pam_authenticate example_pam]" Inr]
    by (simp add: example_user_session_def disconnects_def send_cert_and_close_def ref_crate_def
        example_ask_def)
  with run1 show ?thesis by (rule session_run.step)
qed

definition example_host_session ::
  "(string, ref_key, bytes \<times> (string \<times> string) cert_fields) session" where
  "example_host_session =
     \<lparr>s_handler = \<lparr>h_id = 2, h_username = Some ''web'', h_auth_method = Some PublicKeyAuth,
        h_public_key = Some example_key_text\<rparr>,
      s_alive = True, s_grant = Some (ByKey example_key_text ''web''),
      s_asked = [(CheckPublicKey (''ssh-ed25519'', ''AAAA'', ''me''), Some (Ok (KeyFound (Some ''web'')))),
        (SignHostCertificate ''web'' (''ssh-ed25519'', ''AAAA'', ''me''),
          Some (Ok (SignedCertificate example_host_cert)))]\<rparr>"

lemma example_command: "parse_exec_command ''sign_host_key'' = (''sign_host_key'', [])"
proof -
  have a: "\<forall>c \<in> set ''sign_host_key''. is_ascii c"
    by (simp add: is_ascii_def)
  have "from_utf8_lossy ''sign_host_key'' = ''sign_host_key''"
    using a by (intro lossy_id ascii_valid)
  then show ?thesis
    using ascii_chars_of [OF a]
    by (simp add: parse_exec_command_def split_whitespace_def is_whitespace_def code_point_def)
qed

lemma example_host_run:
  "session_run False [] Inr ref_crate 2 example_host_session"
proof -
  let ?run = "session_run False [] Inr ref_crate 2
    :: (string, ref_key, bytes \<times> (string \<times> string) cert_fields) session \<Rightarrow> bool"
  let ?step = "session_step False [] Inr ref_crate
    :: (string, ref_key, bytes \<times> (string \<times> string) cert_fields) session \<Rightarrow> string event \<Rightarrow> _ \<Rightarrow> bool"
  let ?k = "(''ssh-ed25519'', ''AAAA'', ''me'')"
  let ?h = "\<lparr>h_id = 2, h_username = Some ''web'', h_auth_method = Some PublicKeyAuth,
    h_public_key = Some example_key_text\<rparr>"
  let ?s1 = "\<lparr>s_handler = ?h, s_alive = True, s_grant = Some (ByKey example_key_text ''web''),
      s_asked = [(CheckPublicKey ?k, Some (Ok (KeyFound (Some ''web''))))]\<rparr>
    :: (string, ref_key, bytes \<times> (string \<times> string) cert_fields) session"
  have "auth_publickey Inr ref_crate example_ask ''root'' example_key_text (new_handler 2)
      = (?h, Done Accept, [AskCa (CheckPublicKey ?k)])"
    using example_key_parses
    by (simp add: auth_publickey_def example_ask_def new_handler_def)
  then have "?step (session_start 2) (KeyAttempt ''root'' example_key_text) ?s1"
    using session_step.key [of "session_start 2" Inr ref_crate example_ask "''root''"
        example_key_text ?h "Done Accept" "[AskCa (CheckPublicKey ?k)]" False "[]"]
    by (simp add: session_start_def example_ask_def)
  then have run1: "?run ?s1"
    by (rule session_run.step [OF session_run.start])
  have "exec_request Inr ref_crate example_ask 0 ''sign_host_key'' ?h
      = (Done (), AskCa (SignHostCertificate ''web'' ?k) # send_cert_and_close ref_crate example_host_cert 0)"
    using example_key_parses
    by (simp add: exec_request_def example_command handle_sign_host_key_def validate_hostname_def
        parse_openssh_key_def key_from_openssh_def sign_and_send_def send_sign_request_def example_ask_def)
  then have "?step ?s1 (Exec 0 ''sign_host_key'') example_host_session"
    using session_step.exec [of ?s1 Inr ref_crate example_ask 0 "''sign_host_key''" "Done ()" _ False "[]"]
    by (simp add: example_host_session_def disconnects_def send_cert_and_close_def ref_crate_def
        example_ask_def)
  with run1 show ?thesis by (rule session_run.step)
qed

text \<open>What a signing request says about the login of its connection.\<close>

lemma asked_for_user:
  assumes "session_run False auths rk_print K n s" and "(SignCertificate u k, ans) \<in> set (s_asked s)"
  shows "validate_username u \<and> (\<exists>pw. \<exists>a \<in> set auths. a u (Password pw) = Ok True)"
proof -
  have inv: "session_inv False auths rk_print K s"
    using assms(1) by (rule session_inv_run)
  then have "entitled rk_print K (s_grant s) (SignCertificate u k)"
    using assms(2) unfolding session_inv_def by fastforce
  then obtain pw where "s_grant s = Some (ByPassword u pw)"
    by (auto simp: entitled_def)
  with inv have "validate_username u" and "first_accepting auths u (Password pw) = Ok True"
    by (auto simp: session_inv_def granted_def)
  with first_accepting_True show ?thesis by blast
qed

lemma asked_for_host:
  assumes "session_run test_auth auths rk_print K n s"
    and "(SignHostCertificate host k, ans) \<in> set (s_asked s)"
  shows "validate_hostname host = Inr ()
    \<and> (CheckPublicKey k, Some (Ok (KeyFound (Some host)))) \<in> set (s_asked s)
    \<and> (\<exists>rk st. h_public_key (s_handler s) = Some rk \<and> rk_print rk = Inr st
         \<and> pk_from_openssh K st = Inr k)"
proof -
  have inv: "session_inv test_auth auths rk_print K s"
    using assms(1) by (rule session_inv_run)
  then have "entitled rk_print K (s_grant s) (SignHostCertificate host k)"
    using assms(2) unfolding session_inv_def by fastforce
  then obtain rk st where "s_grant s = Some (ByKey rk host)" "validate_hostname host = Inr ()"
      "rk_print rk = Inr st" "pk_from_openssh K st = Inr k"
    by (auto simp: entitled_def)
  with inv show ?thesis
    by (auto simp: session_inv_def granted_def)
qed

text \<open>The answer to a key, once the authority has signed.\<close>

lemma certificate_for_user:
  assumes "session_run test_auth auths rk_print K n s" and "s_grant s = Some (ByPassword u pw)"
    and "pk_from_openssh K (from_utf8_lossy d) = Inr k"
    and "ask (SignCertificate u k) = Some (Ok (SignedCertificate c))" and "cert_to_openssh K c = Inr txt"
  shows "data K ask ch d (s_handler s) =
    (Done (), [AskCa (SignCertificate u k), ChannelData ch txt, ExitStatus ch 0, ChannelEof ch,
       ChannelClose ch])"
proof -
  have "h_username (s_handler s) = Some u" and "h_auth_method (s_handler s) = Some PasswordAuth"
    using session_inv_run [OF assms(1)] assms(2) by (auto simp: session_inv_def granted_def)
  with assms(3-5) show ?thesis
    by (simp add: data_def handler_sign_user_key_def parse_openssh_key_def key_from_openssh_def
        sign_and_send_def send_sign_request_def send_cert_and_close_def)
qed

section \<open>Properties\<close>



text \<open>A connection asks for a host certificate only for the host and the key of its login:
  a request \<open>SignHostCertificate h k\<close> carries the very key the client proved to hold, parsed
  from the same text that the authority was asked about, under the name the authority
  answered for that key; and \<open>h\<close> is a valid host name.\<close>

theorem host_requests_matched:
  assumes "session_run test_auth auths rk_print K n s"
    and "(SignHostCertificate host k, ans) \<in> set (s_asked s)"
  shows "validate_hostname host = Inr ()
    \<and> (CheckPublicKey k, Some (Ok (KeyFound (Some host)))) \<in> set (s_asked s)
    \<and> (\<exists>rk st. h_public_key (s_handler s) = Some rk \<and> rk_print rk = Inr st
         \<and> pk_from_openssh K st = Inr k)"
  using assms by (rule asked_for_host)

lemma host_requests_matched_witness:
  "validate_hostname ''web'' = Inr () \<and>
   (CheckPublicKey (''ssh-ed25519'', ''AAAA'', ''me''), Some (Ok (KeyFound (Some ''web''))))
     \<in> set (s_asked example_host_session)"
  using host_requests_matched [OF example_host_run]
  by (simp add: example_host_session_def)

text \<open>C23. The handler's own panics cannot be reached: in every reachable session that goes on
  after a login, channel data and exec requests panic only when the authority panics or
  answers a signing request with the answer of a key check.\<close>

theorem channel_callbacks_no_panic:
  assumes "session_run test_auth auths rk_print K n s" and "s_grant s \<noteq> None"
    and "\<forall>req. (\<forall>k. req \<noteq> CheckPublicKey k) \<longrightarrow>
      (\<forall>f m. ask req \<noteq> Some (Ok (KeyFound f)) \<and> ask req \<noteq> Some (Panic m))"
  shows "fst (data K ask ch d (s_handler s)) \<noteq> Panicked m
    \<and> fst (exec_request rk_print K ask ch d (s_handler s)) \<noteq> Panicked m"
proof -
  have "h_username (s_handler s) \<noteq> None"
    using session_inv_run [OF assms(1)] assms(2)
    by (auto simp: session_inv_def granted_def split: option.splits grant.splits)
  then obtain u where u: "h_username (s_handler s) = Some u" by blast
  have send: "fst (sign_and_send K ask req ch) \<noteq> Panicked m" if "\<forall>k. req \<noteq> CheckPublicKey k" for req
    using assms(3) that
    by (auto simp: sign_and_send_def send_sign_request_def
        split: option.splits outcome.splits ca_response.splits)
  have "fst (data K ask ch d (s_handler s)) \<noteq> Panicked m"
    using u send
    by (auto simp: data_def handler_sign_user_key_def split: option.splits prod.splits)
      (metis ca_request.distinct(1) fst_conv)
  moreover have "fst (exec_request rk_print K ask ch d (s_handler s)) \<noteq> Panicked m"
    using u send
    by (auto simp: exec_request_def handle_sign_host_key_def Let_def
        split: option.splits prod.splits sum.splits)
      (metis ca_request.distinct(5) fst_conv)
  ultimately show ?thesis by blast
qed

lemma channel_callbacks_no_panic_witness:
  "fst (data ref_crate example_ask 0 example_key_text (s_handler example_user_session)) \<noteq> Panicked ''user not set''"
  by (rule channel_callbacks_no_panic [THEN conjunct1, OF example_user_run])
    (auto simp: example_user_session_def example_ask_def split: ca_request.splits)

text \<open>A host cannot get a user certificate: channel data on a connection that logged in with
  a key is answered by a disconnect, and the authority is not asked.\<close>

theorem key_login_gets_no_user_certificate:
  assumes "session_run test_auth auths rk_print K n s" and "s_grant s = Some (ByKey rk name)"
  shows "data K ask ch d (s_handler s) =
    (Done (), [Disconnect ''Public key authenticated users can only request host certificates.''])"
proof -
  have "h_username (s_handler s) = Some name" and "h_auth_method (s_handler s) = Some PublicKeyAuth"
    using session_inv_run [OF assms(1)] assms(2) by (auto simp: session_inv_def granted_def)
  then show ?thesis
    by (simp add: data_def handler_sign_user_key_def)
qed

lemma key_login_gets_no_user_certificate_witness:
  "data ref_crate example_ask 0 example_key_text (s_handler example_host_session) =
    (Done (), [Disconnect ''Public key authenticated users can only request host certificates.''])"
  by (rule key_login_gets_no_user_certificate [OF example_host_run])
    (simp add: example_host_session_def)

text \<open>One wrong password ends the connection: when no authenticator accepts, the callback
  returns an error instead of a rejection, so that the session is over after the first
  attempt and no second one is possible on it.\<close>

theorem wrong_password_ends_session:
  assumes "s_alive s" and "s_grant s = None" and "validate_username user"
    and "first_accepting auths user (Password pw) = Ok False"
    and "session_step False auths rk_print K s (PasswordAttempt user pw) s'"
  shows "\<not> s_alive s' \<and> (\<forall>e s''. \<not> session_step False auths rk_print K s' e s'')"
proof -
  have "auth_password False auths user pw (s_handler s) = (s_handler s, Failed RequestDenied)"
    using assms(3,4) by (simp add: auth_password_def)
  then have dead: "\<not> s_alive s'"
    using assms(5) by (auto elim!: session_stepE)
  then have "\<not> session_step False auths rk_print K s' e s''" for e s''
    by (auto elim!: session_stepE)
  with dead show ?thesis by blast
qed

lemma wrong_password_ends_session_witness:
  "\<exists>s' :: (string, ref_key, bytes \<times> (string \<times> string) cert_fields) session.
     session_step False [pam_authenticate example_pam] Inr ref_crate (session_start 1)
       (PasswordAttempt ''alice'' ''typo'') s' \<and> \<not> s_alive s'"
proof -
  let ?s = "session_start 1 :: (string, ref_key, bytes \<times> (string \<times> string) cert_fields) session"
  have v: "validate_username ''alice''"
    by (simp add: validate_username_def is_ascii_alphanumeric_def)
  have f: "first_accepting [pam_authenticate example_pam] ''alice'' (Password ''typo'') = Ok False"
    by (simp add: pam_authenticate_user_def example_pam_def)
  have alive: "s_alive ?s" and g: "s_grant ?s = None"
    by (simp_all add: session_start_def)
  obtain h r where a: "auth_password False [pam_authenticate example_pam] ''alice'' ''typo'' (s_handler ?s) = (h, r)"
    by force
  note st = session_step.password [OF alive g a, of Inr ref_crate]
  from wrong_password_ends_session [OF alive g v f st] st show ?thesis by blast
qed

end
