(* ===== verification/Ssh_Server.thy ===== *)
theory Ssh_Server
  imports Ssh_Session Configuration
begin

text \<open>
  \<open>ssh_server/mod.rs\<close>, the server around the connections: start-up with the key and the
  certificate of the server, the numbering of connections, and the shared table of open
  sessions that \<open>channel_open_session\<close> fills and \<open>Drop\<close> empties.
\<close>

section \<open>Start-up\<close>

datatype method_kind = PasswordMethod | PublicKeyMethod

text \<open>The fields of \<open>russh::server::Config\<close> that the program sets.\<close>

record ('key, 'cert) russh_config =
  inactivity_timeout :: "nat option"
  auth_rejection_time :: nat
  auth_rejection_time_initial :: "nat option"
  max_auth_attempts :: nat
  methods :: "method_kind list"
  keys :: "'key list"
  certificates :: "'cert list"

definition ssh_config ::
  "(path \<Rightarrow> string + 'key) \<Rightarrow> (path \<Rightarrow> string + 'cert) \<Rightarrow> ssh_cfg \<Rightarrow> ('key, 'cert) russh_config outcome"
where
  "ssh_config load_secret_key load_openssh_certificate cfg =
     (case load_secret_key (ssh_private_key cfg) of
        Inl e \<Rightarrow> Panic ''failed''
      | Inr server_private_key \<Rightarrow>
          (let auth_methods = [PasswordMethod, PublicKeyMethod];
               plain = \<lparr>inactivity_timeout = Some 5, auth_rejection_time = 3,
                 auth_rejection_time_initial = None, max_auth_attempts = 3,
                 methods = auth_methods, keys = [server_private_key], certificates = []\<rparr>
           in case certificate cfg of
              None \<Rightarrow> Ok plain
            | Some p \<Rightarrow>
                (case load_openssh_certificate p of
                   Inl e \<Rightarrow> Panic ''failed''
                 | Inr server_certificate \<Rightarrow> Ok (plain\<lparr>certificates := [server_certificate]\<rparr>))))"

text \<open>\<open>run\<close>: \<open>serve_on\<close> is \<open>run_on_address\<close>, which returns only when the server ends.\<close>

definition ssh_run ::
  "(path \<Rightarrow> string + 'key) \<Rightarrow> (path \<Rightarrow> string + 'cert)
    \<Rightarrow> (('key, 'cert) russh_config \<Rightarrow> string \<Rightarrow> u16 \<Rightarrow> string + unit) \<Rightarrow> ssh_cfg \<Rightarrow> unit outcome"
where
  "ssh_run load_secret_key load_openssh_certificate serve_on cfg =
     and_then (ssh_config load_secret_key load_openssh_certificate cfg) (\<lambda>rc.
       case serve_on rc (bind_addr cfg) (port cfg) of
         Inl e \<Rightarrow> Panic (''called `Result::unwrap()` on an `Err` value: '' @ e)
       | Inr u \<Rightarrow> Ok ())"

section \<open>Connections\<close>

text \<open>
  \<open>clients\<close> maps the id of a connection to its open channel and session handle;
  \<open>client_ids\<close> is the last id given out. The table is shared by all clones of the server,
  the counter belongs to the one clone that accepts connections.
\<close>

record 'hd registry =
  clients :: "(nat \<times> nat \<times> 'hd) list"
  client_ids :: u64

definition registry_new :: "'hd registry" where
  "registry_new = \<lparr>clients = [], client_ids = 0\<rparr>"

text \<open>A \<open>HashMap\<close> as an association list without duplicate keys.\<close>

definition map_insert :: "nat \<Rightarrow> 'v \<Rightarrow> (nat \<times> 'v) list \<Rightarrow> (nat \<times> 'v) list" where
  "map_insert k v m = (k, v) # filter (\<lambda>e. fst e \<noteq> k) m"

definition map_remove :: "nat \<Rightarrow> (nat \<times> 'v) list \<Rightarrow> (nat \<times> 'v) list" where
  "map_remove k m = filter (\<lambda>e. fst e \<noteq> k) m"

definition new_client :: "'hd registry \<Rightarrow> 'hd registry \<times> 'rk handler" where
  "new_client r =
     (let n = client_ids r + 1 in (r\<lparr>client_ids := n\<rparr>, new_handler (unat n)))"

definition channel_open_session :: "nat \<Rightarrow> 'hd \<Rightarrow> 'rk handler \<Rightarrow> 'hd registry \<Rightarrow> 'hd registry" where
  "channel_open_session channel sh h r =
     r\<lparr>clients := map_insert (h_id h) (channel, sh) (clients r)\<rparr>"

definition drop_handler :: "'rk handler \<Rightarrow> 'hd registry \<Rightarrow> 'hd registry" where
  "drop_handler h r = r\<lparr>clients := map_remove (h_id h) (clients r)\<rparr>"

text \<open>The life of the table: connections come, open channels and are dropped.\<close>

datatype 'hd registry_event =
    NewClient
  | OpenSession nat nat 'hd
  | DropClient nat

text \<open>Beside the table, the ids of the live connections. The keys of the handlers do not matter.\<close>

inductive registry_step ::
  "'hd registry \<times> nat set \<Rightarrow> 'hd registry_event \<Rightarrow> 'hd registry \<times> nat set \<Rightarrow> bool"
where
  connect: "new_client r = (r', h :: unit handler) \<Longrightarrow> registry_step (r, live) NewClient (r', insert (h_id h) live)"
| opened: "i \<in> live \<Longrightarrow> h_id (h :: unit handler) = i \<Longrightarrow>
    registry_step (r, live) (OpenSession i channel sh) (channel_open_session channel sh h r, live)"
| closed: "i \<in> live \<Longrightarrow> h_id (h :: unit handler) = i \<Longrightarrow>
    registry_step (r, live) (DropClient i) (drop_handler h r, live - {i})"

inductive_cases registry_stepE: "registry_step a e b"

inductive registry_reachable :: "nat \<Rightarrow> 'hd registry \<times> nat set \<Rightarrow> bool" where
  init: "registry_reachable 0 (registry_new, {})"
| step: "registry_reachable n a \<Longrightarrow> registry_step a e b \<Longrightarrow> n < 2 ^ 64 - 1
    \<Longrightarrow> registry_reachable (Suc n) b"

definition registry_inv :: "nat \<Rightarrow> 'hd registry \<times> nat set \<Rightarrow> bool" where
  "registry_inv n x \<longleftrightarrow>
     (\<forall>i \<in> snd x. 0 < i \<and> i \<le> unat (client_ids (fst x)))
     \<and> (\<forall>e \<in> set (clients (fst x)). fst e \<in> snd x) \<and> distinct (map fst (clients (fst x)))
     \<and> unat (client_ids (fst x)) \<le> n"

lemma distinct_map_insert: "distinct (map fst m) \<Longrightarrow> distinct (map fst (map_insert k v m))"
  by (auto simp: map_insert_def distinct_map_filter)

lemma registry_inv_step:
  assumes "registry_step a e b" and "registry_inv n a" and "n < 2 ^ 64 - 1"
  shows "registry_inv (Suc n) b"
  using assms(1,2)
proof (cases rule: registry_step.cases)
  case (connect r r' h live)
  have "client_ids r \<noteq> - 1"
    using assms(2,3) connect(1)
    by (auto simp: registry_inv_def unsigned_minus_1_eq_mask mask_eq_exp_minus_1)
  then have "unat (client_ids r + 1) = unat (client_ids r) + 1"
    by (rule unat_inc)
  with connect assms(2) show ?thesis
    by (auto simp: registry_inv_def new_client_def new_handler_def Let_def)
next
  case (opened i live h r channel sh)
  with assms(2) show ?thesis
    by (auto simp: registry_inv_def channel_open_session_def distinct_map_insert)
      (auto simp: map_insert_def)
next
  case (closed i live h r)
  with assms(2) show ?thesis
    by (auto simp: registry_inv_def drop_handler_def map_remove_def distinct_map_filter)
qed

lemma registry_inv_reachable: "registry_reachable n x \<Longrightarrow> registry_inv n x"
proof (induction rule: registry_reachable.induct)
  case init
  then show ?case by (simp add: registry_inv_def registry_new_def)
next
  case (step n a e b)
  then show ?case by (blast intro: registry_inv_step)
qed

section \<open>Properties\<close>



text \<open>The server starts only with its key (and its certificate, where one is configured),
  offers exactly password and public key, closes idle connections after five seconds and
  allows three attempts; a key or certificate that cannot be loaded ends the program.\<close>

theorem ssh_config_fixed:
  "ssh_config load_key load_cert cfg =
    (if (\<exists>e. load_key (ssh_private_key cfg) = Inl e)
        \<or> (\<exists>p e. certificate cfg = Some p \<and> load_cert p = Inl e)
     then Panic ''failed''
     else Ok \<lparr>inactivity_timeout = Some 5, auth_rejection_time = 3, auth_rejection_time_initial = None,
       max_auth_attempts = 3, methods = [PasswordMethod, PublicKeyMethod],
       keys = [projr (load_key (ssh_private_key cfg))],
       certificates = (case certificate cfg of None \<Rightarrow> [] | Some p \<Rightarrow> [projr (load_cert p)])\<rparr>)"
  by (auto simp: ssh_config_def Let_def split: sum.splits option.splits)

end
