(* ===== verification/Deployment.thy ===== *)
theory Deployment
  imports Ssh_Server Ca_Client Reference_Crates
begin

text \<open>
  The whole system: the accept loop of the SSH server with its table of sessions, all its
  connections, the client they share and the authority behind the socket. Connections are
  interleaved callback by callback; a callback that asks the authority runs
  \<open>send_request\<close> against the server of \<open>Ca_Server\<close> over an undisturbed socket, on the files
  and the clock of that moment. A request on which the server panics ends the server, and
  every later connect is refused. (The finer interleaving of the requests themselves is the
  subject of \<open>Ipc_System\<close>.)
\<close>

section \<open>Callbacks as a function\<close>

text \<open>
  The relation \<open>session_step\<close> leaves open what the authority answers. For a given authority
  a callback is a function: the session after it, and the actions it took.
\<close>

fun callback_of ::
  "bool \<Rightarrow> authenticator list \<Rightarrow> ('rk \<Rightarrow> string + string) \<Rightarrow> ('pk, 'kd, 'sk, 'b, 'c) ssh_key_crate
    \<Rightarrow> ('pk, 'c) ca_call \<Rightarrow> ('rk, 'pk, 'c) session \<Rightarrow> 'rk event
    \<Rightarrow> ('rk, 'pk, 'c) session \<times> 'pk action list"
where
  "callback_of test_auth auths rk_print K ask s (PasswordAttempt user pw) =
     (case auth_password test_auth auths user pw (s_handler s) of
        (h, r) \<Rightarrow>
          (s\<lparr>s_handler := h, s_alive := goes_on r,
             s_grant := (if r = Done Accept then Some (ByPassword user pw) else None)\<rparr>, []))"
| "callback_of test_auth auths rk_print K ask s (KeyAttempt user k) =
     (case auth_publickey rk_print K ask user k (s_handler s) of
        (h, r, acts) \<Rightarrow>
          (s\<lparr>s_handler := h, s_alive := goes_on r,
             s_grant := (if r = Done Accept then Some (ByKey k (the (h_username h))) else None),
             s_asked := s_asked s @ asked_in ask acts\<rparr>, acts))"
| "callback_of test_auth auths rk_print K ask s (Data ch d) =
     (case data K ask ch d (s_handler s) of
        (r, acts) \<Rightarrow>
          (s\<lparr>s_alive := goes_on r \<and> \<not> disconnects acts, s_asked := s_asked s @ asked_in ask acts\<rparr>,
           acts))"
| "callback_of test_auth auths rk_print K ask s (Exec ch d) =
     (case exec_request rk_print K ask ch d (s_handler s) of
        (r, acts) \<Rightarrow>
          (s\<lparr>s_alive := goes_on r \<and> \<not> disconnects acts, s_asked := s_asked s @ asked_in ask acts\<rparr>,
           acts))"

text \<open>russh calls back for authentication before a login and for channels after it.\<close>

fun enabled :: "('rk, 'pk, 'c) session \<Rightarrow> 'rk event \<Rightarrow> bool" where
  "enabled s (PasswordAttempt user pw) = (s_alive s \<and> s_grant s = None)"
| "enabled s (KeyAttempt user k) = (s_alive s \<and> s_grant s = None)"
| "enabled s (Data ch d) = (s_alive s \<and> s_grant s \<noteq> None)"
| "enabled s (Exec ch d) = (s_alive s \<and> s_grant s \<noteq> None)"

lemma callback_of_step:
  assumes "enabled s e"
  shows "session_step test_auth auths rk_print K s e
    (fst (callback_of test_auth auths rk_print K ask s e))"
proof (cases e)
  case (PasswordAttempt user pw)
  obtain h r where "auth_password test_auth auths user pw (s_handler s) = (h, r)" by force
  with assms PasswordAttempt session_step.password [OF _ _ this, where rk_print = rk_print and K = K] show ?thesis by simp
next
  case (KeyAttempt user k)
  obtain h r acts where "auth_publickey rk_print K ask user k (s_handler s) = (h, r, acts)"
    by (metis prod_cases3)
  with assms KeyAttempt session_step.key [OF _ _ this] show ?thesis by simp
next
  case (Data ch d)
  obtain r acts where "data K ask ch d (s_handler s) = (r, acts)" by force
  with assms Data session_step.data [OF _ _ this] show ?thesis by simp
next
  case (Exec ch d)
  obtain r acts where "exec_request rk_print K ask ch d (s_handler s) = (r, acts)" by force
  with assms Exec session_step.exec [OF _ _ this] show ?thesis by simp
qed

lemma callback_of_asked:
  "callback_of test_auth auths rk_print K ask s e = (s', acts) \<Longrightarrow>
    s_asked s' = s_asked s @ asked_in ask acts"
  by (cases e) (auto split: prod.splits)

lemma callback_of_asks_once:
  assumes "callback_of test_auth auths rk_print K ask s e = (s', acts)"
  shows "length (asked_in ask acts) \<le> 1"
proof (cases e)
  case (PasswordAttempt user pw)
  with assms show ?thesis by (auto split: prod.splits)
next
  case (KeyAttempt user k)
  then obtain h r where "auth_publickey rk_print K ask user k (s_handler s) = (h, r, acts)"
    using assms by (auto split: prod.splits)
  then show ?thesis
    by (auto simp: auth_publickey_def Let_def
        split: sum.splits option.splits outcome.splits ca_response.splits)
next
  case (Data ch d)
  then obtain r where "data K ask ch d (s_handler s) = (r, acts)"
    using assms by (auto split: prod.splits)
  from asked_in_data [OF this] show ?thesis by auto
next
  case (Exec ch d)
  then obtain r where "exec_request rk_print K ask ch d (s_handler s) = (r, acts)"
    using assms by (auto split: prod.splits)
  from asked_in_exec [OF this] show ?thesis by auto
qed

text \<open>What is sent on a channel is a certificate that the authority just answered.\<close>

definition certificates_only ::
  "('pk, 'kd, 'sk, 'b, 'c) ssh_key_crate \<Rightarrow> ('pk, 'c) ca_call \<Rightarrow> 'pk action list \<Rightarrow> bool" where
  "certificates_only K ask acts \<longleftrightarrow>
     (\<forall>ch txt. ChannelData ch txt \<in> set acts \<longrightarrow>
        (\<exists>req c. (req, Some (Ok (SignedCertificate c))) \<in> set (asked_in ask acts)
           \<and> cert_to_openssh K c = Inr txt))"

lemma certificates_only_sign_and_send:
  "sign_and_send K ask req ch = (r, acts) \<Longrightarrow> certificates_only K ask acts"
  by (auto simp: certificates_only_def sign_and_send_def send_sign_request_def send_cert_and_close_def
      split: option.splits outcome.splits ca_response.splits sum.splits)

lemma certificates_only_other:
  "\<forall>ch txt. ChannelData ch txt \<notin> set acts \<Longrightarrow> certificates_only K ask acts"
  by (simp add: certificates_only_def)

lemma parse_openssh_key_acts:
  "parse_openssh_key K raw = (k, acts) \<Longrightarrow> (\<forall>ch txt. ChannelData ch txt \<notin> set acts) \<and> (k \<noteq> None \<longrightarrow> acts = [])"
  by (cases "pk_from_openssh K raw") (auto simp: parse_openssh_key_def key_from_openssh_def)

lemma certificates_only_data:
  "data K ask ch d h = (r, acts) \<Longrightarrow> certificates_only K ask acts"
  by (auto simp: data_def handler_sign_user_key_def
      intro: certificates_only_sign_and_send certificates_only_other
      dest!: parse_openssh_key_acts split: option.splits if_splits prod.splits)

lemma certificates_only_exec:
  "exec_request rk_print K ask ch d h = (r, acts) \<Longrightarrow> certificates_only K ask acts"
  by (auto simp: exec_request_def handle_sign_host_key_def Let_def
      intro: certificates_only_sign_and_send certificates_only_other
      dest!: parse_openssh_key_acts split: option.splits if_splits prod.splits sum.splits)

lemma callback_of_sends:
  assumes "callback_of test_auth auths rk_print K ask s e = (s', acts)"
  shows "certificates_only K ask acts"
proof (cases e)
  case (PasswordAttempt user pw)
  with assms show ?thesis by (auto simp: certificates_only_def split: prod.splits)
next
  case (KeyAttempt user k)
  then obtain h r where "auth_publickey rk_print K ask user k (s_handler s) = (h, r, acts)"
    using assms by (auto split: prod.splits)
  then show ?thesis
    by (intro certificates_only_other) (auto simp: auth_publickey_def Let_def
        split: sum.splits option.splits outcome.splits ca_response.splits)
next
  case (Data ch d)
  with assms show ?thesis
    by (auto split: prod.splits intro: certificates_only_data)
next
  case (Exec ch d)
  with assms show ?thesis
    by (auto split: prod.splits intro: certificates_only_exec)
qed

section \<open>The way to the authority\<close>

text \<open>
  Client, server, and whether the server still runs. \<open>run\<close> ends on a panic and on an answer
  that cannot be serialised; from then on nothing listens on the socket.
\<close>

type_synonym 'sk link = "client \<times> 'sk server \<times> bool"

definition still_runs :: "'c served \<Rightarrow> bool" where
  "still_runs o' = (case o' of ServeError e \<Rightarrow> False | ServePanic m \<Rightarrow> False | _ \<Rightarrow> True)"

definition survives ::
  "('pk, 'kd, 'sk, 'b, 'c) ca_env \<Rightarrow> ('pk, 'c) ipc_crates \<Rightarrow> u32 \<Rightarrow> fs \<Rightarrow> readings \<Rightarrow> client \<times> 'sk server
    \<Rightarrow> 'pk ca_request \<Rightarrow> bool"
where
  "survives env J uid fs rd cs req =
     (case snd (next_counter (fst cs)) of
        Ok n \<Rightarrow>
          (case encode_request J (c_auth_token (fst cs)) n req of
             Ok out \<Rightarrow> still_runs (snd (serve env J uid fs rd (snd cs) (client_conn uid out)))
           | _ \<Rightarrow> True)
      | _ \<Rightarrow> True)"

definition connection_refused :: io_error where
  "connection_refused = OtherIo ''Connection refused (os error 111)''"

definition link_ask ::
  "('pk, 'kd, 'sk, 'b, 'c) ca_env \<Rightarrow> ('pk, 'c) ipc_crates \<Rightarrow> u32 \<Rightarrow> fs \<Rightarrow> readings \<Rightarrow> 'sk link
    \<Rightarrow> ('pk, 'c) ca_call"
where
  "link_ask env J uid fs rd l req =
     (case l of (c, srv, up) \<Rightarrow>
        if up then snd (rpc env J uid fs rd (c, srv) req)
        else snd (send_request J (Some connection_refused) None (\<lambda>_. ([], True)) c req))"

definition link_after ::
  "('pk, 'kd, 'sk, 'b, 'c) ca_env \<Rightarrow> ('pk, 'c) ipc_crates \<Rightarrow> u32 \<Rightarrow> fs \<Rightarrow> readings \<Rightarrow> 'sk link
    \<Rightarrow> 'pk ca_request \<Rightarrow> 'sk link"
where
  "link_after env J uid fs rd l req =
     (case l of (c, srv, up) \<Rightarrow>
        if up
        then (case fst (rpc env J uid fs rd (c, srv) req) of
                (c', srv') \<Rightarrow> (c', srv', survives env J uid fs rd (c, srv) req))
        else (c, srv, False))"

text \<open>No answer is as long as the length prefix can count.\<close>

definition addressable_answers :: "('pk, 'c) ipc_crates \<Rightarrow> bool" where
  "addressable_answers J \<longleftrightarrow> (\<forall>r s. response_to_string J r = Inr s \<longrightarrow> length s < 2 ^ 32)"

text \<open>
  What the client reads is what the server answered, in full: a response other than an error
  is the result of \<open>handle_request\<close> for the very request that was sent.
\<close>

lemma read_response_frame:
  assumes "json_roundtrip J" and "addressable_answers J"
    and "response_to_string J r = Inr rs" and "read_response J (frame rs) eof = Some (Ok r')"
  shows "r' = r"
proof -
  have rs: "valid_utf8 rs" "response_from_str J rs = Inr r"
    using assms(1,3) by (auto simp: json_roundtrip_def)
  obtain b where b: "read_frame (frame rs) eof = Got b"
    using assms(4) by (auto simp: read_response_def split: awaited.splits)
  have len: "unat (payload_len rs) = length rs"
    using assms(2,3) by (intro payload_len_exact) (auto simp: addressable_answers_def)
  have "length b = unat (payload_len rs)"
    using read_frame_Got [OF b] by (simp add: frame_def wire_simps)
  moreover have "length b \<le> 65536"
    using read_frame_Got [OF b] by blast
  ultimately have "length rs \<le> 65536"
    using len by simp
  then have "b = rs"
    using b wire.dec_enc [of rs "[]" eof] by simp
  with assms(4) b rs show ?thesis
    by (simp add: read_response_def from_utf8_def)
qed

lemma read_response_empty: "read_response J [] eof \<noteq> Some (Ok r)"
  by (simp add: read_response_def read_frame_def read_exact_def)

lemma rpc_answer_real:
  assumes "json_roundtrip J" and "addressable J" and "addressable_answers J"
    and "snd (rpc env J uid fs rd (c, srv) req) = Some (Ok r)" and "\<And>m. r \<noteq> ErrorResponse m"
  shows "handle_request env fs (srv_ca srv) rd req = Ok r"
proof -
  have send: "snd (send_request J None None (server_peer env J uid fs rd srv) c req) = Some (Ok r)"
    using assms(4) by (simp add: rpc_def Let_def case_prod_beta)
  then obtain c' n out where n: "next_counter c = (c', Ok n)"
    and enc: "encode_request J (c_auth_token c') n req = Ok out"
    and read: "(case server_peer env J uid fs rd srv out of (inp, closed) \<Rightarrow> read_response J inp closed)
      = Some (Ok r)"
    by (auto simp: send_request_def split: prod.splits outcome.splits)
  let ?o = "snd (serve env J uid fs rd srv (client_conn uid out))"
  obtain r' b where o': "?o = Served r' b" and b: "read_response J b True = Some (Ok r)"
    using read by (auto simp: server_peer_def read_response_empty split: served.splits)
  have responds: "r = r''" if resp: "?o = respond J (client_conn uid out) r''" for r''
  proof -
    obtain rs where rs: "response_to_string J r'' = Inr rs"
      using o' resp by (cases "response_to_string J r''") (auto simp: respond_def)
    then have "r' = r''" and "b = frame rs"
      using o' resp by (auto simp: respond_def client_conn_def)
    with read_response_frame [OF assms(1,3) rs] b show ?thesis by simp
  qed
  show ?thesis
  proof (cases "admitted J uid srv (client_conn uid out)")
    case None
    then obtain m where "?o = respond J (client_conn uid out) (ErrorResponse m)"
      using serve_not_admitted(2) [OF None, of env fs rd] o' by auto
    with responds assms(5) show ?thesis by blast
  next
    case (Some q)
    then have "request q = req"
      using serve_encoded [OF assms(1,2) enc, of uid srv] by (auto split: if_splits)
    with serve_admitted [OF Some, of env fs rd] o' have
      "?o = (case handle_request env fs (srv_ca srv) rd req of
          Ok resp \<Rightarrow> respond J (client_conn uid out) resp
        | Err e \<Rightarrow> respond J (client_conn uid out) (ErrorResponse (error_display e))
        | Panic m \<Rightarrow> ServePanic m)"
      by simp
    then show ?thesis
      using o' responds assms(5)
      by (cases "handle_request env fs (srv_ca srv) rd req") auto
  qed
qed

lemma link_ask_real:
  assumes "json_roundtrip J" and "addressable J" and "addressable_answers J"
    and "link_ask env J uid fs rd (c, srv, up) req = Some (Ok r)" and "\<And>m. r \<noteq> ErrorResponse m"
  shows "handle_request env fs (srv_ca srv) rd req = Ok r"
  using assms(4) rpc_answer_real [OF assms(1-3) _ assms(5)]
  by (auto simp: link_ask_def send_request_def split: if_splits)

lemma link_after_keeps_ca:
  "link_after env J uid fs rd (c, srv, up) req = (c', srv', up') \<Longrightarrow> srv_ca srv' = srv_ca srv"
  using rpc_server_cases [of env J uid fs rd "(c, srv)" req]
  by (auto simp: link_after_def serve_keeps split: if_splits prod.splits)

section \<open>Deployments\<close>

text \<open>
  Connections are numbered in the order they were accepted; \<open>d_out\<close> is everything the
  sessions did, with the connection it was done on.
\<close>

record ('rk, 'pk, 'c, 'sk, 'hd) deployment =
  d_registry :: "'hd registry"
  d_sessions :: "('rk, 'pk, 'c) session list"
  d_dropped :: "nat set"
  d_link :: "'sk link"
  d_out :: "(nat \<times> 'pk action) list"

definition deployment_start :: "string \<Rightarrow> string \<Rightarrow> 'sk authority \<Rightarrow> ('rk, 'pk, 'c, 'sk, 'hd) deployment" where
  "deployment_start path tok auth =
     \<lparr>d_registry = registry_new, d_sessions = [], d_dropped = {},
      d_link = (client_new path tok, server_new path auth tok, True), d_out = []\<rparr>"

definition present :: "('rk, 'pk, 'c, 'sk, 'hd) deployment \<Rightarrow> nat \<Rightarrow> bool" where
  "present D i \<longleftrightarrow> i < length (d_sessions D) \<and> i \<notin> d_dropped D"

inductive deployment_step ::
  "bool \<Rightarrow> authenticator list \<Rightarrow> ('rk \<Rightarrow> string + string) \<Rightarrow> ('pk, 'kd, 'sk, 'b, 'c) ca_env
    \<Rightarrow> ('pk, 'c) ipc_crates \<Rightarrow> u32
    \<Rightarrow> ('rk, 'pk, 'c, 'sk, 'hd) deployment \<Rightarrow> ('rk, 'pk, 'c, 'sk, 'hd) deployment \<Rightarrow> bool"
  for test_auth auths rk_print env J uid
where
  accept: "new_client (d_registry D) = (r, h :: 'rk handler) \<Longrightarrow>
    deployment_step test_auth auths rk_print env J uid D
      (D\<lparr>d_registry := r, d_sessions := d_sessions D @ [session_start (h_id h)]\<rparr>)"
| channel: "\<lbrakk>present D i; s_alive (d_sessions D ! i); s_grant (d_sessions D ! i) \<noteq> None\<rbrakk> \<Longrightarrow>
    deployment_step test_auth auths rk_print env J uid D
      (D\<lparr>d_registry := channel_open_session ch sh (s_handler (d_sessions D ! i)) (d_registry D)\<rparr>)"
| close: "present D i \<Longrightarrow>
    deployment_step test_auth auths rk_print env J uid D
      (D\<lparr>d_registry := drop_handler (s_handler (d_sessions D ! i)) (d_registry D),
         d_dropped := insert i (d_dropped D)\<rparr>)"
| event: "\<lbrakk>present D i; enabled (d_sessions D ! i) e;
      callback_of test_auth auths rk_print (crate env) (link_ask env J uid fs rd (d_link D))
        (d_sessions D ! i) e = (s, acts)\<rbrakk> \<Longrightarrow>
    deployment_step test_auth auths rk_print env J uid D
      (D\<lparr>d_sessions := (d_sessions D)[i := s],
         d_link := foldl (link_after env J uid fs rd) (d_link D)
           (map fst (asked_in (link_ask env J uid fs rd (d_link D)) acts)),
         d_out := d_out D @ map (Pair i) acts\<rparr>)"

inductive_cases deployment_stepE: "deployment_step test_auth auths rk_print env J uid D D'"

inductive deployed ::
  "bool \<Rightarrow> authenticator list \<Rightarrow> ('rk \<Rightarrow> string + string) \<Rightarrow> ('pk, 'kd, 'sk, 'b, 'c) ca_env
    \<Rightarrow> ('pk, 'c) ipc_crates \<Rightarrow> u32 \<Rightarrow> string \<Rightarrow> string \<Rightarrow> 'sk authority
    \<Rightarrow> ('rk, 'pk, 'c, 'sk, 'hd) deployment \<Rightarrow> bool"
  for test_auth auths rk_print env J uid path tok auth
where
  start: "deployed test_auth auths rk_print env J uid path tok auth (deployment_start path tok auth)"
| step: "\<lbrakk>deployed test_auth auths rk_print env J uid path tok auth D;
      deployment_step test_auth auths rk_print env J uid D D'\<rbrakk> \<Longrightarrow>
    deployed test_auth auths rk_print env J uid path tok auth D'"

section \<open>The invariant\<close>

text \<open>
  Every connection is a run of its own session, every answer a session got (errors aside) is
  the authority's answer to that request at some moment, and whatever went out on a channel
  is one of the certificates the connection was answered.
\<close>

definition answers_real ::
  "('pk, 'kd, 'sk, 'b, 'c) ca_env \<Rightarrow> 'sk authority \<Rightarrow> ('pk ca_request \<times> 'c ca_response outcome option) list
    \<Rightarrow> bool"
where
  "answers_real env auth l \<longleftrightarrow>
     (\<forall>req r. (req, Some (Ok r)) \<in> set l \<and> (\<forall>m. r \<noteq> ErrorResponse m) \<longrightarrow>
        (\<exists>fs rd. handle_request env fs auth rd req = Ok r))"

definition deployment_inv ::
  "bool \<Rightarrow> authenticator list \<Rightarrow> ('rk \<Rightarrow> string + string) \<Rightarrow> ('pk, 'kd, 'sk, 'b, 'c) ca_env
    \<Rightarrow> 'sk authority \<Rightarrow> ('rk, 'pk, 'c, 'sk, 'hd) deployment \<Rightarrow> bool"
where
  "deployment_inv test_auth auths rk_print env auth D \<longleftrightarrow>
     srv_ca (fst (snd (d_link D))) = auth
     \<and> (\<forall>s \<in> set (d_sessions D). (\<exists>n. session_run test_auth auths rk_print (crate env) n s)
          \<and> answers_real env auth (s_asked s))
     \<and> (\<forall>i ch out. (i, ChannelData ch out) \<in> set (d_out D) \<longrightarrow>
          i < length (d_sessions D)
          \<and> (\<exists>req c. (req, Some (Ok (SignedCertificate c))) \<in> set (s_asked (d_sessions D ! i))
               \<and> cert_to_openssh (crate env) c = Inr out))"

lemma asked_in_answers: "(req, a) \<in> set (asked_in ask acts) \<Longrightarrow> a = ask req"
  by (induction ask acts rule: asked_in.induct) auto

lemma answers_real_link:
  assumes "json_roundtrip J" and "addressable J" and "addressable_answers J"
    and "srv_ca (fst (snd l)) = auth"
  shows "answers_real env auth (asked_in (link_ask env J uid fs rd l) acts)"
proof -
  obtain c srv up where l: "l = (c, srv, up)" by (metis prod_cases3)
  have "handle_request env fs auth rd req = Ok r"
    if "(req, Some (Ok r)) \<in> set (asked_in (link_ask env J uid fs rd l) acts)"
      and "\<forall>m. r \<noteq> ErrorResponse m" for req r
    using asked_in_answers [OF that(1)] that(2) link_ask_real [OF assms(1-3), of env uid fs rd c srv up req r]
      assms(4) l by simp
  then show ?thesis
    unfolding answers_real_def by blast
qed

lemma answers_real_append [simp]:
  "answers_real env auth (a @ b) \<longleftrightarrow> answers_real env auth a \<and> answers_real env auth b"
  by (auto simp: answers_real_def)

lemma link_after_fold_ca:
  "srv_ca (fst (snd (foldl (link_after env J uid fs rd) l reqs))) = srv_ca (fst (snd l))"
proof (induction reqs arbitrary: l)
  case (Cons q reqs)
  obtain c srv up where l: "l = (c, srv, up)" by (metis prod_cases3)
  obtain c' srv' up' where l': "link_after env J uid fs rd l q = (c', srv', up')" by (metis prod_cases3)
  with link_after_keeps_ca l Cons.IH [of "link_after env J uid fs rd l q"] show ?case by fastforce
qed simp

lemma deployment_inv_step:
  assumes "json_roundtrip J" and "addressable J" and "addressable_answers J"
    and "deployment_step test_auth auths rk_print env J uid D D'"
    and "deployment_inv test_auth auths rk_print env auth D"
  shows "deployment_inv test_auth auths rk_print env auth D'"
  using assms(4)
proof (cases rule: deployment_step.cases)
  case (accept r h)
  have "session_run test_auth auths rk_print (crate env) (h_id h) (session_start (h_id h))"
    by (rule session_run.start)
  moreover have "answers_real env auth (s_asked (session_start n))" for n
    by (simp add: answers_real_def session_start_def)
  ultimately show ?thesis
    using accept(1) assms(5) by (fastforce simp: deployment_inv_def nth_append)
next
  case (channel i ch sh)
  with assms(5) show ?thesis by (simp add: deployment_inv_def)
next
  case (close i)
  with assms(5) show ?thesis by (simp add: deployment_inv_def)
next
  case (event i e fs rd s acts)
  let ?ask = "link_ask env J uid fs rd (d_link D)" and ?old = "d_sessions D ! i"
  have i: "i < length (d_sessions D)"
    using event(2) by (simp add: present_def)
  then have old: "\<exists>n. session_run test_auth auths rk_print (crate env) n ?old"
      "answers_real env auth (s_asked ?old)"
    using assms(5) by (auto simp: deployment_inv_def)
  have run: "\<exists>n. session_run test_auth auths rk_print (crate env) n s"
    using old(1) callback_of_step [OF event(3)] event(4) session_run.step by (metis fst_conv)
  have asked: "s_asked s = s_asked ?old @ asked_in ?ask acts"
    using event(4) by (rule callback_of_asked)
  have ca: "srv_ca (fst (snd (d_link D))) = auth"
    using assms(5) by (simp add: deployment_inv_def)
  have real: "answers_real env auth (s_asked s)"
    using asked old(2) answers_real_link [OF assms(1-3) ca] by simp
  have sent: "\<exists>req c. (req, Some (Ok (SignedCertificate c))) \<in> set (s_asked s)
      \<and> cert_to_openssh (crate env) c = Inr out"
    if "ChannelData ch out \<in> set acts" for ch out
    using callback_of_sends [OF event(4)] that asked by (fastforce simp: certificates_only_def)
  have kept: "\<exists>req c. (req, Some (Ok (SignedCertificate c))) \<in> set (s_asked (d_sessions D ! j))
      \<and> cert_to_openssh (crate env) c = Inr out" and bound: "j < length (d_sessions D)"
    if "(j, ChannelData ch out) \<in> set (d_out D)" for j ch out
    using assms(5) that by (auto simp: deployment_inv_def)
  have "\<exists>req c. (req, Some (Ok (SignedCertificate c))) \<in> set (s_asked ((d_sessions D)[i := s] ! j))
      \<and> cert_to_openssh (crate env) c = Inr out"
    if "(j, ChannelData ch out) \<in> set (d_out D @ map (Pair i) acts)" for j ch out
  proof (cases "j = i")
    case True
    with that have "(i, ChannelData ch out) \<in> set (d_out D) \<or> ChannelData ch out \<in> set acts"
      by auto
    with sent kept True i asked show ?thesis by fastforce
  next
    case False
    with that kept show ?thesis by auto
  qed
  moreover have "j < length (d_sessions D)"
    if "(j, ChannelData ch out) \<in> set (d_out D @ map (Pair i) acts)" for j ch out
    using that bound i by auto
  moreover have "(\<exists>n. session_run test_auth auths rk_print (crate env) n s') \<and> answers_real env auth (s_asked s')"
    if "s' \<in> set ((d_sessions D)[i := s])" for s'
    using that run real assms(5) set_update_subset_insert [of "d_sessions D" i s]
    by (auto simp: deployment_inv_def)
  ultimately show ?thesis
    using ca by (simp add: event(1) deployment_inv_def link_after_fold_ca)
qed

lemma deployed_inv:
  assumes "json_roundtrip J" and "addressable J" and "addressable_answers J"
    and "deployed test_auth auths rk_print env J uid path tok auth D"
  shows "deployment_inv test_auth auths rk_print env auth D"
  using assms(4)
proof (induction rule: deployed.induct)
  case start
  then show ?case
    by (simp add: deployment_inv_def deployment_start_def server_new_def)
next
  case (step D D')
  then show ?case
    by (blast intro: deployment_inv_step [OF assms(1-3)])
qed

section \<open>Client and server stay in step\<close>

text \<open>The requests made so far; while they are fewer than \<open>2 ^ 64\<close>, the counter has not wrapped.\<close>

definition requests_made :: "('rk, 'pk, 'c, 'sk, 'hd) deployment \<Rightarrow> nat" where
  "requests_made D = length (asked_in (\<lambda>_. None :: 'c ca_response outcome option) (map snd (d_out D)))"

lemma length_asked_in: "length (asked_in ask acts) = length (asked_in ask' acts)"
  by (induction ask acts rule: asked_in.induct) auto

lemma requests_made_append:
  "requests_made (D\<lparr>d_out := d_out D @ map (Pair i) acts\<rparr>) = requests_made D + length (asked_in ask acts)"
  by (simp add: requests_made_def comp_def) (rule length_asked_in)

definition link_inv :: "string \<Rightarrow> nat \<Rightarrow> 'sk link \<Rightarrow> bool" where
  "link_inv tok n l \<longleftrightarrow>
     (case l of (c, srv, up) \<Rightarrow>
        in_sync (c, srv) \<and> c_auth_token c = tok \<and> unat (c_counter c) \<le> n)"

lemma link_inv_after:
  assumes "json_roundtrip J" and "addressable J" and "link_inv tok n l" and "n < 2 ^ 64 - 1"
  shows "link_inv tok (Suc n) (link_after env J uid fs rd l req)"
proof -
  obtain c srv up where l: "l = (c, srv, up)" by (metis prod_cases3)
  have ne: "c_counter c \<noteq> - 1"
    using assms(3,4) l by (auto simp: link_inv_def unsigned_minus_1_eq_mask mask_eq_exp_minus_1)
  obtain c' srv' where r: "fst (rpc env J uid fs rd (c, srv) req) = (c', srv')" by force
  have "in_sync (c', srv')"
    using in_sync_step [OF assms(1,2), of "(c, srv)" env uid fs rd req] assms(3) l ne r
    by (simp add: link_inv_def)
  moreover have "c' = fst (next_counter c)"
    using rpc_client [of env J uid fs rd "(c, srv)" req] r by simp
  moreover have "unat (c_counter c + 1) = unat (c_counter c) + 1"
    using ne by (rule unat_inc)
  ultimately show ?thesis
    using assms(3) l r by (simp add: link_inv_def link_after_def)
qed

lemma deployed_link_inv:
  assumes "json_roundtrip J" and "addressable J"
    and "deployed test_auth auths rk_print env J uid path tok auth D"
    and "requests_made D < 2 ^ 64"
  shows "link_inv tok (requests_made D) (d_link D)"
  using assms(3,4)
proof (induction rule: deployed.induct)
  case start
  then show ?case
    by (simp add: link_inv_def deployment_start_def in_sync_def client_new_def server_new_def)
next
  case (step D D')
  from step.hyps(2) show ?case
  proof (cases rule: deployment_step.cases)
    case (event i e fs rd s acts)
    let ?ask = "link_ask env J uid fs rd (d_link D)"
    have made: "requests_made D' = requests_made D + length (asked_in ?ask acts)"
      using requests_made_append [of D i acts ?ask] by (simp add: event(1) requests_made_def)
    then have old: "link_inv tok (requests_made D) (d_link D)"
      using step by simp
    consider "asked_in ?ask acts = []" | x where "asked_in ?ask acts = [x]"
      using callback_of_asks_once [OF event(4)]
      by (cases "asked_in ?ask acts") auto
    then show ?thesis
    proof cases
      case 1
      with old made show ?thesis by (simp add: event(1))
    next
      case (2 x)
      have "requests_made D < 2 ^ 64 - 1"
        using 2 made step.prems by simp
      from link_inv_after [OF assms(1,2) old this] 2 made show ?thesis
        by (simp add: event(1))
    qed
  qed (use step in \<open>simp_all add: requests_made_def\<close>)
qed

lemma link_direct:
  assumes "json_roundtrip J" and "ct_eq_exact J" and "in_sync (c, srv)" and "c_counter c \<noteq> - 1"
    and "request_to_string J \<lparr>token = c_auth_token c, counter = c_counter c + 1, request = req\<rparr> = Inr js"
    and "length js \<le> 65536"
    and "local_answer (handle_request env fs (srv_ca srv) rd req) = Some resp"
    and "response_to_string J resp = Inr rs" and "length rs \<le> 65536"
  shows "link_ask env J uid fs rd (c, srv, True) req = Some (Ok resp)"
    and "link_after env J uid fs rd (c, srv, True) req
      = (c\<lparr>c_counter := c_counter c + 1\<rparr>, srv\<lparr>last_counter := c_counter c + 1\<rparr>, True)"
  using rpc_direct [OF assms, of uid] served_direct [OF assms(1-8)]
  by (simp_all add: link_ask_def link_after_def survives_def still_runs_def)

lemma link_ask_direct:
  assumes "json_roundtrip J" and "ct_eq_exact J" and "link_inv tok n (c, srv, up)" and "n < 2 ^ 64 - 1"
    and "up" and "request_to_string J \<lparr>token = tok, counter = c_counter c + 1, request = req\<rparr> = Inr js"
    and "length js \<le> 65536"
    and "local_answer (handle_request env fs (srv_ca srv) rd req) = Some resp"
    and "response_to_string J resp = Inr rs" and "length rs \<le> 65536"
  shows "link_ask env J uid fs rd (c, srv, up) req = Some (Ok resp)"
proof -
  have sync: "in_sync (c, srv)" and t: "c_auth_token c = tok" and ne: "c_counter c \<noteq> - 1"
    using assms(3,4) by (auto simp: link_inv_def unsigned_minus_1_eq_mask mask_eq_exp_minus_1)
  have js: "request_to_string J \<lparr>token = c_auth_token c, counter = c_counter c + 1, request = req\<rparr> = Inr js"
    using assms(6) t by simp
  from link_direct(1) [OF assms(1,2) sync ne js assms(7-10), of uid] assms(5) show ?thesis
    by simp
qed

section \<open>A concrete deployment\<close>

text \<open>
  One socket, two connections: \<open>alice\<close> logs in with her password and sends her key, then
  the host \<open>web\<close> logs in with its key and asks for its certificate.
\<close>

abbreviation example_key :: ref_key where
  "example_key \<equiv> (''ssh-ed25519'', ''AAAA'', ''me'')"

definition example_wire :: "(ref_key, bytes \<times> (string \<times> string) cert_fields) ipc_crates" where
  "example_wire = table_json
     [(example_message ''secret'' 1 example_user_request, ''q1''),
      (example_message ''secret'' 2 (CheckPublicKey example_key), ''q2''),
      (example_message ''secret'' 3 example_host_request, ''q3'')]
     [(SignedCertificate example_cert, ''cert''), (SignedCertificate example_host_cert, ''host''),
      (KeyFound (Some ''web''), ''found''), (ErrorResponse ''authentication failed'', ''failed'')]"

lemma example_wire_laws:
  "json_roundtrip example_wire" "ct_eq_exact example_wire" "addressable example_wire"
  "addressable_answers example_wire"
proof -
  show "json_roundtrip example_wire"
    unfolding example_wire_def
    by (rule table_json_roundtrip) (simp_all, code_simp+)
  show "ct_eq_exact example_wire"
    by (simp add: example_wire_def table_json_ct_eq)
  show "addressable example_wire" and "addressable_answers example_wire"
    by (auto simp: addressable_def addressable_answers_def example_wire_def table_json_def split: if_splits)
qed

definition example_link :: "u64 \<Rightarrow> bytes link" where
  "example_link n = ((client_new ''/run/ca.sock'' ''secret'')\<lparr>c_counter := n\<rparr>,
     example_server\<lparr>last_counter := n\<rparr>, True)"

text \<open>One request of the script: its answer, and the link moved on by one.\<close>

lemma example_link_request:
  assumes "request_to_string example_wire \<lparr>token = ''secret'', counter = n + 1, request = req\<rparr> = Inr js"
    and "length js \<le> 65536" and "n \<noteq> - 1"
    and "handle_request example_env example_fs example_authority example_readings req = Ok resp"
    and "response_to_string example_wire resp = Inr rs" and "length rs \<le> 65536"
  shows "link_ask example_env example_wire 1000 example_fs example_readings (example_link n) req
      = Some (Ok resp)"
    and "link_after example_env example_wire 1000 example_fs example_readings (example_link n) req
      = example_link (n + 1)"
proof -
  let ?c = "(client_new ''/run/ca.sock'' ''secret'')\<lparr>c_counter := n\<rparr>"
  let ?srv = "example_server\<lparr>last_counter := n\<rparr>"
  have sync: "in_sync (?c, ?srv)" and ne: "c_counter ?c \<noteq> - 1"
    using assms(3) by (simp_all add: in_sync_def client_new_def example_server_def server_new_def)
  have q: "request_to_string example_wire
      \<lparr>token = c_auth_token ?c, counter = c_counter ?c + 1, request = req\<rparr> = Inr js"
    using assms(1) by (simp add: client_new_def)
  have l: "local_answer (handle_request example_env example_fs (srv_ca ?srv) example_readings req) = Some resp"
    using assms(4) by (simp add: local_answer_def example_server_def server_new_def)
  note d = link_direct [OF example_wire_laws(1,2) sync ne q assms(2) l assms(5,6), where uid = 1000]
  show "link_ask example_env example_wire 1000 example_fs example_readings (example_link n) req
      = Some (Ok resp)"
    using d(1) by (simp add: example_link_def)
  show "link_after example_env example_wire 1000 example_fs example_readings (example_link n) req
      = example_link (n + 1)"
    using d(2) by (simp add: example_link_def)
qed

lemma example_check:
  "handle_request example_env example_fs example_authority example_readings (CheckPublicKey example_key)
    = Ok (KeyFound (Some ''web''))"
proof -
  have "pk_to_openssh (crate example_env) example_key = Inr ''ssh-ed25519 AAAA me''"
    and "check_public_key example_env example_fs example_authority ''ssh-ed25519 AAAA me'' = Ok (Some ''web'')"
    by code_simp+
  then show ?thesis by simp
qed

lemma example_certs_differ: "example_host_cert \<noteq> example_cert"
  by (simp add: example_cert_def example_host_cert_def)

lemma example_requests:
  shows "link_ask example_env example_wire 1000 example_fs example_readings (example_link 0)
      example_user_request = Some (Ok (SignedCertificate example_cert))"
    and "link_after example_env example_wire 1000 example_fs example_readings (example_link 0)
      example_user_request = example_link 1"
    and "link_ask example_env example_wire 1000 example_fs example_readings (example_link 1)
      (CheckPublicKey example_key) = Some (Ok (KeyFound (Some ''web'')))"
    and "link_after example_env example_wire 1000 example_fs example_readings (example_link 1)
      (CheckPublicKey example_key) = example_link 2"
    and "link_ask example_env example_wire 1000 example_fs example_readings (example_link 2)
      example_host_request = Some (Ok (SignedCertificate example_host_cert))"
    and "link_after example_env example_wire 1000 example_fs example_readings (example_link 2)
      example_host_request = example_link 3"
proof -
  have h: "handle_request example_env example_fs example_authority example_readings example_user_request
      = Ok (SignedCertificate example_cert)"
    "handle_request example_env example_fs example_authority example_readings example_host_request
      = Ok (SignedCertificate example_host_cert)"
    using example_sign example_sign_host by (simp_all add: example_user_request_def example_host_request_def)
  have q: "request_to_string example_wire (example_message ''secret'' 1 example_user_request) = Inr ''q1''"
    "request_to_string example_wire (example_message ''secret'' 2 (CheckPublicKey example_key)) = Inr ''q2''"
    "request_to_string example_wire (example_message ''secret'' 3 example_host_request) = Inr ''q3''"
    by (simp_all add: example_wire_def table_json_def example_message_def example_user_request_def
        example_host_request_def)
  have r: "response_to_string example_wire (SignedCertificate example_cert) = Inr ''cert''"
    "response_to_string example_wire (SignedCertificate example_host_cert) = Inr ''host''"
    "response_to_string example_wire (KeyFound (Some ''web'')) = Inr ''found''"
    using example_certs_differ by (simp_all add: example_wire_def table_json_def)
  show "link_ask example_env example_wire 1000 example_fs example_readings (example_link 0)
      example_user_request = Some (Ok (SignedCertificate example_cert))"
    and "link_after example_env example_wire 1000 example_fs example_readings (example_link 0)
      example_user_request = example_link 1"
    using example_link_request [of 0 example_user_request, OF _ _ _ h(1) r(1)] q(1)
    by (simp_all add: example_message_def)
  show "link_ask example_env example_wire 1000 example_fs example_readings (example_link 1)
      (CheckPublicKey example_key) = Some (Ok (KeyFound (Some ''web'')))"
    and "link_after example_env example_wire 1000 example_fs example_readings (example_link 1)
      (CheckPublicKey example_key) = example_link 2"
    using example_link_request [of 1 "CheckPublicKey example_key", OF _ _ _ example_check r(3)] q(2)
    by (simp_all add: example_message_def)
  show "link_ask example_env example_wire 1000 example_fs example_readings (example_link 2)
      example_host_request = Some (Ok (SignedCertificate example_host_cert))"
    and "link_after example_env example_wire 1000 example_fs example_readings (example_link 2)
      example_host_request = example_link 3"
    using example_link_request [of 2 example_host_request, OF _ _ _ h(2) r(2)] q(3)
    by (simp_all add: example_message_def)
qed

definition example_deployment ::
  "(string, ref_key, bytes \<times> (string \<times> string) cert_fields, bytes, nat) deployment" where
  "example_deployment =
     \<lparr>d_registry = registry_new\<lparr>client_ids := 2\<rparr>,
      d_sessions = [example_user_session, example_host_session], d_dropped = {},
      d_link = example_link 3,
      d_out =
        [(0, AskCa example_user_request),
         (0, ChannelData 0 ''ssh-ed25519-cert-v01@openssh.com user-alice-1700000000''),
         (0, ExitStatus 0 0), (0, ChannelEof 0), (0, ChannelClose 0),
         (1, AskCa (CheckPublicKey example_key)), (1, AskCa example_host_request),
         (1, ChannelData 0 ''ssh-ed25519-cert-v01@openssh.com host-web-1700000000''),
         (1, ExitStatus 0 0), (1, ChannelEof 0), (1, ChannelClose 0)]\<rparr>"

abbreviation example_deployed ::
  "(string, ref_key, bytes \<times> (string \<times> string) cert_fields, bytes, nat) deployment \<Rightarrow> bool" where
  "example_deployed \<equiv> deployed False [pam_authenticate example_pam] Inr example_env example_wire 1000
     ''/run/ca.sock'' ''secret'' example_authority"

text \<open>One event of the script.\<close>

lemma example_event:
  assumes "example_deployed D" and "present D i" and "enabled (d_sessions D ! i) e"
    and "callback_of False [pam_authenticate example_pam] Inr ref_crate
      (link_ask example_env example_wire 1000 example_fs example_readings (d_link D))
      (d_sessions D ! i) e = (s, acts)"
    and "D' = D\<lparr>d_sessions := (d_sessions D)[i := s],
      d_link := foldl (link_after example_env example_wire 1000 example_fs example_readings) (d_link D)
        (map fst (asked_in (link_ask example_env example_wire 1000 example_fs example_readings (d_link D)) acts)),
      d_out := d_out D @ map (Pair i) acts\<rparr>"
  shows "example_deployed D'"
proof -
  have "crate example_env = ref_crate"
    by (simp add: example_env_def)
  with assms(4) have "callback_of False [pam_authenticate example_pam] Inr (crate example_env)
      (link_ask example_env example_wire 1000 example_fs example_readings (d_link D))
      (d_sessions D ! i) e = (s, acts)" by simp
  from deployed.step [OF assms(1) deployment_step.event [OF assms(2,3) this]] show ?thesis
    unfolding assms(5) .
qed

lemma example_accept:
  assumes "example_deployed D" and "client_ids (d_registry D) + 1 = n"
  shows "example_deployed (D\<lparr>d_registry := (d_registry D)\<lparr>client_ids := n\<rparr>,
      d_sessions := d_sessions D @ [session_start (unat n)]\<rparr>)"
proof -
  have "new_client (d_registry D) = ((d_registry D)\<lparr>client_ids := n\<rparr>, new_handler (unat n) :: string handler)"
    using assms(2) by (simp add: new_client_def Let_def)
  from deployed.step [OF assms(1) deployment_step.accept [OF this]] show ?thesis
    by (simp add: new_handler_def)
qed

lemma example_logged_in:
  "auth_password False [pam_authenticate example_pam] ''alice'' ''pw'' (new_handler 1)
    = (\<lparr>h_id = 1, h_username = Some ''alice'', h_auth_method = Some PasswordAuth, h_public_key = None\<rparr>
        :: string handler, Done Accept)"
  by (simp add: auth_password_def validate_username_def is_ascii_alphanumeric_def new_handler_def
      pam_authenticate_user_def example_pam_def)

text \<open>After the first login.\<close>

definition example_first_login ::
  "(string, ref_key, bytes \<times> (string \<times> string) cert_fields, bytes, nat) deployment" where
  "example_first_login =
     \<lparr>d_registry = registry_new\<lparr>client_ids := 1\<rparr>,
      d_sessions = [\<lparr>s_handler = \<lparr>h_id = 1, h_username = Some ''alice'',
          h_auth_method = Some PasswordAuth, h_public_key = None\<rparr>,
        s_alive = True, s_grant = Some (ByPassword ''alice'' ''pw''), s_asked = []\<rparr>],
      d_dropped = {}, d_link = example_link 0, d_out = []\<rparr>"

lemma example_first_login_reached: "example_deployed example_first_login"
proof -
  let ?D = "\<lambda>r ss. \<lparr>d_registry = r, d_sessions = ss, d_dropped = {}, d_link = example_link 0, d_out = []\<rparr>
    :: (string, ref_key, bytes \<times> (string \<times> string) cert_fields, bytes, nat) deployment"
  have start: "deployment_start ''/run/ca.sock'' ''secret'' example_authority = ?D registry_new []"
    by (simp add: deployment_start_def example_link_def client_new_def example_server_def server_new_def)
  have d0: "example_deployed (?D registry_new [])"
    using deployed.start unfolding start [symmetric] .
  have d1: "example_deployed (?D (registry_new\<lparr>client_ids := 1\<rparr>) [session_start 1])"
    using example_accept [OF d0, of 1] by (simp add: registry_new_def)
  show ?thesis
    by (rule example_event [OF d1, of 0 "PasswordAttempt ''alice'' ''pw''" "hd (d_sessions example_first_login)" "[]"])
      (simp_all add: present_def session_start_def example_first_login_def
        example_logged_in [unfolded One_nat_def])
qed

lemma example_deployment_reached: "example_deployed example_deployment"
proof -
  let ?alice = "\<lparr>h_id = 1, h_username = Some ''alice'', h_auth_method = Some PasswordAuth,
      h_public_key = None\<rparr> :: string handler"
  let ?web = "\<lparr>h_id = 2, h_username = Some ''web'', h_auth_method = Some PublicKeyAuth,
      h_public_key = Some example_key_text\<rparr> :: string handler"
  let ?s1 = "\<lparr>s_handler = ?alice, s_alive = True, s_grant = Some (ByPassword ''alice'' ''pw''), s_asked = []\<rparr>
    :: (string, ref_key, bytes \<times> (string \<times> string) cert_fields) session"
  let ?s2 = "\<lparr>s_handler = ?web, s_alive = True, s_grant = Some (ByKey example_key_text ''web''),
      s_asked = [(CheckPublicKey example_key, Some (Ok (KeyFound (Some ''web''))))]\<rparr>
    :: (string, ref_key, bytes \<times> (string \<times> string) cert_fields) session"
  let ?r1 = "registry_new\<lparr>client_ids := 1\<rparr> :: nat registry"
  let ?r2 = "registry_new\<lparr>client_ids := 2\<rparr> :: nat registry"
  let ?o1 = "take 5 (d_out example_deployment)" and ?o2 = "take 6 (d_out example_deployment)"
  let ?D = "\<lambda>r ss l out. \<lparr>d_registry = r, d_sessions = ss, d_dropped = {}, d_link = l, d_out = out\<rparr>
    :: (string, ref_key, bytes \<times> (string \<times> string) cert_fields, bytes, nat) deployment"
  have d2: "example_deployed (?D ?r1 [?s1] (example_link 0) [])"
    using example_first_login_reached by (simp add: example_first_login_def)
  have d3: "example_deployed (?D ?r1 [example_user_session] (example_link 1) ?o1)"
    by (rule example_event [OF d2, of 0 "Data 0 example_key_text" example_user_session
          "AskCa example_user_request # send_cert_and_close ref_crate example_cert 0"])
      (use example_requests(1,2) example_key_parses in
        \<open>simp_all add: present_def data_def handler_sign_user_key_def example_key_lossy
          parse_openssh_key_def key_from_openssh_def sign_and_send_def send_sign_request_def
          example_user_request_def example_user_session_def example_deployment_def disconnects_def
          send_cert_and_close_def ref_crate_def example_cert_def\<close>)
  have d4: "example_deployed (?D ?r2 [example_user_session, session_start 2] (example_link 1) ?o1)"
    using example_accept [OF d3, of 2] by (simp add: registry_new_def)
  have d5: "example_deployed (?D ?r2 [example_user_session, ?s2] (example_link 2) ?o2)"
    by (rule example_event [OF d4, of 1 "KeyAttempt ''root'' example_key_text" ?s2
          "[AskCa (CheckPublicKey example_key)]"])
      (use example_requests(3,4) example_key_parses in
        \<open>simp_all add: present_def session_start_def auth_publickey_def new_handler_def
          example_deployment_def\<close>)
  show ?thesis
    by (rule example_event [OF d5, of 1 "Exec 0 ''sign_host_key''" example_host_session
          "AskCa example_host_request # send_cert_and_close ref_crate example_host_cert 0"])
      (use example_requests(5,6) example_key_parses in
        \<open>simp_all add: present_def exec_request_def example_command handle_sign_host_key_def
          validate_hostname_def parse_openssh_key_def key_from_openssh_def sign_and_send_def
          send_sign_request_def example_host_request_def example_host_session_def
          example_deployment_def disconnects_def send_cert_and_close_def ref_crate_def
          example_host_cert_def\<close>)
qed

end
