(* ===== verification/Direct_Calls.thy ===== *)
theory Direct_Calls
  imports Deployment
begin

text \<open>
  The abstract specification of the two processes: an SSH server that calls the authority
  directly. There is no socket, no token, no counter and no message; a request is answered
  as the authority answers it (its errors as text), or it fails as a whole. The deployment
  of \<open>Deployment\<close> refines this: whatever a run of it shows to its clients, a run of the
  specification shows too.
\<close>

section \<open>The specification\<close>

definition faithful_ask ::
  "('pk, 'kd, 'sk, 'b, 'c) ca_env \<Rightarrow> fs \<Rightarrow> readings \<Rightarrow> 'sk authority \<Rightarrow> ('pk, 'c) ca_call \<Rightarrow> bool" where
  "faithful_ask env fs rd auth ask \<longleftrightarrow>
     (\<forall>req. (\<exists>resp. local_answer (handle_request env fs auth rd req) = Some resp \<and> ask req = Some (Ok resp))
        \<or> (\<exists>e. ask req = Some (Err e)))"

record ('rk, 'pk, 'c, 'hd) direct =
  a_registry :: "'hd registry"
  a_sessions :: "('rk, 'pk, 'c) session list"
  a_dropped :: "nat set"
  a_out :: "(nat \<times> 'pk action) list"

definition direct_start :: "('rk, 'pk, 'c, 'hd) direct" where
  "direct_start = \<lparr>a_registry = registry_new, a_sessions = [], a_dropped = {}, a_out = []\<rparr>"

definition a_present :: "('rk, 'pk, 'c, 'hd) direct \<Rightarrow> nat \<Rightarrow> bool" where
  "a_present A i \<longleftrightarrow> i < length (a_sessions A) \<and> i \<notin> a_dropped A"

inductive direct_step ::
  "bool \<Rightarrow> authenticator list \<Rightarrow> ('rk \<Rightarrow> string + string) \<Rightarrow> ('pk, 'kd, 'sk, 'b, 'c) ca_env \<Rightarrow> 'sk authority
    \<Rightarrow> ('rk, 'pk, 'c, 'hd) direct \<Rightarrow> ('rk, 'pk, 'c, 'hd) direct \<Rightarrow> bool"
  for test_auth auths rk_print env auth
where
  accept: "new_client (a_registry A) = (r, h :: 'rk handler) \<Longrightarrow>
    direct_step test_auth auths rk_print env auth A
      (A\<lparr>a_registry := r, a_sessions := a_sessions A @ [session_start (h_id h)]\<rparr>)"
| channel: "\<lbrakk>a_present A i; s_alive (a_sessions A ! i); s_grant (a_sessions A ! i) \<noteq> None\<rbrakk> \<Longrightarrow>
    direct_step test_auth auths rk_print env auth A
      (A\<lparr>a_registry := channel_open_session ch sh (s_handler (a_sessions A ! i)) (a_registry A)\<rparr>)"
| close: "a_present A i \<Longrightarrow>
    direct_step test_auth auths rk_print env auth A
      (A\<lparr>a_registry := drop_handler (s_handler (a_sessions A ! i)) (a_registry A),
         a_dropped := insert i (a_dropped A)\<rparr>)"
| event: "\<lbrakk>a_present A i; enabled (a_sessions A ! i) e; faithful_ask env fs rd auth ask;
      callback_of test_auth auths rk_print (crate env) ask (a_sessions A ! i) e = (s, acts)\<rbrakk> \<Longrightarrow>
    direct_step test_auth auths rk_print env auth A
      (A\<lparr>a_sessions := (a_sessions A)[i := s], a_out := a_out A @ map (Pair i) acts\<rparr>)"

inductive direct_run ::
  "bool \<Rightarrow> authenticator list \<Rightarrow> ('rk \<Rightarrow> string + string) \<Rightarrow> ('pk, 'kd, 'sk, 'b, 'c) ca_env \<Rightarrow> 'sk authority
    \<Rightarrow> ('rk, 'pk, 'c, 'hd) direct \<Rightarrow> bool"
  for test_auth auths rk_print env auth
where
  start: "direct_run test_auth auths rk_print env auth direct_start"
| step: "\<lbrakk>direct_run test_auth auths rk_print env auth A; direct_step test_auth auths rk_print env auth A A'\<rbrakk>
    \<Longrightarrow> direct_run test_auth auths rk_print env auth A'"

section \<open>What the socket can do to a request\<close>

lemma read_response_closed:
  "\<exists>x. read_response J inp True = Some x \<and> (\<forall>m. x \<noteq> Panic m)"
  by (auto simp: read_response_def read_frame_def read_exact_def Let_def
      split: awaited.split option.split sum.split)

lemma encode_request_no_panic: "encode_request J tok n req \<noteq> Panic m"
  by (auto simp: encode_request_def outcome_intros split: if_splits)

text \<open>What comes back for an admitted request: nothing, or the whole answer; then the end.\<close>

lemma server_peer_admitted:
  assumes "admitted J uid srv (client_conn uid out) = Some q"
  shows "\<exists>inp. server_peer env J uid fs rd srv out = (inp, True)
    \<and> (inp \<noteq> [] \<longrightarrow> (\<exists>resp rs. local_answer (handle_request env fs (srv_ca srv) rd (request q)) = Some resp
          \<and> response_to_string J resp = Inr rs \<and> inp = frame rs))"
proof (cases "local_answer (handle_request env fs (srv_ca srv) rd (request q))")
  case None
  then obtain m where "handle_request env fs (srv_ca srv) rd (request q) = Panic m"
    by (auto simp: local_answer_def split: outcome.splits)
  then show ?thesis
    by (simp add: server_peer_def serve_admitted [OF assms])
next
  case (Some resp)
  then have "snd (serve env J uid fs rd srv (client_conn uid out)) = respond J (client_conn uid out) resp"
    by (auto simp: local_answer_def serve_admitted [OF assms] split: outcome.splits)
  with Some show ?thesis
    by (cases "response_to_string J resp") (simp_all add: server_peer_def respond_def client_conn_def)
qed

text \<open>
  In step, a request is answered as by a direct call or fails: the server admits it, so
  that a refusal cannot be taken for an answer, and it never leaves the client waiting.
\<close>

lemma response_faithful:
  assumes "json_roundtrip J" and "addressable_answers J" and "read_response J inp True = Some (Ok resp)"
    and "inp \<noteq> [] \<longrightarrow> (\<exists>resp rs. P = Some resp \<and> response_to_string J resp = Inr rs \<and> inp = frame rs)"
  shows "P = Some resp"
proof -
  have "inp \<noteq> []"
    using assms(3) read_response_empty by metis
  with assms(4) obtain resp' rs where "P = Some resp'" "response_to_string J resp' = Inr rs" "inp = frame rs"
    by blast
  moreover from this have "resp = resp'"
    using read_response_frame [OF assms(1,2)] assms(3) by blast
  ultimately show ?thesis by simp
qed

lemma rpc_faithful:
  assumes "json_roundtrip J" and "addressable J" and "addressable_answers J" and "ct_eq_exact J"
    and "in_sync (c, srv)" and "c_counter c \<noteq> - 1"
  shows "(\<exists>resp. local_answer (handle_request env fs (srv_ca srv) rd req) = Some resp
        \<and> snd (rpc env J uid fs rd (c, srv) req) = Some (Ok resp))
    \<or> (\<exists>e. snd (rpc env J uid fs rd (c, srv) req) = Some (Err e))"
proof -
  let ?n = "c_counter c + 1"
  let ?r = "snd (rpc env J uid fs rd (c, srv) req)"
  have n: "next_counter c = (c\<lparr>c_counter := ?n\<rparr>, Ok ?n)"
    using assms(6) next_counter_Ok [of c ?n] by (simp add: prod_eq_iff) (simp add: next_counter_def Let_def)
  have r: "?r = (case encode_request J (c_auth_token c) ?n req of
      Ok out \<Rightarrow> (case server_peer env J uid fs rd srv out of (inp, closed) \<Rightarrow> read_response J inp closed)
    | Err e \<Rightarrow> Some (Err e) | Panic m \<Rightarrow> Some (Panic m))"
    using n by (simp add: rpc_def Let_def case_prod_beta send_request_def split: outcome.split)
  show ?thesis
  proof (cases "encode_request J (c_auth_token c) ?n req")
    case (Ok out)
    have "last_counter srv < ?n" and "ct_eq J (c_auth_token c) (auth_token srv)"
      using assms(4-6) by (simp_all add: in_sync_def le_imp_less_inc ct_eq_exact_def)
    then have adm: "admitted J uid srv (client_conn uid out)
        = Some \<lparr>token = c_auth_token c, counter = ?n, request = req\<rparr>"
      using serve_encoded [OF assms(1,2) Ok, of uid srv] by simp
    obtain inp where peer: "server_peer env J uid fs rd srv out = (inp, True)"
      and inp: "inp \<noteq> [] \<longrightarrow> (\<exists>resp rs. local_answer (handle_request env fs (srv_ca srv) rd req) = Some resp
        \<and> response_to_string J resp = Inr rs \<and> inp = frame rs)"
      using server_peer_admitted [OF adm, of env fs rd] by auto
    obtain x where x: "read_response J inp True = Some x" "\<And>m. x \<noteq> Panic m"
      using read_response_closed by blast
    then have rx: "?r = Some x"
      using r Ok peer by simp
    show ?thesis
    proof (cases x)
      case (Ok resp)
      with response_faithful [OF assms(1,3) _ inp] x(1) rx show ?thesis by blast
    qed (use rx x(2) in blast)+
  next
    case (Err e)
    with r show ?thesis by simp
  next
    case (Panic m)
    with encode_request_no_panic show ?thesis by blast
  qed
qed

lemma link_faithful:
  assumes "json_roundtrip J" and "addressable J" and "addressable_answers J" and "ct_eq_exact J"
    and "link_inv tok n l" and "n < 2 ^ 64 - 1" and "srv_ca (fst (snd l)) = auth"
  shows "faithful_ask env fs rd auth (link_ask env J uid fs rd l)"
proof -
  obtain c srv up where l: "l = (c, srv, up)" by (metis prod_cases3)
  have "in_sync (c, srv)" and "c_counter c \<noteq> - 1"
    using assms(5,6) l by (auto simp: link_inv_def unsigned_minus_1_eq_mask mask_eq_exp_minus_1)
  from rpc_faithful [OF assms(1-4) this, of env fs rd _ uid] show ?thesis
    using assms(7) l by (cases up) (simp_all add: faithful_ask_def link_ask_def send_request_def)
qed

section \<open>The refinement\<close>

text \<open>Forgetting client, server and counters.\<close>

definition direct_of :: "('rk, 'pk, 'c, 'sk, 'hd) deployment \<Rightarrow> ('rk, 'pk, 'c, 'hd) direct" where
  "direct_of D = \<lparr>a_registry = d_registry D, a_sessions = d_sessions D, a_dropped = d_dropped D,
     a_out = d_out D\<rparr>"

lemma direct_of_step:
  assumes "deployment_step test_auth auths rk_print env J uid D D'"
    and "\<And>fs rd. faithful_ask env fs rd auth (link_ask env J uid fs rd (d_link D))"
  shows "direct_step test_auth auths rk_print env auth (direct_of D) (direct_of D')"
  using assms(1)
proof (cases rule: deployment_step.cases)
  case (accept r h)
  then show ?thesis
    using direct_step.accept [of "direct_of D" r h] by (simp add: direct_of_def)
next
  case (channel i ch sh)
  then show ?thesis
    using direct_step.channel [of "direct_of D" i test_auth auths rk_print env auth ch sh]
    by (simp add: direct_of_def a_present_def present_def)
next
  case (close i)
  then show ?thesis
    using direct_step.close [of "direct_of D" i test_auth auths rk_print env auth]
    by (simp add: direct_of_def a_present_def present_def)
next
  case (event i e fs rd s acts)
  then show ?thesis
    using direct_step.event [of "direct_of D" i e env fs rd auth _ test_auth auths rk_print s acts, OF _ _ assms(2)]
    by (simp add: direct_of_def a_present_def present_def)
qed

lemma requests_made_mono:
  assumes "deployment_step test_auth auths rk_print env J uid D D'"
  shows "requests_made D \<le> requests_made D'"
  using assms by (cases rule: deployment_step.cases) (simp_all add: requests_made_def)

lemma deployed_direct:
  assumes "json_roundtrip J" and "addressable J" and "addressable_answers J" and "ct_eq_exact J"
    and "deployed test_auth auths rk_print env J uid path tok auth D" and "requests_made D < 2 ^ 64 - 1"
  shows "direct_run test_auth auths rk_print env auth (direct_of D)"
  using assms(5,6)
proof (induction rule: deployed.induct)
  case start
  show ?case
    using direct_run.start by (simp add: direct_of_def deployment_start_def direct_start_def)
next
  case (step D D')
  have few: "requests_made D < 2 ^ 64 - 1"
    using requests_made_mono [OF step.hyps(2)] step.prems by simp
  have ca: "srv_ca (fst (snd (d_link D))) = auth"
    using deployed_inv [OF assms(1-3) step.hyps(1)] by (simp add: deployment_inv_def)
  have "link_inv tok (requests_made D) (d_link D)"
    using deployed_link_inv [OF assms(1,2) step.hyps(1)] few by simp
  from link_faithful [OF assms(1-4) this few ca] direct_of_step [OF step.hyps(2)]
  have "direct_step test_auth auths rk_print env auth (direct_of D) (direct_of D')"
    by blast
  with step.IH few show ?case
    by (blast intro: direct_run.step)
qed

section \<open>Properties\<close>



end
