(* ===== verification/Launcher.thy ===== *)
theory Launcher
  imports Ssh_Server Ca_Client
begin

text \<open>
  \<open>lib.rs\<close> and \<open>main.rs\<close>: the one executable that is both processes. In SSH mode it makes
  or reads the token, hands it to the CA child through a file, waits for the socket and
  serves; in CA mode it takes the token from the file, deletes the file and serves. What
  the program does to the outside is a list of actions; what the outside answers comes in
  through \<open>launch_env\<close>.
\<close>

section \<open>Arguments, environment and actions\<close>

record cli_args =
  config_file :: string
  certificate_authority :: bool
  arg_socket_path :: "string option"
  disable_ca :: bool
  arg_token_file :: "string option"

text \<open>
  The file system at start, the crates and calls that can fail, what the \<open>n\<close>-th look for
  the socket finds, and how the two servers end.
\<close>

record ('pk, 'kd, 'sk, 'b, 'c) launch_env =
  l_fs :: fs
  l_config_toml :: "config toml_parser"
  l_ca_env :: "('pk, 'kd, 'sk, 'b, 'c) ca_env"
  l_pid :: nat
  l_tempdir :: "string + path"
  l_random_token :: string
  l_remove_token :: "io_error option"
  l_write_token :: "io_error option"
  l_chmod_token :: "io_error option"
  l_current_exe :: bool
  l_spawn :: "io_error option"
  l_socket_exists :: "nat \<Rightarrow> bool"
  l_pam :: pam_env
  l_ca_run :: "unit outcome"
  l_ssh_run :: "unit outcome"

datatype launch_action =
    RemoveFile path
  | WriteToken path string
  | ChmodOwnerOnly path
  | SpawnCa "string list"
  | KillCa
  | WaitCa
  | StartCaServer string string
  | StartSshServer string string

datatype launch_end =
    Returned
  | Aborted string

type_synonym launch = "launch_action list \<times> launch_end"

definition result_unwrap :: string where
  "result_unwrap = ''called `Result::unwrap()` on an `Err` value''"

section \<open>CA mode\<close>

definition run_ca :: "('pk, 'kd, 'sk, 'b, 'c) launch_env \<Rightarrow> config \<Rightarrow> cli_args \<Rightarrow> launch" where
  "run_ca env cfg args =
     (case arg_socket_path args of
        None \<Rightarrow> ([], Aborted ''in CA mode the socket path in mandatory'')
      | Some sock \<Rightarrow>
          (case arg_token_file args of
             None \<Rightarrow> ([], Aborted ''in CA mode the --token-file path is mandatory'')
           | Some token_file \<Rightarrow>
               (case read_to_string (l_fs env) token_file of
                  Inl e \<Rightarrow> ([], Returned)
                | Inr tok \<Rightarrow>
                    (case l_remove_token env of
                       Some e \<Rightarrow> ([RemoveFile token_file], Returned)
                     | None \<Rightarrow>
                         (case ca_new (l_ca_env env) (l_fs env) (ca cfg) of
                            Ok _ \<Rightarrow>
                              (case l_ca_run env of
                                 Ok _ \<Rightarrow> ([RemoveFile token_file, StartCaServer sock tok], Returned)
                               | _ \<Rightarrow> ([RemoveFile token_file, StartCaServer sock tok],
                                       Aborted result_unwrap))
                          | _ \<Rightarrow> ([RemoveFile token_file], Aborted result_unwrap))))))"

section \<open>SSH mode\<close>

text \<open>The path of the socket: given, or a fresh name in a temporary directory that is kept.\<close>

definition ssh_socket_path :: "('pk, 'kd, 'sk, 'b, 'c) launch_env \<Rightarrow> cli_args \<Rightarrow> string outcome" where
  "ssh_socket_path env args =
     (case arg_socket_path args of
        Some path \<Rightarrow> Ok path
      | None \<Rightarrow>
          (case l_tempdir env of
             Inl e \<Rightarrow> Panic result_unwrap
           | Inr tmp_dir \<Rightarrow>
               Ok (from_utf8_lossy (path_push tmp_dir (''ssh_ca.'' @ dec (l_pid env) @ ''.sock'')))))"

definition ssh_auth_token :: "('pk, 'kd, 'sk, 'b, 'c) launch_env \<Rightarrow> cli_args \<Rightarrow> string option" where
  "ssh_auth_token env args =
     (case arg_token_file args of
        Some path \<Rightarrow> (case read_to_string (l_fs env) path of Inl e \<Rightarrow> None | Inr t \<Rightarrow> Some t)
      | None \<Rightarrow> Some (l_random_token env))"

definition token_file_path :: "string \<Rightarrow> path" where
  "token_file_path sock = path_set_extension sock ''token''"

definition ca_command :: "cli_args \<Rightarrow> string \<Rightarrow> string list" where
  "ca_command args sock =
     [''-c'', config_file args, ''-a'', ''-s'', sock, ''--token-file'', token_file_path sock]"

text \<open>
  Handing the token over and spawning the CA, lines 139 to 178: the actions, and whether to
  go on (\<open>None\<close>) or how the function ends.
\<close>

definition spawn_ca ::
  "('pk, 'kd, 'sk, 'b, 'c) launch_env \<Rightarrow> cli_args \<Rightarrow> string \<Rightarrow> string \<Rightarrow> launch_action list \<times> launch_end option"
where
  "spawn_ca env args sock tok =
     (let p = token_file_path sock
      in case l_write_token env of
         Some e \<Rightarrow> ([WriteToken p tok], Some Returned)
       | None \<Rightarrow>
           (case l_chmod_token env of
              Some e \<Rightarrow> ([WriteToken p tok, ChmodOwnerOnly p, RemoveFile p], Some Returned)
            | None \<Rightarrow>
                if \<not> l_current_exe env then ([WriteToken p tok, ChmodOwnerOnly p], Some (Aborted result_unwrap))
                else if \<not> valid_utf8 p then ([WriteToken p tok, ChmodOwnerOnly p], Some (Aborted unwrap_none))
                else
                  (case l_spawn env of
                     Some e \<Rightarrow>
                       ([WriteToken p tok, ChmodOwnerOnly p, SpawnCa (ca_command args sock),
                         RemoveFile p], Some Returned)
                   | None \<Rightarrow>
                       ([WriteToken p tok, ChmodOwnerOnly p, SpawnCa (ca_command args sock)],
                        None))))"

text \<open>
  \<open>for _ in 0..10\<close>: look for the socket until it is there, at most ten times with a pause
  after each miss; the result is the number of looks taken.
\<close>

fun wait_for_socket :: "(nat \<Rightarrow> bool) \<Rightarrow> nat \<Rightarrow> nat \<Rightarrow> nat" where
  "wait_for_socket present 0 i = i"
| "wait_for_socket present (Suc n) i = (if present i then Suc i else wait_for_socket present n (Suc i))"

definition run_ssh :: "('pk, 'kd, 'sk, 'b, 'c) launch_env \<Rightarrow> config \<Rightarrow> cli_args \<Rightarrow> launch" where
  "run_ssh env cfg args =
     (case ssh_socket_path env args of
        Panic m \<Rightarrow> ([], Aborted m)
      | Err e \<Rightarrow> ([], Returned)
      | Ok sock \<Rightarrow>
          (case ssh_auth_token env args of
             None \<Rightarrow> ([], Returned)
           | Some tok \<Rightarrow>
               (case (if disable_ca args then ([], None) else spawn_ca env args sock tok) of
                  (acts, Some e) \<Rightarrow> (acts, e)
                | (acts, None) \<Rightarrow>
                    if \<not> l_socket_exists env (wait_for_socket (l_socket_exists env) 10 0)
                    then (acts @ (if disable_ca args then [] else [KillCa]), Returned)
                    else
                      (case setup_user_authenticators (l_pam env)
                              (user_authenticators (identity_handlers cfg)) of
                         Ok as \<Rightarrow>
                           (case l_ssh_run env of
                              Ok _ \<Rightarrow>
                                (acts @ [StartSshServer sock tok]
                                 @ (if disable_ca args then [] else [KillCa, WaitCa])
                                 @ [RemoveFile sock], Returned)
                            | _ \<Rightarrow> (acts @ [StartSshServer sock tok], Aborted result_unwrap))
                       | Panic m \<Rightarrow> (acts, Aborted m)
                       | Err e \<Rightarrow> (acts, Aborted result_unwrap)))))"

definition run_server :: "('pk, 'kd, 'sk, 'b, 'c) launch_env \<Rightarrow> cli_args \<Rightarrow> launch" where
  "run_server env args =
     (case read_config (l_config_toml env) (l_fs env) (config_file args) of
        Err e \<Rightarrow> ([], Returned)
      | Panic m \<Rightarrow> ([], Aborted m)
      | Ok cfg \<Rightarrow> if certificate_authority args then run_ca env cfg args else run_ssh env cfg args)"

text \<open>\<open>main\<close>: the feature \<open>test_auth\<close> makes the binary panic before anything else.\<close>

definition main :: "bool \<Rightarrow> ('pk, 'kd, 'sk, 'b, 'c) launch_env \<Rightarrow> cli_args \<Rightarrow> launch" where
  "main test_auth env args =
     (if test_auth
      then ([], Aborted (''`test_auth` must never be enabled in the main binary '' @ [CHR 0xE2, CHR 0x80, CHR 0x94]
        @ '' it logs plaintext passwords''))
      else run_server env args)"

section \<open>Lemmas\<close>

lemma wait_for_socket_bound: "i \<le> wait_for_socket present n i \<and> wait_for_socket present n i \<le> i + n"
proof (induction n arbitrary: i)
  case (Suc n)
  show ?case
    using Suc.IH [of "Suc i"] by (cases "present i") simp_all
qed simp

text \<open>A socket that stays once it is there is found when it is there at the last look.\<close>

lemma wait_for_socket_found:
  assumes "\<forall>i j. i \<le> j \<and> present i \<longrightarrow> present j"
  shows "present (wait_for_socket present n i) = present (i + n)"
proof (induction n arbitrary: i)
  case (Suc n)
  show ?case
  proof (cases "present i")
    case True
    then have "present (Suc i)" and "present (i + Suc n)"
      using assms by (meson le_SucI le_add1 order_refl)+
    with True show ?thesis by simp
  next
    case False
    with Suc.IH [of "Suc i"] show ?thesis by simp
  qed
qed simp

lemma run_ssh_acts:
  assumes "run_server env args = (acts, e)" and "SpawnCa cmd \<in> set acts"
  shows "\<exists>sock tok rest. ssh_socket_path env args = Ok sock \<and> ssh_auth_token env args = Some tok
    \<and> \<not> certificate_authority args \<and> cmd = ca_command args sock
    \<and> acts = [WriteToken (token_file_path sock) tok, ChmodOwnerOnly (token_file_path sock), SpawnCa cmd] @ rest"
  using assms
  by (auto simp: run_server_def run_ca_def run_ssh_def spawn_ca_def Let_def
      split: outcome.splits option.splits sum.splits if_splits prod.splits)

lemma run_ca_acts:
  assumes "run_server env args = (acts, e)" and "StartCaServer sock tok \<in> set acts"
  shows "\<exists>file cfg auth. certificate_authority args \<and> arg_socket_path args = Some sock
    \<and> arg_token_file args = Some file \<and> read_to_string (l_fs env) file = Inr tok
    \<and> l_remove_token env = None
    \<and> read_config (l_config_toml env) (l_fs env) (config_file args) = Ok cfg
    \<and> ca_new (l_ca_env env) (l_fs env) (ca cfg) = Ok auth
    \<and> acts = [RemoveFile file, StartCaServer sock tok]"
  using assms
  by (auto simp: run_server_def run_ca_def run_ssh_def spawn_ca_def Let_def
      split: outcome.splits option.splits sum.splits if_splits prod.splits)

lemma run_ssh_serves:
  assumes "run_server env args = (acts, e)" and "StartSshServer sock tok \<in> set acts"
  shows "ssh_socket_path env args = Ok sock \<and> ssh_auth_token env args = Some tok
    \<and> \<not> certificate_authority args"
  using assms
  by (auto simp: run_server_def run_ca_def run_ssh_def spawn_ca_def Let_def
      split: outcome.splits option.splits sum.splits if_splits prod.splits)

section \<open>A concrete launch\<close>

definition example_config :: config where
  "example_config =
     \<lparr>ssh = \<lparr>bind_addr = ''0.0.0.0'', port = 22, ssh_private_key = ''/key'', certificate = None\<rparr>,
      ca = example_ca, identity_handlers = \<lparr>user_authenticators = [''pam'']\<rparr>\<rparr>"

definition example_launch ::
  "string list \<Rightarrow> (ref_key, string \<times> string, bytes, (string \<times> string) cert_fields,
    bytes \<times> (string \<times> string) cert_fields) launch_env"
where
  "example_launch auths =
     \<lparr>l_fs = tree_fs
        [([''c''], File ''conf''), ([''ca''], File ''PRIVATE''), ([''s.token''], File ''T'')],
      l_config_toml = (\<lambda>_. Inr (example_config\<lparr>identity_handlers := \<lparr>user_authenticators = auths\<rparr>\<rparr>)),
      l_ca_env = example_env, l_pid = 7, l_tempdir = Inr ''/tmp/x'', l_random_token = ''T'',
      l_remove_token = None, l_write_token = None, l_chmod_token = None, l_current_exe = True,
      l_spawn = None, l_socket_exists = (\<lambda>n. 3 \<le> n), l_pam = example_pam,
      l_ca_run = Ok (), l_ssh_run = Ok ()\<rparr>"

definition example_args :: cli_args where
  "example_args = \<lparr>config_file = ''/c'', certificate_authority = False, arg_socket_path = Some ''/s'',
     disable_ca = False, arg_token_file = None\<rparr>"

definition example_ca_args :: cli_args where
  "example_ca_args = \<lparr>config_file = ''/c'', certificate_authority = True, arg_socket_path = Some ''/s'',
     disable_ca = False, arg_token_file = Some ''/s.token''\<rparr>"

lemma example_read_config:
  "read_config (l_config_toml (example_launch auths)) (l_fs (example_launch auths)) ''/c''
     = Ok (example_config\<lparr>identity_handlers := \<lparr>user_authenticators = auths\<rparr>\<rparr>)"
proof -
  let ?fs = "tree_fs [([''c''], File ''conf''), ([''ca''], File ''PRIVATE''), ([''s.token''], File ''T'')]"
  have "path_exists ?fs ''/c''" and "path_exists ?fs ''/ca''" and "path_parent ''/c'' = Some ''/''"
    and "read_to_string ?fs ''/c'' = Inr ''conf''"
    by code_simp+
  then show ?thesis
    by (simp add: read_config_def example_launch_def example_config_def example_ca_def
        ca_insert_config_path_def ca_check_paths_def has_root_def)
qed

lemma example_token_path: "token_file_path ''/s'' = ''/s.token''"
  by code_simp

lemma example_spawn:
  "spawn_ca (example_launch auths) example_args ''/s'' ''T'' = ([WriteToken ''/s.token'' ''T'',
      ChmodOwnerOnly ''/s.token'', SpawnCa (ca_command example_args ''/s'')], None)"
proof -
  have "valid_utf8 ''/s.token''"
    by (rule ascii_valid) (simp add: is_ascii_def)
  then show ?thesis
    using example_token_path by (simp add: spawn_ca_def example_launch_def Let_def)
qed

lemma example_ssh_run:
  "run_server (example_launch [''pam'']) example_args =
     ([WriteToken ''/s.token'' ''T'', ChmodOwnerOnly ''/s.token'',
       SpawnCa [''-c'', ''/c'', ''-a'', ''-s'', ''/s'', ''--token-file'', ''/s.token''],
       StartSshServer ''/s'' ''T'', KillCa, WaitCa, RemoveFile ''/s''], Returned)"
proof -
  have "valid_utf8 ''/s.token''"
    by (rule ascii_valid) (simp add: is_ascii_def)
  moreover have "wait_for_socket (\<lambda>n. 3 \<le> n) 10 0 = 4"
    by (simp add: numeral_eq_Suc)
  ultimately show ?thesis
    using example_read_config [of "[''pam'']"] example_token_path
    by (simp add: run_server_def run_ssh_def example_args_def ssh_socket_path_def ssh_auth_token_def
        spawn_ca_def ca_command_def Let_def) (simp add: example_launch_def ca_command_def Let_def)
qed

lemma example_ca_run:
  "run_server (example_launch [''pam'']) example_ca_args =
     ([RemoveFile ''/s.token'', StartCaServer ''/s'' ''T''], Returned)"
proof -
  let ?fs = "tree_fs [([''c''], File ''conf''), ([''ca''], File ''PRIVATE''), ([''s.token''], File ''T'')]"
  have "read_to_string ?fs ''/s.token'' = Inr ''T''" and "ca_new example_env ?fs example_ca = Ok example_authority"
    by code_simp+
  then show ?thesis
    using example_read_config [of "[''pam'']"]
    by (simp add: run_server_def run_ca_def example_ca_args_def)
      (simp add: example_launch_def example_config_def)
qed

section \<open>Properties\<close>

text \<open>How the token reaches the CA: whenever the CA is spawned, the program has just written
  the token to the token file and made that file readable by its owner only, in this order,
  and the command line names that file and the socket; it never carries the token itself.\<close>

theorem token_handed_over_in_file:
  assumes "run_server env args = (acts, e)" and "SpawnCa cmd \<in> set acts"
  shows "\<exists>sock tok rest. ssh_socket_path env args = Ok sock \<and> ssh_auth_token env args = Some tok
    \<and> cmd = [''-c'', config_file args, ''-a'', ''-s'', sock, ''--token-file'', token_file_path sock]
    \<and> acts = [WriteToken (token_file_path sock) tok, ChmodOwnerOnly (token_file_path sock), SpawnCa cmd] @ rest"
  using run_ssh_acts [OF assms] by (auto simp: ca_command_def)

lemma token_handed_over_in_file_witness:
  "\<exists>rest. fst (run_server (example_launch [''pam'']) example_args)
    = [WriteToken ''/s.token'' ''T'', ChmodOwnerOnly ''/s.token'',
       SpawnCa [''-c'', ''/c'', ''-a'', ''-s'', ''/s'', ''--token-file'', ''/s.token'']] @ rest"
  using token_handed_over_in_file [OF example_ssh_run, of "[''-c'', ''/c'', ''-a'', ''-s'', ''/s'', ''--token-file'', ''/s.token'']"]
  by (auto simp: example_ssh_run)

text \<open>The CA serves only after the token file is gone: in CA mode the server is started with
  the token that was read from the file, after the file was deleted and the CA key was
  loaded; when the file cannot be deleted nothing is served.\<close>

theorem ca_serves_after_deleting_token:
  assumes "run_server env args = (acts, e)" and "StartCaServer sock tok \<in> set acts"
  shows "\<exists>file. arg_token_file args = Some file \<and> read_to_string (l_fs env) file = Inr tok
    \<and> l_remove_token env = None \<and> acts = [RemoveFile file, StartCaServer sock tok]
    \<and> (\<exists>cfg auth. read_config (l_config_toml env) (l_fs env) (config_file args) = Ok cfg
         \<and> ca_new (l_ca_env env) (l_fs env) (ca cfg) = Ok auth)"
  using run_ca_acts [OF assms] by blast

lemma ca_serves_after_deleting_token_witness:
  "read_to_string (l_fs (example_launch [''pam''])) ''/s.token'' = Inr ''T''"
  using ca_serves_after_deleting_token [OF example_ca_run, of "''/s''" "''T''"]
  by (auto simp: example_ca_args_def)

text \<open>C33. Both processes end up with the same secret: when the CA child runs with the arguments
  it was spawned with, on a file that holds what the parent wrote, the server it starts and
  the client the parent starts share socket and token, and their counters are in step.\<close>

theorem processes_share_token:
  assumes "run_server env args = (acts, e)" and "SpawnCa cmd \<in> set acts"
    and "StartSshServer sock tok \<in> set acts"
    and "run_server env' \<lparr>config_file = cmd ! 1, certificate_authority = True,
        arg_socket_path = Some (cmd ! 4), disable_ca = False, arg_token_file = Some (cmd ! 6)\<rparr> = (acts', e')"
    and "\<forall>p t. WriteToken p t \<in> set acts \<longrightarrow> read_to_string (l_fs env') p = Inr t"
    and "StartCaServer sock' tok' \<in> set acts'"
  shows "sock' = sock \<and> tok' = tok \<and> in_sync (client_new sock tok, server_new sock' auth tok')"
proof -
  obtain s t rest where s: "ssh_socket_path env args = Ok s" "ssh_auth_token env args = Some t"
    and cmd: "cmd = [''-c'', config_file args, ''-a'', ''-s'', s, ''--token-file'', token_file_path s]"
    and acts: "acts = [WriteToken (token_file_path s) t, ChmodOwnerOnly (token_file_path s), SpawnCa cmd] @ rest"
    using run_ssh_acts [OF assms(1,2)] by (auto simp: ca_command_def)
  have "s = sock" and "t = tok"
    using run_ssh_serves [OF assms(1,3)] s by auto
  moreover have "sock' = s" and "read_to_string (l_fs env') (token_file_path s) = Inr tok'"
    using run_ca_acts [OF assms(4,6)] cmd by auto
  moreover have "read_to_string (l_fs env') (token_file_path s) = Inr t"
    using assms(5) acts by simp
  ultimately show ?thesis
    by (simp add: in_sync_def client_new_def server_new_def)
qed

lemma processes_share_token_witness:
  "in_sync (client_new ''/s'' ''T'', server_new ''/s'' example_authority ''T'')"
proof -
  let ?cmd = "[''-c'', ''/c'', ''-a'', ''-s'', ''/s'', ''--token-file'', ''/s.token'']"
  have args: "\<lparr>config_file = ?cmd ! 1, certificate_authority = True, arg_socket_path = Some (?cmd ! 4),
      disable_ca = False, arg_token_file = Some (?cmd ! 6)\<rparr> = example_ca_args"
    by (simp add: example_ca_args_def)
  have "read_to_string (l_fs (example_launch [''pam''])) ''/s.token'' = Inr ''T''"
    by (simp add: example_launch_def) code_simp
  then show ?thesis
    using processes_share_token [OF example_ssh_run, of ?cmd "''/s''" "''T''" "example_launch [''pam'']"
        _ _ "''/s''" "''T''" example_authority] example_ca_run
    unfolding args by simp
qed

text \<open>A run that returns leaves no CA behind: whenever the CA was spawned and the program
  returns, it has killed the child.\<close>

theorem returning_kills_ca:
  assumes "run_server env args = (acts, Returned)" and "SpawnCa cmd \<in> set acts" and "l_spawn env = None"
  shows "KillCa \<in> set acts"
  using assms
  by (auto simp: run_server_def run_ca_def run_ssh_def spawn_ca_def Let_def
      split: outcome.splits option.splits sum.splits if_splits prod.splits)

lemma returning_kills_ca_witness:
  "KillCa \<in> set (fst (run_server (example_launch [''pam'']) example_args))"
  using returning_kills_ca [OF example_ssh_run, of "[''-c'', ''/c'', ''-a'', ''-s'', ''/s'', ''--token-file'', ''/s.token'']"]
  by (simp add: example_launch_def example_ssh_run [unfolded example_launch_def])

text \<open>An unknown authenticator in the configuration aborts the parent after the CA was
  spawned, and no kill: the CA process is left behind.\<close>

theorem unknown_authenticator_orphans_ca:
  assumes "read_config (l_config_toml env) (l_fs env) (config_file args) = Ok cfg"
    and "\<not> certificate_authority args" and "\<not> disable_ca args"
    and "ssh_socket_path env args = Ok sock" and "ssh_auth_token env args = Some tok"
    and "spawn_ca env args sock tok = (acts, None)"
    and "l_socket_exists env (wait_for_socket (l_socket_exists env) 10 0)"
    and "user_authenticators (identity_handlers cfg) = replicate n ''pam'' @ a # names" and "a \<noteq> ''pam''"
  shows "run_server env args = (acts, Aborted (''unknown user authenticator: '' @ a))
    \<and> SpawnCa (ca_command args sock) \<in> set acts \<and> KillCa \<notin> set acts"
proof -
  have "setup_user_authenticators P (replicate n ''pam'' @ a # names)
      = Panic (''unknown user authenticator: '' @ a)" for P
    using assms(9) by (induction n) simp_all
  moreover have "SpawnCa (ca_command args sock) \<in> set acts \<and> KillCa \<notin> set acts"
    using assms(6) by (auto simp: spawn_ca_def Let_def split: option.splits if_splits)
  ultimately show ?thesis
    using assms by (simp add: run_server_def run_ssh_def)
qed

lemma unknown_authenticator_orphans_ca_witness:
  "KillCa \<notin> set (fst (run_server (example_launch [''ldap'']) example_args))"
proof -
  let ?env = "example_launch [''ldap'']"
  have c: "read_config (l_config_toml ?env) (l_fs ?env) (config_file example_args)
      = Ok (example_config\<lparr>identity_handlers := \<lparr>user_authenticators = [''ldap'']\<rparr>\<rparr>)"
    using example_read_config by (simp add: example_args_def)
  note s = example_spawn
  have p: "ssh_socket_path ?env example_args = Ok ''/s''" "ssh_auth_token ?env example_args = Some ''T''"
    by (simp_all add: ssh_socket_path_def ssh_auth_token_def example_args_def example_launch_def)
  have w: "l_socket_exists ?env (wait_for_socket (l_socket_exists ?env) 10 0)"
    by (simp add: example_launch_def numeral_eq_Suc)
  have n: "\<not> certificate_authority example_args" "\<not> disable_ca example_args"
    by (simp_all add: example_args_def)
  have u: "user_authenticators (identity_handlers
      (example_config\<lparr>identity_handlers := \<lparr>user_authenticators = [''ldap'']\<rparr>\<rparr>))
      = replicate 0 ''pam'' @ ''ldap'' # []"
    by simp
  from unknown_authenticator_orphans_ca [OF c n p s w u] show ?thesis by simp
qed

text \<open>C34. The parent waits about one second for the socket: when the socket stays once it is
  there, the SSH server is reached exactly if the socket is there at the eleventh look (ten
  pauses of 100 ms after the first), and otherwise the child is killed and the program
  returns.\<close>

theorem waits_ten_pauses:
  assumes "\<forall>i j. i \<le> j \<and> l_socket_exists env i \<longrightarrow> l_socket_exists env j"
    and "ssh_socket_path env args = Ok sock" and "ssh_auth_token env args = Some tok"
    and "spawn_ca env args sock tok = (acts, None)" and "\<not> disable_ca args"
    and "setup_user_authenticators (l_pam env) (user_authenticators (identity_handlers cfg)) = Ok as"
  shows "wait_for_socket (l_socket_exists env) 10 0 \<le> 10
    \<and> (if l_socket_exists env 10
       then StartSshServer sock tok \<in> set (fst (run_ssh env cfg args))
       else run_ssh env cfg args = (acts @ [KillCa], Returned))"
proof -
  have w: "l_socket_exists env (wait_for_socket (l_socket_exists env) 10 0) = l_socket_exists env 10"
    using wait_for_socket_found [OF assms(1), of 10 0] by simp
  have "wait_for_socket (l_socket_exists env) 10 0 \<le> 10"
    using wait_for_socket_bound [of 0 "l_socket_exists env" 10] by simp
  then show ?thesis
    using assms(2-6) w by (simp add: run_ssh_def split: outcome.split)
qed

lemma waits_ten_pauses_witness:
  "StartSshServer ''/s'' ''T'' \<in> set (fst (run_ssh (example_launch [''pam'']) example_config example_args))"
proof -
  let ?env = "example_launch [''pam'']"
  have m: "\<forall>i j. i \<le> j \<and> l_socket_exists ?env i \<longrightarrow> l_socket_exists ?env j"
    by (simp add: example_launch_def)
  note s = example_spawn
  have p: "ssh_socket_path ?env example_args = Ok ''/s''" "ssh_auth_token ?env example_args = Some ''T''"
    by (simp_all add: ssh_socket_path_def ssh_auth_token_def example_args_def example_launch_def)
  have d: "\<not> disable_ca example_args"
    by (simp add: example_args_def)
  have a: "setup_user_authenticators (l_pam ?env) (user_authenticators (identity_handlers example_config))
      = Ok [pam_authenticate example_pam]"
    by (simp add: example_launch_def example_config_def)
  from waits_ten_pauses [OF m p s d a] show ?thesis
    by (simp add: example_launch_def)
qed

end
