(* ===== verification/Ipc_System.thy ===== *)
theory Ipc_System
  imports Ca_Client
begin

text \<open>
  Many SSH sessions share one client and talk to the one server at the same time. The
  system below interleaves the steps of \<open>send_request\<close> the way the async runtime may:
  connecting, then taking a number and writing, then being served in the order of the
  connections.
\<close>

section \<open>States and steps\<close>

record ('sk, 'c) ipc_state =
  i_client :: client
  i_server :: "'sk server"
  i_connected :: "nat set"
  i_queue :: "nat list"
  i_number :: "nat \<Rightarrow> u64 option"
  i_sent :: "nat \<Rightarrow> bytes option"
  i_answer :: "nat \<Rightarrow> 'c served option"

text \<open>
  \<open>connect\<close> is \<open>UnixStream::connect\<close>, which enters the server's accept queue; \<open>send\<close> is
  the rest of the sending half, from \<open>fetch_add\<close> to the writes; \<open>quit\<close> is a session that
  cannot encode its request: it closes its connection, which the server drops; \<open>serve\<close> is
  one turn of the accept loop on a connection whose bytes have arrived.
\<close>

inductive ipc_step ::
  "('pk, 'kd, 'sk, 'b, 'c) ca_env \<Rightarrow> ('pk, 'c) ipc_crates \<Rightarrow> u32 \<Rightarrow> (nat \<Rightarrow> 'pk ca_request)
    \<Rightarrow> ('sk, 'c) ipc_state \<Rightarrow> ('sk, 'c) ipc_state \<Rightarrow> bool"
  for env J uid reqs
where
  connect: "i \<notin> i_connected s \<Longrightarrow>
    ipc_step env J uid reqs s
      (s\<lparr>i_connected := insert i (i_connected s), i_queue := i_queue s @ [i]\<rparr>)"
| send: "\<lbrakk>i \<in> i_connected s; i_number s i = None; next_counter (i_client s) = (c, Ok n);
      encode_request J (c_auth_token c) n (reqs i) = Ok out\<rbrakk> \<Longrightarrow>
    ipc_step env J uid reqs s
      (s\<lparr>i_client := c, i_number := (i_number s)(i \<mapsto> n), i_sent := (i_sent s)(i \<mapsto> out)\<rparr>)"
| quit: "\<lbrakk>i \<in> i_connected s; i_number s i = None; next_counter (i_client s) = (c, Ok n);
      encode_request J (c_auth_token c) n (reqs i) = Err e\<rbrakk> \<Longrightarrow>
    ipc_step env J uid reqs s
      (s\<lparr>i_client := c, i_number := (i_number s)(i \<mapsto> n), i_queue := removeAll i (i_queue s)\<rparr>)"
| serve: "\<lbrakk>i_queue s = i # q; i_sent s i = Some out;
      serve env J uid fs rd (i_server s) (client_conn uid out) = (srv, ans)\<rbrakk> \<Longrightarrow>
    ipc_step env J uid reqs s
      (s\<lparr>i_server := srv, i_queue := q, i_answer := (i_answer s)(i \<mapsto> ans)\<rparr>)"

inductive_cases ipc_stepE: "ipc_step env J uid reqs s s'"

definition ipc_init :: "string \<Rightarrow> string \<Rightarrow> 'sk authority \<Rightarrow> ('sk, 'c) ipc_state" where
  "ipc_init path tok auth =
     \<lparr>i_client = client_new path tok, i_server = server_new path auth tok, i_connected = {},
      i_queue = [], i_number = Map.empty, i_sent = Map.empty, i_answer = Map.empty\<rparr>"

section \<open>The invariant\<close>

text \<open>
  Client and server are in step, numbers are given out once and are at most the client's
  counter, and what a session sent is its own request under its own number.
\<close>

definition ipc_inv ::
  "('pk, 'c) ipc_crates \<Rightarrow> (nat \<Rightarrow> 'pk ca_request) \<Rightarrow> ('sk, 'c) ipc_state \<Rightarrow> bool" where
  "ipc_inv J reqs s \<longleftrightarrow>
     in_sync (i_client s, i_server s)
     \<and> (\<forall>i n. i_number s i = Some n \<longrightarrow> n \<le> c_counter (i_client s))
     \<and> inj_on (i_number s) (dom (i_number s))
     \<and> (\<forall>i out. i_sent s i = Some out \<longrightarrow>
          (\<exists>n. i_number s i = Some n
             \<and> encode_request J (c_auth_token (i_client s)) n (reqs i) = Ok out))"

lemma ipc_inv_init: "ipc_inv J reqs (ipc_init path tok auth)"
  by (simp add: ipc_inv_def ipc_init_def in_sync_def client_new_def server_new_def)

lemma ipc_inv_sent:
  "ipc_inv J reqs s \<Longrightarrow> i_sent s i = Some out \<Longrightarrow>
    \<exists>n. i_number s i = Some n \<and> encode_request J (c_auth_token (i_client s)) n (reqs i) = Ok out"
  unfolding ipc_inv_def by blast

lemma fresh_number:
  assumes "next_counter c = (c', Ok n)"
  shows "c_counter c < n" and "c_counter c' = n" and "c_auth_token c' = c_auth_token c"
proof -
  have "c_counter c \<noteq> - 1" and n: "n = c_counter c + 1"
    using assms next_counter_Ok [of c n] by simp_all
  then show "c_counter c < n"
    by (simp add: le_imp_less_inc)
  show "c_counter c' = n" and "c_auth_token c' = c_auth_token c"
    using assms n next_counter_state [of c] next_counter_token [of c] by simp_all
qed

lemma inj_on_upd_fresh:
  assumes "inj_on f (dom f)" and "\<forall>i m. f i = Some m \<longrightarrow> m \<noteq> n"
  shows "inj_on (f(i \<mapsto> n)) (dom (f(i \<mapsto> n)))"
  using assms by (auto simp: inj_on_def dom_def) metis+

lemma ipc_inv_number:
  assumes "ipc_inv J reqs s" and "next_counter (i_client s) = (c, Ok n)"
    and "i_number s i = None"
    and "\<And>out. so = Some out \<Longrightarrow> encode_request J (c_auth_token c) n (reqs i) = Ok out"
  shows "ipc_inv J reqs (s\<lparr>i_client := c, i_number := (i_number s)(i \<mapsto> n),
      i_sent := (i_sent s)(i := so), i_queue := q\<rparr>)"
proof -
  note c = fresh_number [OF assms(2)]
  have le: "\<forall>j m. i_number s j = Some m \<longrightarrow> m \<le> c_counter (i_client s)"
    and inj: "inj_on (i_number s) (dom (i_number s))"
    using assms(1) by (auto simp: ipc_inv_def)
  have "\<forall>j m. i_number s j = Some m \<longrightarrow> m \<noteq> n"
    using le c(1) by fastforce
  with inj have "inj_on ((i_number s)(i \<mapsto> n)) (dom ((i_number s)(i \<mapsto> n)))"
    by (rule inj_on_upd_fresh)
  moreover have "\<forall>j m. ((i_number s)(i \<mapsto> n)) j = Some m \<longrightarrow> m \<le> c_counter c"
  proof (intro allI impI)
    fix j m
    assume "((i_number s)(i \<mapsto> n)) j = Some m"
    with le have "m = n \<or> m \<le> c_counter (i_client s)"
      by (auto split: if_splits)
    with c(1,2) show "m \<le> c_counter c" by auto
  qed
  moreover have "in_sync (c, i_server s)"
    using assms(1) c by (auto simp: ipc_inv_def in_sync_def)
  moreover have "\<exists>m. ((i_number s)(i \<mapsto> n)) j = Some m
      \<and> encode_request J (c_auth_token c) m (reqs j) = Ok out"
    if "((i_sent s)(i := so)) j = Some out" for j out
    using that assms(1,3,4) c(3)
    by (cases "j = i") (auto simp: ipc_inv_def)
  ultimately show ?thesis
    by (simp add: ipc_inv_def)
qed

text \<open>Every step keeps the invariant.\<close>

lemma ipc_inv_step:
  assumes "json_roundtrip J" and "addressable J"
    and "ipc_step env J uid reqs s s'" and "ipc_inv J reqs s"
  shows "ipc_inv J reqs s'"
  using assms(3,4)
proof (induction rule: ipc_step.induct)
  case (connect i s)
  then show ?case by (simp add: ipc_inv_def)
next
  case (send i s c n out)
  have "ipc_inv J reqs (s\<lparr>i_client := c, i_number := (i_number s)(i \<mapsto> n),
      i_sent := (i_sent s)(i := Some out), i_queue := i_queue s\<rparr>)"
    using send by (intro ipc_inv_number) simp_all
  then show ?case by simp
next
  case (quit i s c n e)
  have "\<exists>n. i_number s i = Some n" if "i_sent s i = Some out" for out
    using quit.prems that unfolding ipc_inv_def by blast
  with quit.hyps(2) have "i_sent s i = None"
    by (cases "i_sent s i") auto
  then have same: "(i_sent s)(i := None) = i_sent s"
    by auto
  have "ipc_inv J reqs (s\<lparr>i_client := c, i_number := (i_number s)(i \<mapsto> n),
      i_sent := (i_sent s)(i := None), i_queue := removeAll i (i_queue s)\<rparr>)"
    using quit by (intro ipc_inv_number) simp_all
  then show ?case by (simp add: same)
next
  case (serve s i q out fs rd srv ans)
  then obtain n where n: "i_number s i = Some n"
    and enc: "encode_request J (c_auth_token (i_client s)) n (reqs i) = Ok out"
    using ipc_inv_sent by blast
  have "n \<le> c_counter (i_client s)"
    using serve.prems n by (simp add: ipc_inv_def)
  then have "last_counter srv \<le> c_counter (i_client s)"
    using serve_encoded_last [OF assms(1,2) enc, of env uid fs rd "i_server s"] serve.hyps(3) serve.prems
    by (auto simp: ipc_inv_def in_sync_def)
  moreover have "auth_token srv = auth_token (i_server s)"
    using serve_keeps(1) [of env J uid fs rd "i_server s" "client_conn uid out"] serve.hyps(3) by simp
  ultimately show ?case
    using serve.prems by (auto simp: ipc_inv_def in_sync_def)
qed

lemma ipc_inv_reachable:
  assumes "json_roundtrip J" and "addressable J"
    and "(ipc_step env J uid reqs)\<^sup>*\<^sup>* (ipc_init path tok auth) s"
  shows "ipc_inv J reqs s"
  using assms(3)
  by (induction rule: rtranclp_induct) (auto intro: ipc_inv_init ipc_inv_step [OF assms(1,2)])

lemma turn_admits:
  assumes "json_roundtrip J" and "addressable J" and "ct_eq_exact J"
    and "(ipc_step env J uid reqs)\<^sup>*\<^sup>* (ipc_init path tok auth) s"
    and "i_number s i = Some n" and "i_sent s i = Some out"
  shows "admitted J uid (i_server s) (client_conn uid out) =
    (if last_counter (i_server s) < n
     then Some \<lparr>token = c_auth_token (i_client s), counter = n, request = reqs i\<rparr> else None)"
proof -
  have inv: "ipc_inv J reqs s"
    using ipc_inv_reachable [OF assms(1,2,4)] .
  then have enc: "encode_request J (c_auth_token (i_client s)) n (reqs i) = Ok out"
    using ipc_inv_sent [OF inv assms(6)] assms(5) by auto
  have "ct_eq J (c_auth_token (i_client s)) (auth_token (i_server s))"
    using inv assms(3) by (simp add: ipc_inv_def in_sync_def ct_eq_exact_def)
  with serve_encoded [OF assms(1,2) enc, of uid "i_server s"] show ?thesis by simp
qed

section \<open>Properties\<close>


text \<open>In every reachable state a session whose turn it is gets its own request executed
  exactly when its number is above the last accepted one; the numbers follow the order of
  the \<open>fetch_add\<close>s, the turns the order of the connections.\<close>

theorem served_in_turn:
  assumes "json_roundtrip J" and "addressable J" and "ct_eq_exact J"
    and "(ipc_step env J uid reqs)\<^sup>*\<^sup>* (ipc_init path tok auth) s"
    and "i_number s i = Some n" and "i_sent s i = Some out"
  shows "admitted J uid (i_server s) (client_conn uid out) =
    (if last_counter (i_server s) < n
     then Some \<lparr>token = c_auth_token (i_client s), counter = n, request = reqs i\<rparr> else None)"
  using assms by (rule turn_admits)


text \<open>
  Two sessions with the same harmless request: session 0 connects first, session 1 takes
  its number first.
\<close>

definition example_race ::
  "(bytes, bytes \<times> (string \<times> string) cert_fields) ipc_state"
where
  "example_race = (ipc_init ''/run/ca.sock'' ''secret'' example_authority)
     \<lparr>i_client := (client_new ''/run/ca.sock'' ''secret'')\<lparr>c_counter := 2\<rparr>,
      i_connected := {0, 1}, i_queue := [0, 1], i_number := [1 \<mapsto> 1, 0 \<mapsto> 2],
      i_sent := [1 \<mapsto> frame ''q1'', 0 \<mapsto> frame ''q2'']\<rparr>"

lemma example_encode:
  "encode_request example_json ''secret'' 1 example_user_request = Ok (frame ''q1'')"
  "encode_request example_json ''secret'' 2 example_user_request = Ok (frame ''q2'')"
  by (simp_all add: encode_request_def example_json_def table_json_def example_message_def
      example_user_request_def example_host_request_def payload_len_def MAX_MESSAGE_SIZE_def)

lemma example_race_reachable:
  "(ipc_step example_env example_json 1000 (\<lambda>_. example_user_request))\<^sup>*\<^sup>*
     (ipc_init ''/run/ca.sock'' ''secret'' example_authority) example_race"
proof -
  let ?step = "ipc_step example_env example_json 1000 (\<lambda>_. example_user_request)"
  let ?s0 = "ipc_init ''/run/ca.sock'' ''secret'' example_authority
    :: (bytes, bytes \<times> (string \<times> string) cert_fields) ipc_state"
  let ?s1 = "?s0\<lparr>i_connected := {0}, i_queue := [0]\<rparr>"
  let ?s2 = "?s0\<lparr>i_connected := {0, 1}, i_queue := [0, 1]\<rparr>"
  let ?c = "\<lambda>n. (client_new ''/run/ca.sock'' ''secret'')\<lparr>c_counter := n\<rparr>"
  let ?s3 = "?s2\<lparr>i_client := ?c 1, i_number := [1 \<mapsto> 1], i_sent := [1 \<mapsto> frame ''q1'']\<rparr>"
  have "?step ?s0 ?s1"
    using ipc_step.connect [of 0 ?s0] by (simp add: ipc_init_def)
  moreover have "?step ?s1 ?s2"
    using ipc_step.connect [of 1 ?s1] by (simp add: ipc_init_def insert_commute)
  moreover have "?step ?s2 ?s3"
    using ipc_step.send [of 1 ?s2 "?c 1" 1 example_json "\<lambda>_. example_user_request" "frame ''q1''"]
      example_encode(1)
    by (simp add: ipc_init_def next_counter_def client_new_def checked_add_def)
  moreover have "?step ?s3 example_race"
    using ipc_step.send [of 0 ?s3 "?c 2" 2 example_json "\<lambda>_. example_user_request" "frame ''q2''"]
      example_encode(2)
    by (simp add: ipc_init_def next_counter_def client_new_def checked_add_def example_race_def)
  ultimately show ?thesis
    by (meson rtranclp.rtrancl_into_rtrancl rtranclp.rtrancl_refl)
qed

lemma example_addressable: "addressable example_json"
  by (auto simp: addressable_def example_json_def table_json_def split: if_splits)



lemma served_in_turn_witness:
  "admitted example_json 1000 (i_server example_race) (client_conn 1000 (frame ''q2'')) \<noteq> None"
proof -
  have "i_number example_race 0 = Some 2" and "i_sent example_race 0 = Some (frame ''q2'')"
    by (simp_all add: example_race_def)
  from served_in_turn [OF example_json_roundtrip example_addressable example_json_ct_eq
      example_race_reachable this]
  show ?thesis
    by (simp add: example_race_def ipc_init_def server_new_def)
qed

end
