(* ===== verification/Test_Support.thy ===== *)
theory Test_Support
  imports Host_Inventory User_Defaults
begin

text \<open>
  What the unit tests and the fuzz targets of the repository use of the language and of
  \<open>std::fs\<close>: assertions and \<open>unwrap\<close> as values of \<open>outcome\<close> (a test passes when it is
  \<open>Ok ()\<close>), creating files, directories and links, and fresh temporary directories. The
  tests run on the model: \<open>Inventory_Tests\<close>, \<open>Defaults_Tests\<close>, \<open>Authority_Tests\<close> and
  \<open>Counter_Tests\<close> translate the inline test modules and prove that they pass.
\<close>

section \<open>Assertions and unwrapping\<close>

named_theorems test_simps \<comment> \<open>what evaluates a test symbolically\<close>

definition assert_that :: "bool \<Rightarrow> unit outcome" where
  "assert_that b = (if b then Ok () else Panic ''assertion failed'')"

primrec assert_each :: "('a \<Rightarrow> bool) \<Rightarrow> 'a list \<Rightarrow> unit outcome" where
  "assert_each p [] = Ok ()"
| "assert_each p (x # xs) = and_then (assert_that (p x)) (\<lambda>_. assert_each p xs)"

lemma assert_that_True [test_simps]: "assert_that True = Ok ()"
  by (simp add: assert_that_def)

lemma assert_each_Ok: "(\<forall>x \<in> set xs. p x) \<Longrightarrow> assert_each p xs = Ok ()"
  by (induction xs) (auto simp: assert_that_def)

text \<open>\<open>let _ = r\<close>: a result is dropped, a panic is not.\<close>

fun discard :: "'a outcome \<Rightarrow> unit outcome" where
  "discard (Panic m) = Panic m"
| "discard r = Ok ()"

lemma discard_Ok: "(\<And>m. r \<noteq> Panic m) \<Longrightarrow> discard r = Ok ()"
  by (cases r) auto

text \<open>
  \<open>attempt\<close> binds a \<open>Result\<close> to a name: its error becomes a value that \<open>unwrap\<close> or
  \<open>unwrap_err\<close> look into. \<open>must r\<close> is \<open>r.unwrap()\<close>.
\<close>

fun attempt :: "'a outcome \<Rightarrow> (error + 'a) outcome" where
  "attempt (Ok x) = Ok (Inr x)"
| "attempt (Err e) = Ok (Inl e)"
| "attempt (Panic m) = Panic m"

fun unwrap :: "error + 'a \<Rightarrow> 'a outcome" where
  "unwrap (Inr x) = Ok x"
| "unwrap (Inl e) = Panic (''called `Result::unwrap()` on an `Err` value: '' @ error_display e)"

fun unwrap_err :: "error + 'a \<Rightarrow> error outcome" where
  "unwrap_err (Inl e) = Ok e"
| "unwrap_err (Inr x) = Panic ''called `Result::unwrap_err()` on an `Ok` value''"

definition is_ok :: "error + 'a \<Rightarrow> bool" where
  "is_ok r \<longleftrightarrow> \<not> isl r"

definition must :: "'a outcome \<Rightarrow> 'a outcome" where
  "must r = and_then (attempt r) unwrap"

lemma must_Ok [test_simps]: "must (Ok x) = Ok x"
  by (simp add: must_def)

lemma is_ok_simps [test_simps]: "is_ok (Inr x)" "\<not> is_ok (Inl e)"
  by (simp_all add: is_ok_def)

section \<open>Creating files\<close>

definition put :: "fs \<Rightarrow> string list \<Rightarrow> node \<Rightarrow> fs" where
  "put fs ns nd = fs\<lparr>fs_nodes := (fs_nodes fs)(ns \<mapsto> nd)\<rparr>"

text \<open>
  A new directory entry under the last name of a path. The directory must be there, may be
  searched and (as in a directory of one's own) written to.
\<close>

definition create_entry :: "fs \<Rightarrow> path \<Rightarrow> node \<Rightarrow> io_error + fs" where
  "create_entry fs p nd =
     (case (rev (components p), path_parent p) of
        (Normal n # _, Some d) \<Rightarrow>
          (case (if d = [] then Inr (fs_cwd fs) else resolve_path fs d) of
             Inl e \<Rightarrow> Inl e
           | Inr dir \<Rightarrow>
               if node_at fs dir \<noteq> Some Dir then Inl NotADirectory
               else if \<not> fs_access fs dir then Inl PermissionDenied
               else if fs_nodes fs (dir @ [n]) \<noteq> None then Inl (OtherIo ''File exists (os error 17)'')
               else Inr (put fs (dir @ [n]) nd))
      | _ \<Rightarrow> Inl (OtherIo ''File exists (os error 17)''))"

text \<open>\<open>fs::write\<close> (and \<open>File::create\<close> with \<open>write_all\<close>) replaces a file or creates it.\<close>

definition write_file :: "fs \<Rightarrow> path \<Rightarrow> bytes \<Rightarrow> io_error + fs" where
  "write_file fs p b =
     (case resolve_path fs p of
        Inr q \<Rightarrow>
          if node_at fs q = Some Dir then Inl IsADirectory
          else if \<not> fs_access fs q then Inl PermissionDenied
          else Inr (put fs q (File b))
      | Inl NotFound \<Rightarrow> if p \<noteq> [] \<and> last p = slash then Inl IsADirectory else create_entry fs p (File b)
      | Inl e \<Rightarrow> Inl e)"

definition create_dir :: "fs \<Rightarrow> path \<Rightarrow> io_error + fs" where
  "create_dir fs p = create_entry fs p Dir"

definition symlink :: "fs \<Rightarrow> path \<Rightarrow> path \<Rightarrow> io_error + fs" where
  "symlink fs original link = create_entry fs link (Link original)"

text \<open>\<open>fs::create_dir_all\<close> goes through the ancestors from the first one on.\<close>

definition is_dir :: "fs \<Rightarrow> path \<Rightarrow> bool" where
  "is_dir fs p = (case resolve_path fs p of Inr q \<Rightarrow> node_at fs q = Some Dir | Inl _ \<Rightarrow> False)"

primrec create_dirs :: "fs \<Rightarrow> path list \<Rightarrow> io_error + fs" where
  "create_dirs fs [] = Inr fs"
| "create_dirs fs (p # ps) =
     (if is_dir fs p then create_dirs fs ps
      else (case create_dir fs p of Inl e \<Rightarrow> Inl e | Inr fs' \<Rightarrow> create_dirs fs' ps))"

definition create_dir_all :: "fs \<Rightarrow> path \<Rightarrow> io_error + fs" where
  "create_dir_all fs p = create_dirs fs (map Rust_Path.render (tl (prefixes (components p))))"

section \<open>Temporary directories\<close>

text \<open>A directory of proper names that can be searched.\<close>

definition home :: "fs \<Rightarrow> string list \<Rightarrow> bool" where
  "home fs d \<longleftrightarrow> physical_dir fs d \<and> (\<forall>n \<in> set d. proper_name n) \<and> fs_access fs d"

text \<open>\<open>TempDir::new()\<close>: a new directory, empty and accessible, somewhere in any file system.\<close>

definition temp_dir :: "fs \<Rightarrow> string list \<Rightarrow> bool" where
  "temp_dir fs base \<longleftrightarrow> base \<noteq> [] \<and> home fs base \<and> (\<forall>ns. fs_access fs (base @ ns))
     \<and> (\<forall>ns. ns \<noteq> [] \<longrightarrow> fs_nodes fs (base @ ns) = None)"

lemma put_simps [simp, test_simps]:
  "fs_nodes (put fs q nd) r = (if r = q then Some nd else fs_nodes fs r)"
  "fs_access (put fs q nd) = fs_access fs" "fs_cwd (put fs q nd) = fs_cwd fs"
  by (simp_all add: put_def)

lemma home_names: "home fs d \<Longrightarrow> \<forall>n \<in> set d. proper_name n"
  by (simp add: home_def)

lemma home_put [test_simps]:
  assumes "home fs d" and "fs_nodes fs q \<noteq> Some Dir"
  shows "home (put fs q nd) d"
proof -
  have "node_at (put fs q nd) r = Some Dir" if "node_at fs r = Some Dir" for r
    using that assms(2) by (auto simp: node_at_def split: if_splits)
  with assms(1) show ?thesis
    by (auto simp: home_def physical_dir_def physical_def)
qed

lemma home_put_dir [test_simps]:
  assumes "home fs d" and "proper_name n" and "fs_access fs (d @ [n])"
    and "fs_nodes fs (d @ [n]) = None"
  shows "home (put fs (d @ [n]) Dir) (d @ [n])"
proof -
  have "home (put fs (d @ [n]) Dir) d"
    using assms(1,4) by (intro home_put) simp_all
  with assms(2,3) show ?thesis
    by (auto simp: home_def intro!: physical_dir_snoc)
qed

lemma home_parent:
  assumes "home fs (d @ [n])"
  shows "home fs d"
  using assms physical_dir_butlast [of fs "d @ [n]"]
  by (auto simp: home_def physical_dir_def physical_def)

text \<open>Going down a directory without links follows none.\<close>

lemma resolve_down:
  assumes "physical_dir fs (cur @ q)" and "\<forall>n \<in> set q. proper_name n"
  shows "resolve fs b cur (q @ ms) = resolve fs b (cur @ q) ms"
  using assms
proof (induction q arbitrary: cur)
  case Nil
  then show ?case by simp
next
  case (Cons n q)
  have n: "n \<noteq> ''.''" "n \<noteq> ''..''"
    using Cons.prems(2) by (auto simp: proper_name_def)
  have acc: "fs_access fs cur"
    using Cons.prems(1) by (auto simp: physical_dir_def physical_def dest!: spec [of _ "length cur"])
  have "node_at fs (cur @ [n]) = Some Dir"
    using Cons.prems(1)
    by (cases "q = []") (auto simp: physical_dir_def physical_def dest!: spec [of _ "Suc (length cur)"])
  then have "fs_nodes fs (cur @ [n]) = Some Dir"
    by (simp add: node_at_def)
  with n acc Cons.IH [of "cur @ [n]"] Cons.prems show ?case
    by (simp add: resolve.simps(2))
qed

lemma resolve_home:
  assumes "home fs d" and "proper_name n"
  shows "resolve_path fs (abs_path (d @ [n])) = resolve fs max_links d [n]"
proof -
  have "walk_names (abs_path (d @ [n])) = d @ [n]"
    using assms by (intro walk_names_abs_path) (auto simp: home_def)
  moreover have "resolve fs max_links [] (d @ [n]) = resolve fs max_links d [n]"
    using assms(1) resolve_down [of fs "[]" d] by (simp add: home_def)
  ultimately show ?thesis
    by (simp add: resolve_path_def) (simp add: abs_path_def)
qed

lemma resolve_home_dir [test_simps]: "home fs d \<Longrightarrow> resolve_path fs (abs_path d) = Inr d"
  by (simp add: home_def physical_dir_def resolve_abs_path)

lemma node_at_home: "home fs d \<Longrightarrow> node_at fs d = Some Dir"
  by (simp add: home_def physical_dir_def)

lemma resolve_entry [test_simps]:
  assumes "home fs d" and "proper_name n" and "fs_nodes fs (d @ [n]) = Some (File b)"
  shows "resolve_path fs (abs_path (d @ [n])) = Inr (d @ [n])"
  using assms by (auto simp: resolve_home resolve.simps(2) home_def proper_name_def)

lemma resolve_link:
  assumes "home fs d" and "proper_name n" and "fs_nodes fs (d @ [n]) = Some (Link (abs_path (e @ [m])))"
    and "home fs e" and "proper_name m" and "fs_nodes fs (e @ [m]) = Some (File b)"
  shows "resolve_path fs (abs_path (d @ [n])) = Inr (e @ [m])"
proof -
  have walk: "walk_names (abs_path (e @ [m])) = e @ [m]"
    using assms(4,5) by (intro walk_names_abs_path) (auto simp: home_def)
  have "resolve fs k [] (e @ [m]) = Inr (e @ [m])" for k
    using assms(4-6) resolve_down [of fs "[]" e k "[m]"]
    by (simp add: home_def resolve.simps(2)) (simp add: proper_name_def)
  then show ?thesis
    using assms(1-3) walk
    by (simp add: resolve_home resolve.simps(2) home_def max_links_def split: nat.split)
      (auto simp: proper_name_def abs_path_def)
qed

lemma path_parent_abs_path:
  assumes "\<forall>n \<in> set (d @ [m]). proper_name n"
  shows "path_parent (abs_path (d @ [m])) = Some (abs_path d)"
proof -
  have "components (abs_path (d @ [m])) = RootDir # map Normal (d @ [m])"
    using assms by (rule components_abs_path)
  moreover have "Rust_Path.render (RootDir # map Normal d) = abs_path d"
    by (simp add: abs_path_def comp_def)
  ultimately show ?thesis
    by (simp add: path_parent_def)
qed

lemma create_entry_new [test_simps]:
  assumes "home fs d" and "proper_name n" and "fs_nodes fs (d @ [n]) = None"
  shows "create_entry fs (abs_path (d @ [n])) nd = Inr (put fs (d @ [n]) nd)"
proof -
  have names: "\<forall>m \<in> set (d @ [n]). proper_name m"
    using assms(1,2) by (auto simp: home_def)
  have "components (abs_path (d @ [n])) = RootDir # map Normal (d @ [n])"
    using names by (rule components_abs_path)
  then show ?thesis
    using assms path_parent_abs_path [OF names] resolve_home_dir [OF assms(1)] node_at_home [OF assms(1)]
    by (simp add: create_entry_def home_def) (simp add: abs_path_def)
qed

text \<open>Writing a file in a directory creates it or replaces it, with the same effect.\<close>

lemma write_entry [test_simps]:
  assumes "home fs d" and "proper_name n" and "fs_access fs (d @ [n])"
    and "fs_nodes fs (d @ [n]) = None \<or> (\<exists>c. fs_nodes fs (d @ [n]) = Some (File c))"
  shows "write_file fs (abs_path (d @ [n])) b = Inr (put fs (d @ [n]) (File b))"
  using assms(4)
proof
  assume none: "fs_nodes fs (d @ [n]) = None"
  have names: "\<forall>m \<in> set (d @ [n]). proper_name m"
    using assms(1,2) by (auto simp: home_def)
  have "join_with [slash] (d @ [n]) \<noteq> [] \<and> last (join_with [slash] (d @ [n])) \<noteq> slash"
    using names by (intro join_proper) auto
  then have "last (abs_path (d @ [n])) \<noteq> slash"
    by (simp add: abs_path_def)
  moreover have "resolve_path fs (abs_path (d @ [n])) = Inl NotFound"
    using assms(1,2) none by (auto simp: resolve_home resolve.simps(2) home_def proper_name_def)
  ultimately show ?thesis
    using create_entry_new [OF assms(1,2) none] by (simp add: write_file_def)
next
  assume "\<exists>c. fs_nodes fs (d @ [n]) = Some (File c)"
  then obtain c where "fs_nodes fs (d @ [n]) = Some (File c)" ..
  with resolve_entry [OF assms(1,2) this] assms(3) show ?thesis
    by (simp add: write_file_def node_at_def)
qed

lemma canonical_entry [test_simps]:
  assumes "home fs d" and "proper_name n" and "fs_nodes fs (d @ [n]) = Some (File b)"
  shows "canonicalize fs (abs_path (d @ [n])) = Inr (abs_path (d @ [n]))"
  using resolve_entry [OF assms] by (simp add: canonicalize_def)

lemma canonical_home [test_simps]: "home fs d \<Longrightarrow> canonicalize fs (abs_path d) = Inr (abs_path d)"
  by (simp add: canonicalize_def resolve_home_dir)

lemma read_entry [test_simps]:
  assumes "home fs d" and "proper_name n" and "fs_access fs (d @ [n])"
    and "fs_nodes fs (d @ [n]) = Some (File b)"
  shows "read_to_end fs (abs_path (d @ [n])) = Inr b"
    and "valid_utf8 b \<Longrightarrow> read_to_string fs (abs_path (d @ [n])) = Inr b"
  using resolve_entry [OF assms(1,2,4)] assms(3,4)
  by (simp_all add: read_to_string_def read_to_end_def read_at_def node_at_def from_utf8_def)

lemma push_home:
  assumes "home fs d" and "proper_name n"
  shows "path_push (abs_path d) n = abs_path (d @ [n])"
  using assms by (simp add: home_def push_abs_path)

lemma temp_dirD [test_simps]:
  assumes "temp_dir fs base"
  shows "home fs base" and "fs_access fs (base @ ns)" and "ns \<noteq> [] \<Longrightarrow> fs_nodes fs (base @ ns) = None"
    and "fs_access fs base"
  using assms by (simp_all add: temp_dir_def home_def)

text \<open>\<open>create_dir_all\<close> on an absolute path; ancestors that are there are left alone.\<close>

lemma create_dir_all_abs:
  assumes "\<And>n. n \<in> set ns \<Longrightarrow> proper_name n"
  shows "create_dir_all fs (abs_path ns) = create_dirs fs (map abs_path (prefixes ns))"
proof -
  have r: "Rust_Path.render (RootDir # map Normal ms) = abs_path ms" for ms
    by (simp add: abs_path_def comp_def)
  have "prefixes (map Normal ns) = map (map Normal) (prefixes ns)"
    by (induction ns) (simp_all add: comp_def)
  then have "map Rust_Path.render (tl (prefixes (components (abs_path ns)))) = map abs_path (prefixes ns)"
    using assms by (simp add: components_abs_path comp_def r del: Rust_Path.render.simps)
  then show ?thesis
    by (simp add: create_dir_all_def)
qed

lemma create_dirs_home:
  assumes "home fs d"
  shows "create_dirs fs (map abs_path (prefixes d) @ ps) = create_dirs fs ps"
proof -
  have "create_dirs fs (map abs_path es @ ps) = create_dirs fs ps"
    if "\<forall>e \<in> set es. prefix e d" for es
    using that
  proof (induction es)
    case (Cons e es)
    then obtain r where d: "d = e @ r"
      by (auto simp: prefix_def)
    have "home fs (e @ s)" if "home fs ((e @ s) @ r)" for r s
      using that by (induction r rule: rev_induct) (auto dest: home_parent simp flip: append_assoc)
    from this [of "[]" r] assms d have "home fs e" by simp
    with Cons show ?case
      by (simp add: is_dir_def resolve_home_dir node_at_home)
  qed simp
  then show ?thesis
    by (simp add: in_set_prefixes)
qed

lemma is_dir_new: "home fs d \<Longrightarrow> proper_name n \<Longrightarrow> fs_nodes fs (d @ [n]) = None \<Longrightarrow> \<not> is_dir fs (abs_path (d @ [n]))"
  by (auto simp: is_dir_def resolve_home resolve.simps(2) home_def proper_name_def)

lemma create_dirs_new:
  assumes "home fs d" and "proper_name n" and "fs_nodes fs (d @ [n]) = None"
  shows "create_dirs fs (abs_path (d @ [n]) # ps) = create_dirs (put fs (d @ [n]) Dir) ps"
  using is_dir_new [OF assms] create_entry_new [OF assms] by (simp add: create_dir_def)

section \<open>The texts of the tests\<close>

definition unlines :: "string list \<Rightarrow> string" where
  "unlines ls = concat (map (\<lambda>l. l @ [CHR 0x0A]) ls)"

definition quoted :: "string \<Rightarrow> string" where
  "quoted s = [CHR 0x22] @ s @ [CHR 0x22]"

text \<open>An inventory entry, as the tests of three modules write it.\<close>

definition entry_text :: "string \<Rightarrow> string \<Rightarrow> string" where
  "entry_text key hostname = unlines
     [[], ''public_key = '' @ quoted key, ''validity_in_days = 30'',
      ''hostnames = ['' @ quoted hostname @ '']'', ''extensions = []'']"

lemma valid_utf8_Cons_ascii: "is_ascii c \<Longrightarrow> valid_utf8 s \<Longrightarrow> valid_utf8 (c # s)"
  using valid_utf8_append [of "[c]" s] ascii_valid [of "[c]"] by simp

lemma valid_utf8_quoted: "valid_utf8 s \<Longrightarrow> valid_utf8 (quoted s)"
  by (simp add: quoted_def valid_utf8_Cons_ascii valid_utf8_append ascii_valid is_ascii_def)

lemma valid_utf8_unlines:
  assumes "\<forall>l \<in> set ls. valid_utf8 l"
  shows "valid_utf8 (unlines ls)"
  using assms
proof (induction ls)
  case Nil
  then show ?case by (simp add: unlines_def ascii_valid)
next
  case (Cons l ls)
  then show ?case
    by (simp add: unlines_def valid_utf8_append valid_utf8_Cons_ascii is_ascii_def)
qed

lemma entry_text_valid [test_simps]:
  "valid_utf8 key \<Longrightarrow> valid_utf8 hostname \<Longrightarrow> valid_utf8 (entry_text key hostname)"
  unfolding entry_text_def
  by (rule valid_utf8_unlines)
    (simp add: valid_utf8_Cons_ascii valid_utf8_append valid_utf8_quoted ascii_valid is_ascii_def)

text \<open>A file that may be created or replaced in a directory.\<close>

definition writable :: "fs \<Rightarrow> string list \<Rightarrow> string \<Rightarrow> bool" where
  "writable fs d n \<longleftrightarrow> fs_access fs (d @ [n])
     \<and> (fs_nodes fs (d @ [n]) = None \<or> (\<exists>c. fs_nodes fs (d @ [n]) = Some (File c)))"

subsection \<open>Several files\<close>

primrec write_all :: "fs \<Rightarrow> (path \<times> bytes) list \<Rightarrow> fs outcome" where
  "write_all fs [] = Ok fs"
| "write_all fs (pb # pbs) =
     and_then (must (io_result (write_file fs (fst pb) (snd pb)))) (\<lambda>fs. write_all fs pbs)"

primrec with_files :: "fs \<Rightarrow> string list \<Rightarrow> (string \<times> bytes) list \<Rightarrow> fs" where
  "with_files fs d [] = fs"
| "with_files fs d (nb # nbs) = with_files (put fs (d @ [fst nb]) (File (snd nb))) d nbs"

text \<open>Names of files that are not there yet, or are no directories.\<close>

definition new_files :: "fs \<Rightarrow> string list \<Rightarrow> (string \<times> bytes) list \<Rightarrow> bool" where
  "new_files fs d nbs \<longleftrightarrow> distinct (map fst nbs) \<and> list_all (\<lambda>n. proper_name n \<and> writable fs d n) (map fst nbs)"

lemma files_node:
  "(\<And>n. n \<in> set (map fst nbs) \<Longrightarrow> q \<noteq> d @ [n]) \<Longrightarrow> fs_nodes (with_files fs d nbs) q = fs_nodes fs q"
  "fs_access (with_files fs d nbs) = fs_access fs" "fs_cwd (with_files fs d nbs) = fs_cwd fs"
  by (induction nbs arbitrary: fs) auto

lemma files_node_in:
  "distinct (map fst nbs) \<Longrightarrow> (n, b) \<in> set nbs \<Longrightarrow> fs_nodes (with_files fs d nbs) (d @ [n]) = Some (File b)"
proof (induction nbs arbitrary: fs)
  case (Cons nb nbs)
  show ?case
  proof (cases "nb = (n, b)")
    case True
    with Cons.prems(1) have "n \<notin> set (map fst nbs)" by simp
    then have "fs_nodes (with_files (put fs (d @ [n]) (File b)) d nbs) (d @ [n]) = Some (File b)"
      by (subst files_node) auto
    with True show ?thesis by simp
  next
    case False
    with Cons show ?thesis by simp
  qed
qed simp

lemma new_files_put:
  assumes "new_files fs d (nb # nbs)"
  shows "new_files (put fs (d @ [fst nb]) (File (snd nb))) d nbs"
  using assms by (auto simp: new_files_def writable_def list_all_iff)

lemma files_home:
  assumes "home fs e" and "new_files fs d nbs"
  shows "home (with_files fs d nbs) e"
  using assms
proof (induction nbs arbitrary: fs)
  case (Cons nb nbs)
  have "home (put fs (d @ [fst nb]) (File (snd nb))) e"
    using Cons.prems by (intro home_put) (auto simp: new_files_def writable_def)
  with Cons.IH [OF this new_files_put [OF Cons.prems(2)]] show ?case by simp
qed simp

lemma write_all_files:
  assumes "home fs d" and "new_files fs d nbs"
  shows "write_all fs (map (\<lambda>nb. (abs_path (d @ [fst nb]), snd nb)) nbs) = Ok (with_files fs d nbs)"
  using assms
proof (induction nbs arbitrary: fs)
  case (Cons nb nbs)
  have "write_file fs (abs_path (d @ [fst nb])) (snd nb) = Inr (put fs (d @ [fst nb]) (File (snd nb)))"
    using Cons.prems by (intro write_entry) (auto simp: new_files_def writable_def)
  moreover have "home (put fs (d @ [fst nb]) (File (snd nb))) d"
    using Cons.prems by (intro home_put) (auto simp: new_files_def writable_def)
  ultimately show ?case
    using Cons.IH new_files_put [OF Cons.prems(2)] by (simp add: must_Ok)
qed simp

lemma files_read:
  assumes "home fs d" and "new_files fs d nbs" and "(n, b) \<in> set nbs"
  shows "read_to_end (with_files fs d nbs) (abs_path (d @ [n])) = Inr b"
    and "valid_utf8 b \<Longrightarrow> read_to_string (with_files fs d nbs) (abs_path (d @ [n])) = Inr b"
proof -
  have n: "proper_name n" "writable fs d n"
    using assms(2,3) by (force simp: new_files_def list_all_iff)+
  then have acc: "fs_access (with_files fs d nbs) (d @ [n])"
    by (simp add: files_node(2) writable_def)
  have nd: "fs_nodes (with_files fs d nbs) (d @ [n]) = Some (File b)"
    using assms(2,3) by (intro files_node_in) (simp_all add: new_files_def)
  show "read_to_end (with_files fs d nbs) (abs_path (d @ [n])) = Inr b"
    and "valid_utf8 b \<Longrightarrow> read_to_string (with_files fs d nbs) (abs_path (d @ [n])) = Inr b"
    using read_entry [OF files_home [OF assms(1,2)] n(1) acc nd] by simp_all
qed

lemma new_files_temp:
  assumes "temp_dir fs base"
  shows "new_files fs base nbs \<longleftrightarrow> distinct (map fst nbs) \<and> list_all proper_name (map fst nbs)"
  using assms by (simp add: new_files_def writable_def temp_dir_def list_all_iff)

section \<open>Inventories with one entry\<close>

text \<open>
  What the tests of the search need of the crates: the TOML parser reads the entry back, and
  the glob finds the one file.
\<close>

definition reads_entry :: "host_config toml_parser \<Rightarrow> string \<Rightarrow> string \<Rightarrow> bool" where
  "reads_entry from_str key hostname \<longleftrightarrow>
     from_str (entry_text key hostname) = Inr \<lparr>hc_public_key = key, hc_validity_in_days = 30,
       hc_hostnames = [hostname], hc_extensions = []\<rparr>"

definition globs_to :: "glob_crate \<Rightarrow> string list \<Rightarrow> string list \<Rightarrow> bool" where
  "globs_to glob d ns \<longleftrightarrow>
     glob (abs_path d @ ''/**/*.toml'') = Inr (map (\<lambda>n. Some (abs_path (d @ [n]))) ns)"

lemma file_stem_toml:
  assumes "\<forall>m \<in> set d. proper_name m" and "proper_name (n @ ''.toml'')" and "n \<noteq> []"
  shows "file_stem (abs_path (d @ [n @ ''.toml''])) = Some n"
  using assms stem_dot [of n "''toml''"] by (simp add: file_stem_def components_abs_path)

lemma valid_utf8_abs_push:
  assumes "\<forall>m \<in> set d. proper_name m" and "proper_name n" and "valid_utf8 (abs_path d)" and "valid_utf8 n"
  shows "valid_utf8 (abs_path (d @ [n]))"
  using valid_utf8_path_push [OF assms(3,4)] push_abs_path [OF assms(1,2)] by simp

text \<open>The search in an inventory that holds one file.\<close>

lemma find_one:
  assumes "home fs d" and "valid_utf8 (abs_path d)" and "proper_name (n @ ''.toml'')" and "valid_utf8 n" and "n \<noteq> []"
    and "fs_access fs (d @ [n @ ''.toml''])" and "fs_nodes fs (d @ [n @ ''.toml'']) = Some (File t)" and "valid_utf8 t"
    and "host_inventory cfg = abs_path d" and "globs_to glob d [n @ ''.toml'']"
    and "from_str t = Inr hc"
  shows "find_config_by_public_key K from_str glob debug_on fs key cfg = Ok
    (case pk_from_openssh K key of Inl _ \<Rightarrow> None | Inr k \<Rightarrow>
       (case pk_from_openssh K (hc_public_key hc) of Inl _ \<Rightarrow> None | Inr k' \<Rightarrow>
          if pk_key_data K k' = pk_key_data K k then Some (n, hc) else None))"
proof -
  have names: "\<forall>m \<in> set d. proper_name m"
    using assms(1) by (rule home_names)
  have u: "valid_utf8 (abs_path (d @ [n @ ''.toml'']))"
    using names assms(2-4)
    by (intro valid_utf8_abs_push valid_utf8_append) (simp_all add: ascii_valid is_ascii_def)
  have c: "canonicalize fs (abs_path (d @ [n @ ''.toml''])) = Inr (abs_path (d @ [n @ ''.toml'']))"
    using assms(1,3,7) by (rule canonical_entry)
  have r: "read_to_string fs (abs_path (d @ [n @ ''.toml''])) = Inr t"
    using read_entry(2) [OF assms(1,3,6,7,8)] .
  have s: "path_starts_with (abs_path (d @ [n @ ''.toml''])) (abs_path d)"
    using names assms(3) by (simp add: starts_with_abs_path)
  have e: "host_entry K from_str fs (abs_path d) kd (abs_path (d @ [n @ ''.toml''])) =
      (case pk_from_openssh K (hc_public_key hc) of Inl _ \<Rightarrow> None | Inr k' \<Rightarrow>
         if pk_key_data K k' = kd then Some hc else None)" for kd
    using c r s assms(11) by (simp add: host_entry_def split: sum.split)
  show ?thesis
    using canonical_home [OF assms(1)] assms(2,4,9,10) u file_stem_toml [OF names assms(3,5)]
    by (simp add: find_config_by_public_key_def globs_to_def find_in_step e List.map_filter_def
        split: sum.split)
qed

lemma find_none:
  assumes "home fs d" and "valid_utf8 (abs_path d)" and "host_inventory cfg = abs_path d" and "globs_to glob d []"
  shows "find_config_by_public_key K from_str glob debug_on fs key cfg = Ok None"
  using canonical_home [OF assms(1)] assms(2-4)
  by (simp add: find_config_by_public_key_def globs_to_def List.map_filter_def split: sum.split)

section \<open>Templates\<close>

text \<open>A user template, as the tests write it, and what the template engine and the TOML
  parser are expected to make of a template for a user.\<close>

definition template_text :: "nat \<Rightarrow> string list \<Rightarrow> string list \<Rightarrow> string" where
  "template_text days principals extensions = unlines
     [[], ''validity_in_days = '' @ dec days,
      ''principals = ['' @ join_with '', '' (map quoted principals) @ '']'',
      ''extensions = ['' @ join_with '', '' (map quoted extensions) @ '']'']"

definition user_tag :: string where
  "user_tag = ''{{ user_name }}''"

definition renders ::
  "jinja \<Rightarrow> user_defaults toml_parser \<Rightarrow> string \<Rightarrow> string \<Rightarrow> user_defaults \<Rightarrow> bool" where
  "renders render_template from_str user template d \<longleftrightarrow>
     (\<exists>out. render_template user template [(''user_name'', JStr user)] = Inr out \<and> from_str out = Inr d)"

lemma read_user_defaults_renders:
  assumes "read_to_string fs (user_list_file cfg) = Inr lt" and "ul_from_str lt = Inr ul"
    and "user_template_path ul user cfg = Ok p" and "read_to_string fs p = Inr template"
    and "length template \<le> 65536" and "renders render_template ud_from_str user template d"
  shows "read_user_defaults ul_from_str ud_from_str render_template fs user cfg = Ok d"
  using assms unfolding read_user_defaults_Ok renders_def by (auto simp: MAX_TEMPLATE_SIZE_def)

section \<open>The directory of a test authority\<close>

text \<open>The configuration struct that the tests of three modules build in their directory.\<close>

definition test_config :: "path \<Rightarrow> ca_cfg" where
  "test_config base_path =
     \<lparr>user_list_file = path_push base_path ''user.toml'',
      default_user_template = path_push base_path ''user_default.toml'',
      host_inventory = path_push base_path ''hosts'', ca_key = path_push base_path ''ca_key''\<rparr>"

lemma test_file_names:
  "proper_name ''user.toml''" "proper_name ''user_default.toml''" "proper_name ''ca_key''"
  "proper_name ''admin_template.toml''" "proper_name ''templates''" "proper_name ''special.toml''"
  "proper_name ''test_key''" "proper_name ''config.toml''" "proper_name ''config''"
  "proper_name ''test_data''" "proper_name ''test_user_template.toml''" "proper_name ''user_cert_config.toml''"
  "proper_name ''hosts''" "proper_name ''myserver.toml''" "proper_name ''testhost.toml''" "proper_name ''ca.sock''"
  by (simp_all add: proper_name_def)

text \<open>The tests' templates are short ASCII texts.\<close>

definition short_text :: "string \<Rightarrow> bool" where
  "short_text t \<longleftrightarrow> list_all is_ascii t \<and> length t \<le> 65536"

lemma short_text_valid: "short_text t \<Longrightarrow> valid_utf8 t"
  by (auto simp: short_text_def list_all_iff intro: ascii_valid)

lemma test_config_paths:
  assumes "\<forall>n \<in> set base. proper_name n"
  shows "user_list_file (test_config (abs_path base)) = abs_path (base @ [''user.toml''])"
    and "default_user_template (test_config (abs_path base)) = abs_path (base @ [''user_default.toml''])"
  using assms by (simp_all add: test_config_def push_abs_path test_file_names)

lemma write_all_pushed:
  assumes "home fs base" and "new_files fs base nbs" and "pbs = map (\<lambda>nb. (path_push (abs_path base) (fst nb), snd nb)) nbs"
  shows "write_all fs pbs = Ok (with_files fs base nbs)"
proof -
  have "pbs = map (\<lambda>nb. (abs_path (base @ [fst nb]), snd nb)) nbs"
    using assms by (auto simp: new_files_def list_all_iff home_names push_abs_path)
  with write_all_files [OF assms(1,2)] show ?thesis by simp
qed

definition holds :: "fs \<Rightarrow> string list \<Rightarrow> string \<Rightarrow> bytes \<Rightarrow> bool" where
  "holds fs d n b \<longleftrightarrow> fs_access fs (d @ [n]) \<and> fs_nodes fs (d @ [n]) = Some (File b)"

lemma files_holds:
  assumes "new_files fs d nbs" and "(n, b) \<in> set nbs"
  shows "holds (with_files fs d nbs) d n b"
proof -
  have "writable fs d n"
    using assms by (force simp: new_files_def list_all_iff)
  with assms show ?thesis
    by (simp add: holds_def new_files_def files_node(2) files_node_in writable_def)
qed

lemma holds_put: "holds fs d n b \<Longrightarrow> d @ [n] \<noteq> q \<Longrightarrow> holds (put fs q nd) d n b"
  by (simp add: holds_def)

lemma holds_read:
  assumes "home fs d" and "holds fs d n b" and "proper_name n"
  shows "read_to_end fs (abs_path (d @ [n])) = Inr b"
    and "valid_utf8 b \<Longrightarrow> read_to_string fs (abs_path (d @ [n])) = Inr b"
  using read_entry [OF assms(1,3)] assms(2) by (simp_all add: holds_def)

text \<open>A user without an entry gets the default template, a listed one the listed template,
  relative to the directory of the list.\<close>

lemma reads_default_template:
  assumes "home fs base" and "holds fs base ''user.toml'' lt" and "holds fs base ''user_default.toml'' template"
    and "short_text lt" and "short_text template"
    and "ul_from_str lt = Inr ul" and "users ul user = None"
    and "renders render_template ud_from_str user template d"
  shows "read_user_defaults ul_from_str ud_from_str render_template fs user (test_config (abs_path base)) = Ok d"
proof (rule read_user_defaults_renders)
  note paths = test_config_paths [OF home_names [OF assms(1)]]
  show "read_to_string fs (user_list_file (test_config (abs_path base))) = Inr lt"
    using holds_read(2) [OF assms(1,2)] assms(4) by (simp add: paths short_text_valid test_file_names)
  show "user_template_path ul user (test_config (abs_path base)) = Ok (abs_path (base @ [''user_default.toml'']))"
    using assms(7) by (simp add: user_template_path_def paths)
  show "read_to_string fs (abs_path (base @ [''user_default.toml''])) = Inr template"
    using holds_read(2) [OF assms(1,3)] assms(5) by (simp add: short_text_valid test_file_names)
qed (use assms in \<open>simp_all add: short_text_def\<close>)

lemma reads_listed_template:
  assumes "home fs base" and "holds fs base ''user.toml'' lt"
    and "short_text lt" and "ul_from_str lt = Inr ul" and "users ul user = Some l" and "\<not> has_root l"
    and "read_to_string fs (path_push (abs_path base) l) = Inr template"
    and "short_text template" and "renders render_template ud_from_str user template d"
  shows "read_user_defaults ul_from_str ud_from_str render_template fs user (test_config (abs_path base)) = Ok d"
proof (rule read_user_defaults_renders)
  have names: "\<forall>n \<in> set base. proper_name n"
    using assms(1) by (rule home_names)
  note paths = test_config_paths [OF names]
  show "read_to_string fs (user_list_file (test_config (abs_path base))) = Inr lt"
    using holds_read(2) [OF assms(1,2)] assms(3) by (simp add: paths short_text_valid test_file_names)
  have "path_parent (abs_path (base @ [''user.toml''])) = Some (abs_path base)"
    using names by (intro path_parent_abs_path) (simp add: test_file_names)
  then show "user_template_path ul user (test_config (abs_path base)) = Ok (path_push (abs_path base) l)"
    using assms(5,6) by (simp add: user_template_path_def paths is_relative_def)
qed (use assms in \<open>simp_all add: short_text_def\<close>)

lemma read_host_config_entry:
  assumes "home fs d" and "host_inventory cfg = abs_path d" and "proper_name (n @ ''.toml'')"
    and "holds fs d (n @ ''.toml'') t" and "valid_utf8 t" and "from_str t = Inr hc"
  shows "read_host_config from_str fs n cfg = Ok hc"
proof -
  have p: "path_push (host_inventory cfg) (n @ ''.toml'') = abs_path (d @ [n @ ''.toml''])"
    using push_home [OF assms(1,3)] assms(2) by simp
  have "canonicalize fs (abs_path (d @ [n @ ''.toml''])) = Inr (abs_path (d @ [n @ ''.toml'']))"
    using canonical_entry [OF assms(1,3)] assms(4) by (simp add: holds_def)
  moreover have "path_starts_with (abs_path (d @ [n @ ''.toml''])) (abs_path d)"
    using assms(3) home_names [OF assms(1)] by (simp add: starts_with_abs_path)
  moreover have "read_to_string fs (abs_path (d @ [n @ ''.toml''])) = Inr t"
    by (rule holds_read(2) [OF assms(1,4,3,5)])
  ultimately show ?thesis
    using canonical_home [OF assms(1)] assms(2,6) unfolding read_host_config_Ok p by auto
qed

section \<open>Concrete instances\<close>

text \<open>
  A parser that is good enough for the tests' inventory entries: the first two quoted
  strings are the key and the host name.
\<close>

definition next_quoted :: "string \<Rightarrow> string \<times> string" where
  "next_quoted s =
     (let r = tl (dropWhile (\<lambda>c. c \<noteq> CHR 0x22) s)
      in (takeWhile (\<lambda>c. c \<noteq> CHR 0x22) r, tl (dropWhile (\<lambda>c. c \<noteq> CHR 0x22) r)))"

definition entry_parser :: "host_config toml_parser" where
  "entry_parser t =
     (let (key, r) = next_quoted t; (hostname, _) = next_quoted r
      in Inr \<lparr>hc_public_key = key, hc_validity_in_days = 30, hc_hostnames = [hostname], hc_extensions = []\<rparr>)"

lemma next_quoted_string:
  assumes "CHR 0x22 \<notin> set p" and "CHR 0x22 \<notin> set s"
  shows "next_quoted (p @ quoted s @ r) = (s, r)"
proof -
  have p: "\<forall>c \<in> set p. c \<noteq> CHR 0x22" and s: "\<forall>c \<in> set s. c \<noteq> CHR 0x22"
    using assms by auto
  then show ?thesis
    by (simp add: next_quoted_def quoted_def Let_def)
qed

lemma entry_parser_reads:
  assumes "CHR 0x22 \<notin> set key" and "CHR 0x22 \<notin> set hostname"
  shows "reads_entry entry_parser key hostname"
proof -
  have "entry_text key hostname = (CHR 0x0A # ''public_key = '') @ quoted key
      @ (CHR 0x0A # ''validity_in_days = 30'' @ CHR 0x0A # ''hostnames = ['') @ quoted hostname
      @ ('']'' @ CHR 0x0A # ''extensions = []'' @ [CHR 0x0A])"
    by (simp add: entry_text_def unlines_def)
  then show ?thesis
    using assms by (simp add: reads_entry_def entry_parser_def next_quoted_string del: append.simps)
qed

text \<open>Two fresh directories under \<open>/tmp\<close>.\<close>

definition example_tmp_fs :: fs where
  "example_tmp_fs = tree_fs [([''tmp''], Dir), ([''tmp'', ''a''], Dir), ([''tmp'', ''b''], Dir)]"

lemma example_temp_dirs:
  "temp_dir example_tmp_fs [''tmp'', ''a'']" "temp_dir example_tmp_fs [''tmp'', ''b'']"
  by (auto simp: temp_dir_def home_def physical_dir_def physical_def node_at_def example_tmp_fs_def
      tree_fs_def proper_name_def less_Suc_eq)

lemma example_tmp_valid: "valid_utf8 (abs_path [''tmp'', ''a''])" "valid_utf8 (abs_path [''tmp'', ''b''])"
  by (rule ascii_valid; simp add: abs_path_def is_ascii_def)+

end
