(* ===== verification/Fuzz_Targets.thy ===== *)
theory Fuzz_Targets
  imports Ssh_Handler Test_Support
begin

text \<open>
  The fuzz targets under \<open>fuzz/fuzz_targets\<close> as programs of their own: each takes the fuzzer's
  input and either returns or panics, by an assertion of its own or by a panic of the code it
  calls. Their statements are what the fuzzer can only sample; here they are proved for every
  input. libFuzzer, the temporary directory and the generated keys are parameters, and the
  set-up of the directory (\<open>TempDir::new\<close>, \<open>fs::write\<close>, \<open>create_dir\<close>, each with an
  \<open>unwrap\<close>) is taken to succeed. \<open>fuzz_ipc_messages\<close> repeats the body of
  \<open>fuzz_cert_signing\<close> word for word after its own checks; the model shares it.
\<close>

section \<open>Parsers\<close>

text \<open>\<open>char::is_ascii_whitespace\<close>\<close>

definition is_ascii_whitespace :: "bytes \<Rightarrow> bool" where
  "is_ascii_whitespace c \<longleftrightarrow>
     c \<in> {[CHR '' ''], [CHR 0x09], [CHR 0x0A], [CHR 0x0C], [CHR 0x0D]}"

definition fuzz_exec_request_parser :: "bytes \<Rightarrow> unit outcome" where
  "fuzz_exec_request_parser d =
     (let (command_name, args) = parse_exec_command d
      in and_then (assert_that (\<not> list_ex is_ascii_whitespace (chars_of command_name))) (\<lambda>_.
           assert_each (\<lambda>arg. \<not> list_ex is_ascii_whitespace (chars_of arg)) args))"

definition fuzz_hostname_validation :: "bytes \<Rightarrow> unit outcome" where
  "fuzz_hostname_validation d =
     (case from_utf8 d of
        None \<Rightarrow> Ok ()
      | Some s \<Rightarrow>
          if length s > 512 then Ok ()
          else
            (case validate_hostname s of
               Inl e \<Rightarrow> Ok ()
             | Inr _ \<Rightarrow>
                 and_then (assert_that (s \<noteq> [])) (\<lambda>_.
                 and_then (assert_that (\<not> contains_str s ''/'')) (\<lambda>_.
                 and_then (assert_that (\<not> contains_str s [CHR 0x5C])) (\<lambda>_.
                 and_then (assert_that (\<not> contains_str s ''..'')) (\<lambda>_.
                   assert_that (\<not> contains_str s [CHR 0x00])))))))"

definition fuzz_user_key_parsing ::
  "('pk, 'kd, 'sk, 'b, 'c) ssh_key_crate \<Rightarrow> bytes \<Rightarrow> unit outcome" where
  "fuzz_user_key_parsing K d = discard (key_from_openssh K (from_utf8_lossy d))"

text \<open>\<open>from_bytes\<close> is \<open>PublicKey::from_bytes\<close>.\<close>

definition fuzz_ssh_protocol ::
  "(bytes \<Rightarrow> string + 'pk) \<Rightarrow> ('pk, 'kd, 'sk, 'b, 'c) ssh_key_crate \<Rightarrow> bytes \<Rightarrow> unit outcome" where
  "fuzz_ssh_protocol from_bytes K d =
     and_then (discard (foreign (from_bytes d))) (\<lambda>_.
       case from_utf8 d of
         None \<Rightarrow> Ok ()
       | Some s \<Rightarrow> discard (key_from_openssh K s))"

text \<open>The target's own struct mirrors \<open>UserDefaults\<close> with optional fields.\<close>

record fuzz_user_defaults =
  fz_validity_in_days :: "u16 option"
  fz_principals :: "string list option"
  fz_extensions :: "string list option"

definition fuzz_config_parsing ::
  "fuzz_user_defaults toml_parser \<Rightarrow> jinja \<Rightarrow> bytes \<Rightarrow> unit outcome" where
  "fuzz_config_parsing from_str engine d =
     (if length d > MAX_TEMPLATE_SIZE then Ok ()
      else
        (case from_utf8 d of
           None \<Rightarrow> Ok ()
         | Some s \<Rightarrow>
             and_then (discard (foreign (from_str s))) (\<lambda>_.
               discard (foreign (engine ''test'' s
                 [(''user_name'', JStr ''testuser''), (''host_name'', JStr ''testhost'')])))))"

lemma ascii_whitespace: "is_ascii_whitespace c \<Longrightarrow> is_whitespace c"
  by (auto simp: is_ascii_whitespace_def is_whitespace_def code_point_def)

lemma exec_tokens_blank_free:
  assumes "parse_exec_command d = (name, args)" and "t \<in> set (name # args)"
  shows "\<not> list_ex is_ascii_whitespace (chars_of t)"
proof -
  have "\<forall>c \<in> set (chars_of t). \<not> is_whitespace c"
  proof (cases "split_whitespace (from_utf8_lossy d)")
    case Nil
    with assms show ?thesis
      by (auto simp: parse_exec_command_def chars_of_def)
  next
    case (Cons n as)
    with assms have "t \<in> set (split_whitespace (from_utf8_lossy d))"
      by (auto simp: parse_exec_command_def)
    with split_whitespace_token [OF lossy_valid] show ?thesis by blast
  qed
  with ascii_whitespace show ?thesis
    by (auto simp: list_ex_iff)
qed

section \<open>The temporary directory\<close>

text \<open>
  A fresh directory \<open>base\<close> (a list of names from the root) and the files the target puts into
  it, by their names below \<open>base\<close>; nothing else is visible.
\<close>

definition temp_fs :: "string list \<Rightarrow> (string list \<times> node) list \<Rightarrow> fs" where
  "temp_fs base files =
     \<lparr>fs_nodes = (\<lambda>ns. if prefix ns base then Some Dir
        else if prefix base ns then map_of files (drop (length base) ns) else None),
      fs_access = (\<lambda>_. True), fs_cwd = []\<rparr>"

lemma temp_physical: "physical_dir (temp_fs base files) base"
  by (auto simp: physical_dir_def physical_def node_at_def temp_fs_def take_is_prefix)

lemma temp_base:
  assumes "\<forall>n \<in> set base. proper_name n"
  shows "resolve_path (temp_fs base files) (abs_path base) = Inr base"
  using temp_physical [of base files] assms by (intro resolve_abs_path) (simp_all add: physical_dir_def)

lemma temp_node:
  assumes "n \<noteq> []"
  shows "fs_nodes (temp_fs base files) (base @ n) = map_of files n"
  using assms by (auto simp: temp_fs_def dest: prefix_length_le)

lemma temp_child:
  assumes "\<forall>n \<in> set base. proper_name n" and "proper_name n"
    and "map_of files [n] = Some Dir \<or> (\<exists>b. map_of files [n] = Some (File b))"
  shows "resolve_path (temp_fs base files) (path_push (abs_path base) n) = Inr (base @ [n])"
proof (rule resolve_path_push)
  show "resolve_path (temp_fs base files) (abs_path base) = Inr base"
    using assms(1) by (rule temp_base)
  show "node_at (temp_fs base files) base = Some Dir"
    using temp_physical [of base files] by (simp add: physical_dir_def)
  show "abs_path base \<noteq> []"
    by (simp add: abs_path_def)
  show "proper_name n" by fact
  show "fs_access (temp_fs base files) base"
    by (simp add: temp_fs_def)
  show "fs_nodes (temp_fs base files) (base @ [n]) = Some Dir
      \<or> (\<exists>b. fs_nodes (temp_fs base files) (base @ [n]) = Some (File b))"
    using assms(3) by (simp add: temp_node)
qed

lemma temp_read:
  assumes "\<forall>n \<in> set base. proper_name n" and "proper_name n" and "map_of files [n] = Some (File b)"
  shows "read_to_end (temp_fs base files) (path_push (abs_path base) n) = Inr b"
  using temp_child [OF assms(1,2)] assms(3) temp_node [of "[n]" base files]
  by (simp add: read_to_end_def read_at_def node_at_def) (simp add: temp_fs_def)

section \<open>Signing\<close>

definition replace_char :: "char \<Rightarrow> string \<Rightarrow> string \<Rightarrow> string" where
  "replace_char c r s = concat (map (\<lambda>x. if x = c then r else [x]) s)"

definition escape_toml :: "string \<Rightarrow> string" where
  "escape_toml s =
     replace_char (CHR 0x22) [CHR 0x5C, CHR 0x22] (replace_char (CHR 0x5C) [CHR 0x5C, CHR 0x5C] s)"

definition toml_string :: "string \<Rightarrow> string" where
  "toml_string s = [CHR 0x22] @ escape_toml s @ [CHR 0x22]"

text \<open>The text of an inventory entry; lines end in a line feed.\<close>

definition host_toml :: "string \<Rightarrow> nat \<Rightarrow> string list \<Rightarrow> string list \<Rightarrow> string" where
  "host_toml key days hostnames extensions =
     ''public_key = '' @ toml_string key @ [CHR 0x0A]
     @ ''validity_in_days = '' @ dec days @ [CHR 0x0A]
     @ ''hostnames = ['' @ join_with '', '' (map toml_string hostnames) @ '']'' @ [CHR 0x0A]
     @ ''extensions = ['' @ join_with '', '' (map toml_string extensions) @ '']'' @ [CHR 0x0A]"

definition user_toml :: "nat \<Rightarrow> string list \<Rightarrow> string" where
  "user_toml days principals =
     ''validity_in_days = '' @ dec days @ [CHR 0x0A]
     @ ''principals = ['' @ join_with '', '' (map toml_string principals) @ '']'' @ [CHR 0x0A]
     @ ''extensions = []'' @ [CHR 0x0A]"

text \<open>
  What a signing target takes from outside: the name of the temporary directory, the generated
  CA key and another generated public key as OpenSSH text, and whether the system accepts the
  inventory file's name (\<open>let _ = fs::write\<close>).
\<close>

record fuzz_world =
  fz_base :: "string list"
  fz_ca_key :: bytes
  fz_other_key :: string
  fz_written :: bool

definition fuzz_ca_config :: "fuzz_world \<Rightarrow> ca_cfg" where
  "fuzz_ca_config w =
     (let base_path = abs_path (fz_base w)
      in \<lparr>user_list_file = path_push base_path ''user.toml'',
          default_user_template = path_push base_path ''user_default.toml'',
          host_inventory = path_push base_path ''hosts'', ca_key = path_push base_path ''ca_key''\<rparr>)"

definition fuzz_fs :: "fuzz_world \<Rightarrow> string \<Rightarrow> (string \<times> string) list \<Rightarrow> fs" where
  "fuzz_fs w template hosts =
     temp_fs (fz_base w)
       ([([''ca_key''], File (fz_ca_key w)), ([''user.toml''], File (''[users]'' @ [CHR 0x0A])),
         ([''user_default.toml''], File template), ([''hosts''], Dir)]
        @ (if fz_written w then map (\<lambda>(n, t). ([''hosts'', n @ ''.toml''], File t)) hosts else []))"

definition safe_name :: "string \<Rightarrow> string" where
  "safe_name host_name =
     (let s = map (\<lambda>c. if c \<in> {CHR ''/'', CHR 0x5C, CHR 0x00} then CHR ''_'' else c) host_name
      in if s = [] \<or> contains_str s ''..'' then ''fuzz_host'' else s)"

definition fuzz_config_key ::
  "('pk, 'kd, 'sk, 'b, 'c) ssh_key_crate \<Rightarrow> fuzz_world \<Rightarrow> string \<Rightarrow> 'pk \<Rightarrow> string" where
  "fuzz_config_key K w host_name public_key =
     (if length host_name mod 3 = 0
      then (case pk_to_openssh K public_key of Inl _ \<Rightarrow> ''invalid'' | Inr s \<Rightarrow> s)
      else if length host_name mod 3 = 1 then fz_other_key w
      else ''not-a-valid-ssh-key'')"

text \<open>The inventory a request gets: an entry when it asks for a host certificate.\<close>

fun fuzz_hosts ::
  "('pk, 'kd, 'sk, 'b, 'c) ssh_key_crate \<Rightarrow> fuzz_world \<Rightarrow> 'pk ca_request \<Rightarrow> (string \<times> string) list" where
  "fuzz_hosts K w (SignHostCertificate host_name public_key) =
     [(safe_name host_name,
       host_toml (fuzz_config_key K w host_name public_key) 30 [safe_name host_name] [])]"
| "fuzz_hosts K w req = []"

definition fuzz_cert_signing ::
  "('pk, 'kd, 'sk, 'b, 'c) ca_env \<Rightarrow> fuzz_world \<Rightarrow> readings \<Rightarrow> 'pk ca_request \<Rightarrow> unit outcome" where
  "fuzz_cert_signing env w rd req =
     (let fs = fuzz_fs w (user_toml 7 [''{{ user_name }}'']) (fuzz_hosts (crate env) w req)
      in case ca_new env fs (fuzz_ca_config w) of
           Ok auth \<Rightarrow>
             (let srv = server_new ''fuzz_socket'' auth ''fuzz_token''
              in discard (handle_request env fs (srv_ca srv) rd req))
         | Err e \<Rightarrow> Ok ()
         | Panic m \<Rightarrow> Panic m)"

text \<open>
  The IPC target: deserialise, compare the token, then the same set-up and dispatch. The
  request parser and the response parser (whose result is dropped) are \<open>from_slice\<close>.
\<close>

definition fuzz_ipc_messages ::
  "('pk, 'kd, 'sk, 'b, 'c) ca_env \<Rightarrow> (bytes \<Rightarrow> string + 'pk auth_request) \<Rightarrow> (bytes \<Rightarrow> string + 'c ca_response)
    \<Rightarrow> (bytes \<Rightarrow> bytes \<Rightarrow> bool) \<Rightarrow> fuzz_world \<Rightarrow> readings \<Rightarrow> bytes \<Rightarrow> unit outcome"
where
  "fuzz_ipc_messages env request_from_slice response_from_slice same w rd d =
     (case request_from_slice d of
        Inl e \<Rightarrow> Ok ()
      | Inr auth_req \<Rightarrow>
          and_then (discard (foreign (response_from_slice d))) (\<lambda>_.
            if \<not> same (token auth_req) ''fuzz_token'' then Ok ()
            else fuzz_cert_signing env w rd (request auth_req)))"

record 'pk fuzz_input =
  fi_host_name :: string
  fi_public_key :: 'pk
  fi_config_public_key :: string
  fi_validity_in_days :: u32
  fi_hostnames :: "string list"
  fi_extensions :: "string list"

definition fuzz_host_cert_signing ::
  "('pk, 'kd, 'sk, 'b, 'c) ca_env \<Rightarrow> fuzz_world \<Rightarrow> readings \<Rightarrow> 'pk fuzz_input \<Rightarrow> unit outcome" where
  "fuzz_host_cert_signing env w rd inp =
     (if fi_host_name inp = [] \<or> length (fi_host_name inp) > 256
         \<or> contains_str (fi_host_name inp) ''/'' \<or> contains_str (fi_host_name inp) [CHR 0x5C]
         \<or> contains_str (fi_host_name inp) [CHR 0x00] \<or> contains_str (fi_host_name inp) ''..''
      then Ok ()
      else if length (fi_hostnames inp) > 32 \<or> length (fi_extensions inp) > 32 then Ok ()
      else
        (let validity_in_days = min (fi_validity_in_days inp) 3650;
             text = host_toml (fi_config_public_key inp) (unat validity_in_days)
               (take 32 (fi_hostnames inp)) (take 32 (fi_extensions inp));
             fs = fuzz_fs w (user_toml 1 []) [(fi_host_name inp, text)]
         in case ca_new env fs (fuzz_ca_config w) of
              Ok auth \<Rightarrow> discard (sign_host_certificate env fs auth rd (fi_host_name inp) (fi_public_key inp))
            | Err e \<Rightarrow> Ok ()
            | Panic m \<Rightarrow> Panic m))"

definition fuzz_ca_new_invalid_key ::
  "('pk, 'kd, 'sk, 'b, 'c) ca_env \<Rightarrow> string list \<Rightarrow> bytes \<Rightarrow> unit outcome" where
  "fuzz_ca_new_invalid_key env base d =
     (if length d > 8192 then Ok ()
      else
        (let base_path = abs_path base;
             cfg = \<lparr>user_list_file = ''/dev/null'', default_user_template = ''/dev/null'',
               host_inventory = path_push base_path ''hosts'', ca_key = path_push base_path ''ca_key''\<rparr>
         in discard (ca_new env (temp_fs base [([''ca_key''], File d)]) cfg)))"

section \<open>What the set-up amounts to\<close>

lemma ca_new_no_panic [simp]: "ca_new env fs cfg \<noteq> Panic m"
  by (auto simp: ca_new_def outcome_intros)

lemma fixed_names: "proper_name ''ca_key''" "proper_name ''hosts''" "proper_name ''user.toml''"
    "proper_name ''user_default.toml''"
  by (simp_all add: proper_name_def)

lemma fuzz_ca_new:
  assumes "\<forall>n \<in> set (fz_base w). proper_name n"
  shows "ca_new env (fuzz_fs w template hosts) (fuzz_ca_config w) =
    and_then (foreign (sk_from_openssh (crate env) (fz_ca_key w)))
      (\<lambda>key. Ok \<lparr>private_key = key, ca_config = fuzz_ca_config w\<rparr>)"
proof -
  have "read_to_end (fuzz_fs w template hosts) (path_push (abs_path (fz_base w)) ''ca_key'') = Inr (fz_ca_key w)"
    unfolding fuzz_fs_def by (rule temp_read [OF assms fixed_names(1)]) simp
  then show ?thesis
    by (simp add: ca_new_def fuzz_ca_config_def Let_def)
qed

lemma fuzz_inventory:
  assumes "\<forall>n \<in> set (fz_base w). proper_name n"
  shows "resolve_path (fuzz_fs w template hosts) (host_inventory (fuzz_ca_config w)) = Inr (fz_base w @ [''hosts''])"
  unfolding fuzz_fs_def fuzz_ca_config_def Let_def
  using temp_child [OF assms fixed_names(2)] by simp

text \<open>
  What the signing targets rely on: a clock after the epoch, keys that can be printed, and a
  glob that accepts the temporary directory and finds only names in UTF-8.
\<close>

definition fuzz_calm :: "('pk, 'kd, 'sk, 'b, 'c) ca_env \<Rightarrow> fuzz_world \<Rightarrow> readings \<Rightarrow> bool" where
  "fuzz_calm env w rd \<longleftrightarrow>
     (\<forall>n \<in> set (fz_base w). proper_name n) \<and> 0 \<le> clock_after rd \<and> 0 \<le> clock_before rd
     \<and> (\<forall>k. \<exists>s. pk_to_openssh (crate env) k = Inr s)
     \<and> valid_utf8 (abs_path (fz_base w @ [''hosts'']))
     \<and> (\<exists>l. glob env (abs_path (fz_base w @ [''hosts'']) @ ''/**/*.toml'') = Inr l
          \<and> (\<forall>p. Some p \<in> set l \<longrightarrow> valid_utf8 p \<and> (\<exists>s. file_stem p = Some s \<and> valid_utf8 s)))"

lemma fuzz_calm_authority:
  assumes "fuzz_calm env w rd"
  shows "calm env (fuzz_fs w template hosts) rd (fuzz_ca_config w)"
proof -
  have "canonicalize (fuzz_fs w template hosts) (host_inventory (fuzz_ca_config w))
      = Inr (abs_path (fz_base w @ [''hosts'']))"
    using fuzz_inventory assms by (simp add: canonicalize_def fuzz_calm_def)
  with assms show ?thesis
    by (simp add: calm_def inventory_readable_def fuzz_calm_def)
qed

lemma fuzz_cert_signing_returns:
  assumes "fuzz_calm env w rd"
  shows "fuzz_cert_signing env w rd req = Ok ()"
proof -
  have "\<forall>n \<in> set (fz_base w). proper_name n"
    using assms by (simp add: fuzz_calm_def)
  moreover have "handle_request env (fuzz_fs w template hosts)
      \<lparr>private_key = key, ca_config = fuzz_ca_config w\<rparr> rd req \<noteq> Panic m" for template hosts key m
    by (rule handle_request_calm) (simp add: fuzz_calm_authority [OF assms])
  ultimately show ?thesis
    by (cases "sk_from_openssh (crate env) (fz_ca_key w)")
      (simp_all add: fuzz_cert_signing_def fuzz_ca_new Let_def server_new_def discard_Ok)
qed

lemma fuzz_host_cert_signing_returns:
  assumes "fuzz_calm env w rd"
  shows "fuzz_host_cert_signing env w rd inp = Ok ()"
proof -
  have "\<forall>n \<in> set (fz_base w). proper_name n"
    using assms by (simp add: fuzz_calm_def)
  moreover have "sign_host_certificate env (fuzz_fs w template hosts) auth rd host pk \<noteq> Panic m"
    for template hosts auth host pk m
    by (rule sign_host_certificate_calm [OF fuzz_calm_authority [OF assms]])
  ultimately show ?thesis
    by (cases "sk_from_openssh (crate env) (fz_ca_key w)")
      (simp_all add: fuzz_host_cert_signing_def fuzz_ca_new Let_def discard_Ok)
qed

text \<open>A valid host name needs no cleaning, and its entry is found where it was written.\<close>

lemma safe_name_valid:
  assumes "validate_hostname host = Inr ()"
  shows "safe_name host = host"
proof -
  have "map (\<lambda>c. if c \<in> {CHR ''/'', CHR 0x5C, CHR 0x00} then CHR ''_'' else c) host = host"
    using assms by (intro map_idI) (auto simp: validate_hostname_ok)
  with assms show ?thesis
    by (simp add: safe_name_def validate_hostname_ok contains_str_iff_sublist Let_def)
qed

lemma fuzz_entry:
  assumes "\<forall>n \<in> set (fz_base w). proper_name n" and "fz_written w" and "validate_hostname host = Inr ()"
    and "valid_utf8 t" and "hosts_toml env t = Inr hc"
  shows "read_host_config (hosts_toml env) (fuzz_fs w template [(host, t)]) host (fuzz_ca_config w) = Ok hc"
proof -
  let ?fs = "fuzz_fs w template [(host, t)]" and ?inv = "host_inventory (fuzz_ca_config w)"
  let ?n = "host @ ''.toml''"
  have n: "proper_name ?n"
    using assms(3) by (simp add: validate_hostname_ok hostname_file_proper)
  have dir: "resolve_path ?fs ?inv = Inr (fz_base w @ [''hosts''])"
    by (rule fuzz_inventory [OF assms(1)])
  have d: "node_at ?fs (fz_base w @ [''hosts'']) = Some Dir"
    by (simp add: node_at_def fuzz_fs_def temp_node)
  have f: "fs_nodes ?fs ((fz_base w @ [''hosts'']) @ [?n]) = Some (File t)"
    using assms(2) temp_node [of "[''hosts'', ?n]" "fz_base w"] by (simp add: fuzz_fs_def)
  have ne: "?inv \<noteq> []"
    by (simp add: fuzz_ca_config_def path_push_def abs_path_def Let_def)
  have acc: "fs_access ?fs (fz_base w @ [''hosts''])"
    by (simp add: fuzz_fs_def temp_fs_def)
  have "resolve_path ?fs (path_push ?inv ?n) = Inr ((fz_base w @ [''hosts'']) @ [?n])"
    by (rule resolve_path_push_file [OF dir d ne n acc f])
  then have p: "resolve_path ?fs (path_push ?inv ?n) = Inr (fz_base w @ [''hosts'', ?n])"
    by simp
  have names: "\<forall>m \<in> set (fz_base w @ [''hosts'', ?n]). proper_name m"
    using assms(1) n fixed_names(2) by auto
  then have start: "path_starts_with (abs_path (fz_base w @ [''hosts'', ?n])) (abs_path (fz_base w @ [''hosts'']))"
    by (subst starts_with_abs_path) auto
  have "has_root (path_push ?inv ?n) \<or> fs_ok ?fs"
    by (simp add: fuzz_ca_config_def path_simps Let_def)
  from canonicalize_read [OF _ this] p
  have "read_to_string ?fs (abs_path (fz_base w @ [''hosts'', ?n])) = read_to_string ?fs (path_push ?inv ?n)"
    by (simp add: canonicalize_def)
  also have "\<dots> = Inr t"
    using p f assms(4)
    by (simp add: read_to_string_def read_to_end_def read_at_def node_at_def from_utf8_def)
      (simp add: fuzz_fs_def temp_fs_def)
  finally show ?thesis
    using dir p start assms(5) unfolding read_host_config_Ok by (simp add: canonicalize_def)
qed

section \<open>Properties\<close>



definition example_world :: fuzz_world where
  "example_world = \<lparr>fz_base = [''tmp''], fz_ca_key = ''PRIVATE'',
     fz_other_key = ''ssh-ed25519 BBBB'', fz_written = True\<rparr>"

lemma example_tmp: "proper_name ''tmp''"
  by (simp add: proper_name_def)


text \<open>The entry that the target writes for a valid host name leads the authority into the
  three paths its comments name: a host name whose length is a multiple of three to building
  the certificate for the requested key with the entry's parameters, one of the next length
  to the refusal of a wrong key, and the last to the refusal of an entry whose key does not
  parse. The TOML parser is assumed to read the written entry back.\<close>

theorem fuzz_signing_paths:
  assumes "\<forall>n \<in> set (fz_base w). proper_name n" and "fz_written w" and "validate_hostname host = Inr ()"
    and "key = fuzz_config_key (crate env) w host pk"
    and "valid_utf8 (host_toml key 30 [host] [])"
    and "hosts_toml env (host_toml key 30 [host] []) = Inr \<lparr>hc_public_key = key, hc_validity_in_days = 30,
      hc_hostnames = [host], hc_extensions = []\<rparr>"
    and "fs = fuzz_fs w template (fuzz_hosts (crate env) w (SignHostCertificate host pk))"
    and "auth = \<lparr>private_key = sk, ca_config = fuzz_ca_config w\<rparr>"
    and "\<forall>k. \<exists>s. pk_to_openssh (crate env) k = Inr s" and "openssh_roundtrip (crate env)"
  shows "(length host mod 3 = 0 \<longrightarrow> sign_host_certificate env fs auth rd host pk
      = build_certificate (crate env) sk rd ''host'' HostCert host 30 [host] [] pk)
    \<and> (length host mod 3 = 1 \<and> pk_from_openssh (crate env) (fz_other_key w) = Inr k
        \<and> pk_key_data (crate env) k \<noteq> pk_key_data (crate env) pk
      \<longrightarrow> sign_host_certificate env fs auth rd host pk = Err (WrongPublicKey host))
    \<and> (length host mod 3 = 2 \<and> pk_from_openssh (crate env) ''not-a-valid-ssh-key'' = Inl e
      \<longrightarrow> sign_host_certificate env fs auth rd host pk = Err (WrongPublicKey host))"
proof -
  have fs: "fs = fuzz_fs w template [(host, host_toml key 30 [host] [])]"
    using assms(4,7) safe_name_valid [OF assms(3)] by simp
  have r: "read_host_config (hosts_toml env) fs host (ca_config auth) = Ok \<lparr>hc_public_key = key,
      hc_validity_in_days = 30, hc_hostnames = [host], hc_extensions = []\<rparr>"
    using fuzz_entry [where env = env, OF assms(1-3,5,6)] assms(8) fs by simp
  obtain s k' where "pk_to_openssh (crate env) pk = Inr s" "pk_from_openssh (crate env) s = Inr k'"
      "pk_key_data (crate env) k' = pk_key_data (crate env) pk"
    using assms(9,10) unfolding openssh_roundtrip_def by metis
  moreover have "log_keys env ks = Ok ()" for ks
    using assms(9) by (auto simp: log_keys_def) (metis Inl_Inr_False)
  ultimately show ?thesis
    using r assms(4,8) by (simp add: sign_host_certificate_def fuzz_config_key_def)
qed

lemma fuzz_signing_paths_witness:
  "\<exists>env :: (ref_key, string \<times> string, bytes, (string \<times> string) cert_fields,
      bytes \<times> (string \<times> string) cert_fields) ca_env. \<exists>fs auth.
    sign_host_certificate env fs auth example_readings ''web'' (''ssh-ed25519'', ''AAAA'', ''me'')
      = build_certificate (crate env) ''PRIVATE'' example_readings ''host'' HostCert ''web'' 30 [''web''] []
          (''ssh-ed25519'', ''AAAA'', ''me'')"
proof -
  let ?K = "ref_crate\<lparr>pk_to_openssh := (\<lambda>k. Inr (fst k @ space # fst (snd k) @ space # snd (snd k))),
    pk_from_openssh := (\<lambda>s. Inr (s, s, s)), pk_key_data := (\<lambda>k. ([], []))\<rparr>"
  let ?key = "fuzz_config_key ?K example_world ''web'' (''ssh-ed25519'', ''AAAA'', ''me'')"
  let ?env = "example_env\<lparr>crate := ?K, hosts_toml := (\<lambda>t. Inr \<lparr>hc_public_key = ?key, hc_validity_in_days = 30,
      hc_hostnames = [''web''], hc_extensions = []\<rparr>)\<rparr>"
  have k: "?key = ''ssh-ed25519 AAAA me''"
    by (simp add: fuzz_config_key_def)
  have b: "\<forall>n \<in> set (fz_base example_world). proper_name n" and wr: "fz_written example_world"
    using example_tmp by (simp_all add: example_world_def)
  have v: "validate_hostname ''web'' = Inr ()"
    by (simp add: validate_hostname_def)
  have "\<forall>c \<in> set (host_toml ''ssh-ed25519 AAAA me'' 30 [''web''] []). is_ascii c"
    by (simp add: host_toml_def toml_string_def escape_toml_def replace_char_def dec.simps digit_char_def
        is_ascii_def)
  then have u: "valid_utf8 (host_toml ?key 30 [''web''] [])"
    unfolding k by (rule ascii_valid)
  have h: "hosts_toml ?env (host_toml ?key 30 [''web''] []) = Inr \<lparr>hc_public_key = ?key,
      hc_validity_in_days = 30, hc_hostnames = [''web''], hc_extensions = []\<rparr>"
    by simp
  have pr: "\<forall>k. \<exists>s. pk_to_openssh (crate ?env) k = Inr s" and rt: "openssh_roundtrip (crate ?env)"
    by (simp_all add: openssh_roundtrip_def)
  have key: "?key = fuzz_config_key (crate ?env) example_world ''web'' (''ssh-ed25519'', ''AAAA'', ''me'')"
    by simp
  from fuzz_signing_paths [OF b wr v key u h refl refl pr rt,
      where sk = "''PRIVATE''" and rd = example_readings]
  show ?thesis
    by (intro exI [of _ ?env]) (auto simp: eval_nat_numeral)
qed

end
