(* ===== verification/Inventory_Tests.thy ===== *)
theory Inventory_Tests
  imports Test_Support
begin

text \<open>
  The test module of \<open>certificat_authority/host_config_reader.rs\<close>: five tests of
  \<open>ensure_path_within_directory\<close> and three of the search for a key. Each runs in a fresh
  temporary directory \<open>base\<close> of a file system \<open>fs\<close> that is otherwise arbitrary.
\<close>

section \<open>Containment\<close>

definition test_ensure_path_within_directory_valid :: "fs \<Rightarrow> string list \<Rightarrow> unit outcome" where
  "test_ensure_path_within_directory_valid fs base =
     (let base_path = abs_path base; valid_file = path_push base_path ''valid.toml''
      in and_then (must (io_result (write_file fs valid_file ''test''))) (\<lambda>fs.
         and_then (attempt (ensure_path_within_directory fs valid_file base_path)) (\<lambda>result.
         and_then (assert_that (is_ok result)) (\<lambda>_.
         and_then (unwrap result) (\<lambda>p.
         and_then (must (io_result (canonicalize fs valid_file))) (\<lambda>q.
           assert_that (p = q)))))))"

text \<open>The two assertions that the three tests of refusals end with.\<close>

definition assert_traversal :: "error + path \<Rightarrow> unit outcome" where
  "assert_traversal result =
     and_then (assert_that (isl result)) (\<lambda>_.
     and_then (unwrap_err result) (\<lambda>e.
       assert_that (contains_str (error_display e) ''path traversal'')))"

definition test_ensure_path_within_directory_rejects_traversal ::
  "fs \<Rightarrow> string list \<Rightarrow> unit outcome" where
  "test_ensure_path_within_directory_rejects_traversal fs base =
     (let base_path = abs_path base
      in and_then (unwrap_or_panic unwrap_none (path_parent base_path)) (\<lambda>parent_dir.
         let outside_file = path_push parent_dir ''outside.toml''
         in and_then (must (io_result (write_file fs outside_file ''test''))) (\<lambda>fs.
            let traversal_path = path_push (path_push base_path ''..'') ''outside.toml''
            in and_then (attempt (ensure_path_within_directory fs traversal_path base_path))
                 assert_traversal)))"

definition test_ensure_path_within_directory_rejects_absolute_outside ::
  "fs \<Rightarrow> string list \<Rightarrow> string list \<Rightarrow> unit outcome" where
  "test_ensure_path_within_directory_rejects_absolute_outside fs base1 base2 =
     (let base_path = abs_path base1; outside_file = path_push (abs_path base2) ''outside.toml''
      in and_then (must (io_result (write_file fs outside_file ''test''))) (\<lambda>fs.
         and_then (attempt (ensure_path_within_directory fs outside_file base_path))
           assert_traversal))"

definition test_ensure_path_within_directory_rejects_symlink_escape ::
  "fs \<Rightarrow> string list \<Rightarrow> unit outcome" where
  "test_ensure_path_within_directory_rejects_symlink_escape fs base =
     (let base_path = abs_path base
      in and_then (unwrap_or_panic unwrap_none (path_parent base_path)) (\<lambda>parent_dir.
         let outside_file = path_push parent_dir ''outside.toml''
         in and_then (must (io_result (write_file fs outside_file ''test''))) (\<lambda>fs.
            let symlink_path = path_push base_path ''symlink.toml''
            in and_then (must (io_result (symlink fs outside_file symlink_path))) (\<lambda>fs.
               and_then (attempt (ensure_path_within_directory fs symlink_path base_path))
                 assert_traversal))))"

definition test_ensure_path_within_directory_nested_valid :: "fs \<Rightarrow> string list \<Rightarrow> unit outcome" where
  "test_ensure_path_within_directory_nested_valid fs base =
     (let base_path = abs_path base; nested_dir = path_push (path_push base_path ''subdir1'') ''subdir2''
      in and_then (must (io_result (create_dir_all fs nested_dir))) (\<lambda>fs.
         let nested_file = path_push nested_dir ''nested.toml''
         in and_then (must (io_result (write_file fs nested_file ''test''))) (\<lambda>fs.
            and_then (attempt (ensure_path_within_directory fs nested_file base_path)) (\<lambda>result.
            and_then (assert_that (is_ok result)) (\<lambda>_.
            and_then (unwrap result) (\<lambda>p.
            and_then (must (io_result (canonicalize fs nested_file))) (\<lambda>q.
              assert_that (p = q))))))))"

section \<open>The search\<close>

text \<open>The configuration all three tests share; the inventory is the directory itself.\<close>

definition inventory_test_config :: "string list \<Rightarrow> ca_cfg" where
  "inventory_test_config base =
     (let base_path = abs_path base
      in \<lparr>user_list_file = path_push base_path ''user.toml'',
          default_user_template = path_push base_path ''user_default.toml'',
          host_inventory = base_path, ca_key = path_push base_path ''ca_key''\<rparr>)"

definition known_key :: string where
  "known_key = ''ssh-ed25519 AAAAC3NzaC1lZDI1NTE5AAAAIGPvWF5WtFPlxWSSr4xSg5sAR7Wdp5zZd7hqmZvC4Fkj''"

definition other_key :: string where
  "other_key = ''ssh-ed25519 AAAAC3NzaC1lZDI1NTE5AAAAIDifferentKeyDataHereXXXXXXXXXXXXXXXXXXXXX''"

definition test_find_config_by_public_key_match ::
  "('pk, 'kd, 'sk, 'b, 'c) ssh_key_crate \<Rightarrow> host_config toml_parser \<Rightarrow> glob_crate \<Rightarrow> bool \<Rightarrow> fs
    \<Rightarrow> string list \<Rightarrow> unit outcome"
where
  "test_find_config_by_public_key_match K from_str glob debug_on fs base =
     (let test_key = known_key;
          host_config = entry_text (test_key @ '' comment'') ''testhost.example.com'';
          config_file = path_push (abs_path base) ''testhost.toml''
      in and_then (must (io_result (write_file fs config_file host_config))) (\<lambda>fs.
         and_then (find_config_by_public_key K from_str glob debug_on fs test_key
                    (inventory_test_config base)) (\<lambda>result.
         and_then (assert_that (result \<noteq> None)) (\<lambda>_.
         and_then (unwrap_or_panic unwrap_none result) (\<lambda>(hostname, config).
         and_then (assert_that (hostname = ''testhost'')) (\<lambda>_.
         and_then (assert_that (hc_validity_in_days config = 30)) (\<lambda>_.
           assert_that (hc_hostnames config = [''testhost.example.com''])))))))) "

definition test_find_config_by_public_key_no_match ::
  "('pk, 'kd, 'sk, 'b, 'c) ssh_key_crate \<Rightarrow> host_config toml_parser \<Rightarrow> glob_crate \<Rightarrow> bool \<Rightarrow> fs
    \<Rightarrow> string list \<Rightarrow> unit outcome"
where
  "test_find_config_by_public_key_no_match K from_str glob debug_on fs base =
     (let stored_key = known_key; search_key = other_key;
          host_config = entry_text (stored_key @ '' comment'') ''testhost.example.com'';
          config_file = path_push (abs_path base) ''testhost.toml''
      in and_then (must (io_result (write_file fs config_file host_config))) (\<lambda>fs.
         and_then (find_config_by_public_key K from_str glob debug_on fs search_key
                    (inventory_test_config base)) (\<lambda>result.
           assert_that (result = None))))"

definition test_find_config_by_public_key_malformed_key ::
  "('pk, 'kd, 'sk, 'b, 'c) ssh_key_crate \<Rightarrow> host_config toml_parser \<Rightarrow> glob_crate \<Rightarrow> bool \<Rightarrow> fs
    \<Rightarrow> string list \<Rightarrow> unit outcome"
where
  "test_find_config_by_public_key_malformed_key K from_str glob debug_on fs base =
     (let host_config = entry_text ''ssh-ed25519'' ''testhost.example.com'';
          config_file = path_push (abs_path base) ''testhost.toml'';
          search_key = known_key
      in and_then (must (io_result (write_file fs config_file host_config))) (\<lambda>fs.
         and_then (find_config_by_public_key K from_str glob debug_on fs search_key
                    (inventory_test_config base)) (\<lambda>result.
           assert_that (result = None))))"

section \<open>Lemmas\<close>

lemma test_names [test_simps]:
  "proper_name ''valid.toml''" "proper_name ''outside.toml''" "proper_name ''symlink.toml''"
  "proper_name ''nested.toml''" "proper_name ''testhost.toml''" "proper_name ''subdir1''"
  "proper_name ''subdir2''" "proper_name ''user.toml''" "proper_name ''user_default.toml''"
  "proper_name ''ca_key''"
  by (simp_all add: proper_name_def)

lemma test_valid_passes:
  assumes "temp_dir fs base"
  shows "test_ensure_path_within_directory_valid fs base = Ok ()"
proof -
  have "\<forall>n \<in> set base. proper_name n"
    using assms by (simp add: temp_dir_def home_def)
  with assms show ?thesis
    by (simp add: test_ensure_path_within_directory_valid_def ensure_path_within_directory_def
        starts_with_abs_path push_abs_path test_simps)
qed

lemma resolve_dotdot:
  assumes "home fs (d @ [t])" and "proper_name n" and "fs_nodes fs (d @ [n]) = Some (File b)"
  shows "resolve_path fs (path_push (path_push (abs_path (d @ [t])) ''..'') n) = Inr (d @ [n])"
proof -
  let ?p = "path_push (abs_path (d @ [t])) ''..''"
  have names: "path_names ?p = d @ [t, ''..'']"
    using assms(1) path_names_plain [of "''..''"]
    by (auto simp: path_simps home_def proper_name_def has_root_def)
  have "resolve fs max_links [] (d @ [t, ''..'', n]) = resolve fs max_links d [n]"
    using resolve_down [of fs "[]" "d @ [t]" max_links "[''..'', n]"] assms(1)
    by (simp add: home_def resolve.simps(2))
  also have "\<dots> = Inr (d @ [n])"
    using assms home_parent [OF assms(1)] by (auto simp: resolve.simps(2) home_def proper_name_def)
  finally show ?thesis
    using walk_names_push [OF assms(2), of ?p] names
    by (simp add: resolve_path_def path_simps)
qed

text \<open>What the file outside amounts to in the two tests that write it beside the directory.\<close>

lemma outside_written:
  fixes b :: bytes
  assumes "temp_dir fs (d @ [t])" and "writable fs d n" and "proper_name n"
  defines "fs' \<equiv> put fs (d @ [n]) (File b)"
  shows "write_file fs (abs_path (d @ [n])) b = Inr fs'"
    and "home fs' (d @ [t])" and "home fs' d"
    and "\<forall>m \<in> set d. proper_name m" and "proper_name t"
    and "\<not> path_starts_with (abs_path (d @ [n])) (abs_path (d @ [t]))"
proof -
  have hb: "home fs (d @ [t])"
    using assms(1) by (simp add: temp_dir_def)
  then have hd: "home fs d"
    by (rule home_parent)
  have "\<forall>m \<in> set (d @ [t]). proper_name m"
    using hb by (rule home_names)
  then show names: "\<forall>m \<in> set d. proper_name m" "proper_name t"
    by auto
  have free: "fs_nodes fs (d @ [n]) \<noteq> Some Dir"
    using assms(2) by (auto simp: writable_def)
  have "t \<noteq> n"
    using node_at_home [OF hb] free by (auto simp: node_at_def)
  then show "\<not> path_starts_with (abs_path (d @ [n])) (abs_path (d @ [t]))"
    using names assms(3) by (simp add: starts_with_abs_path)
  show "write_file fs (abs_path (d @ [n])) b = Inr fs'"
    unfolding fs'_def using assms(2,3) hd by (intro write_entry) (simp_all add: writable_def)
  show "home fs' (d @ [t])" and "home fs' d"
    using hb hd free by (simp_all add: fs'_def home_put)
qed

lemma contains_traversal: "contains_str ''path traversal detected in host name'' ''path traversal''"
  by code_simp

lemma assert_traversal_Ok [test_simps]:
  "assert_traversal (Inl (Message ''path traversal detected in host name'')) = Ok ()"
  using contains_traversal by (simp add: assert_traversal_def assert_that_def)

lemma test_traversal_passes:
  assumes "temp_dir fs (d @ [t])" and "writable fs d ''outside.toml''"
  shows "test_ensure_path_within_directory_rejects_traversal fs (d @ [t]) = Ok ()"
proof -
  let ?fs = "put fs (d @ [''outside.toml'']) (File ''test'')"
  let ?p = "path_push (path_push (abs_path (d @ [t])) ''..'') ''outside.toml''"
  note out = outside_written [OF assms test_names(2)]
  have "resolve_path ?fs ?p = Inr (d @ [''outside.toml''])"
    by (rule resolve_dotdot [OF out(2), where b = "''test''"]) (simp_all add: test_simps)
  then have "canonicalize ?fs ?p = Inr (abs_path (d @ [''outside.toml'']))"
    by (simp add: canonicalize_def)
  with out(1,4-6) canonical_home [OF out(2)] path_parent_abs_path [of d t] show ?thesis
    by (simp add: test_ensure_path_within_directory_rejects_traversal_def
        ensure_path_within_directory_def push_abs_path test_simps)
qed

lemma test_absolute_outside_passes:
  assumes "temp_dir fs base1" and "temp_dir fs base2" and "base1 \<noteq> base2"
  shows "test_ensure_path_within_directory_rejects_absolute_outside fs base1 base2 = Ok ()"
proof -
  have names: "\<forall>n \<in> set base1. proper_name n" "\<forall>n \<in> set base2. proper_name n"
    using assms by (simp_all add: temp_dir_def home_def)
  have dirs: "node_at fs base1 = Some Dir" "node_at fs base2 = Some Dir" "base1 \<noteq> []" "base2 \<noteq> []"
    using assms by (simp_all add: temp_dir_def node_at_home)
  have "\<not> prefix base1 (base2 @ [''outside.toml''])"
  proof
    assume "prefix base1 (base2 @ [''outside.toml''])"
    then consider "base1 = base2 @ [''outside.toml'']" | ns where "base2 = base1 @ ns"
      by (metis prefix_snoc prefixE)
    then show False
    proof cases
      case 1
      with dirs assms(2) show False
        by (simp add: node_at_def temp_dir_def)
    next
      case (2 ns)
      with dirs assms(1,3) show False
        by (auto simp: node_at_def temp_dir_def)
    qed
  qed
  then have "\<not> path_starts_with (abs_path (base2 @ [''outside.toml''])) (abs_path base1)"
    using names by (simp add: starts_with_abs_path test_simps)
  with assms names show ?thesis
    by (simp add: test_ensure_path_within_directory_rejects_absolute_outside_def
        ensure_path_within_directory_def push_abs_path test_simps)
qed

lemma test_symlink_passes:
  assumes "temp_dir fs (d @ [t])" and "writable fs d ''outside.toml''"
  shows "test_ensure_path_within_directory_rejects_symlink_escape fs (d @ [t]) = Ok ()"
proof -
  let ?out = "d @ [''outside.toml'']" and ?link = "(d @ [t]) @ [''symlink.toml'']"
  let ?fs = "put fs ?out (File ''test'')"
  let ?fs' = "put ?fs ?link (Link (abs_path ?out))"
  note out = outside_written [OF assms test_names(2)]
  have free: "fs_nodes fs ?link = None"
    using assms(1) unfolding temp_dir_def by blast
  have l: "symlink ?fs (abs_path ?out) (abs_path ?link) = Inr ?fs'"
    unfolding symlink_def using out(2) free
    by (intro create_entry_new) (simp_all add: test_simps)
  have homes: "home ?fs' (d @ [t])" "home ?fs' d"
    by (rule home_put [OF out(2)], use free in simp, rule home_put [OF out(3)], use free in simp)
  have "resolve_path ?fs' (abs_path ?link) = Inr ?out"
    by (rule resolve_link [OF homes(1) _ _ homes(2), where b = "''test''"]) (simp_all add: test_simps)
  then have "canonicalize ?fs' (abs_path ?link) = Inr (abs_path ?out)"
    by (simp add: canonicalize_def)
  with l out(1,4-6) canonical_home [OF homes(1)] path_parent_abs_path [of d t] show ?thesis
    by (simp add: test_ensure_path_within_directory_rejects_symlink_escape_def
        ensure_path_within_directory_def push_abs_path test_simps)
qed

text \<open>Two new directories below one that is there; all ancestors are.\<close>

lemma test_nested_passes:
  assumes "temp_dir fs base"
  shows "test_ensure_path_within_directory_nested_valid fs base = Ok ()"
proof -
  let ?d1 = "base @ [''subdir1'']" and ?fs1 = "put fs (base @ [''subdir1'']) Dir"
  let ?d2 = "?d1 @ [''subdir2'']" and ?fs2 = "put ?fs1 (?d1 @ [''subdir2'']) Dir"
  let ?file = "?d2 @ [''nested.toml'']"
  let ?fs3 = "put ?fs2 ?file (File ''test'')"
  have hb: "home fs base" and names: "\<forall>n \<in> set base. proper_name n"
    using assms by (simp_all add: temp_dir_def home_def)
  have free: "fs_nodes fs ?d1 = None" "fs_nodes fs ?d2 = None" "fs_nodes fs ?file = None" and
    acc: "fs_access fs ?d1" "fs_access fs ?d2" "\<And>n. fs_access fs (?d2 @ [n])"
    using assms unfolding temp_dir_def by (metis append_assoc append_is_Nil_conv list.distinct(1))+
  have h1: "home ?fs1 ?d1"
    using hb free acc by (intro home_put_dir) (simp_all add: test_simps)
  have h2: "home ?fs2 ?d2"
    by (rule home_put_dir [OF h1]) (use free acc in \<open>simp_all add: test_simps\<close>)
  have hb2: "home ?fs2 base"
    by (rule home_put [OF home_put [OF hb]]) (use free in simp_all)
  have "create_dir_all fs (abs_path ?d2) = Inr ?fs2"
  proof -
    have "proper_name n" if "n \<in> set ?d2" for n
      using that names by (auto simp: test_simps)
    then have "create_dir_all fs (abs_path ?d2) = create_dirs fs (map abs_path (prefixes ?d2))"
      by (rule create_dir_all_abs)
    also have "map abs_path (prefixes ?d2) = map abs_path (prefixes base) @ [abs_path ?d1, abs_path ?d2]"
      using prefixes_snoc [of ?d1 "''subdir2''"] prefixes_snoc [of base "''subdir1''"] by simp
    also have "create_dirs fs \<dots> = create_dirs fs [abs_path ?d1, abs_path ?d2]"
      by (rule create_dirs_home [OF hb])
    also have "\<dots> = create_dirs ?fs1 [abs_path ?d2]"
      by (rule create_dirs_new [OF hb test_names(6) free(1)])
    also have "\<dots> = create_dirs ?fs2 []"
      by (rule create_dirs_new [OF h1 test_names(7)]) (use free in simp)
    finally show ?thesis by simp
  qed
  moreover have "write_file ?fs2 (abs_path ?file) ''test''
      = Inr ?fs3"
    by (rule write_entry [OF h2]) (use free acc in \<open>simp_all add: test_simps\<close>)
  moreover have h3: "home ?fs3 ?d2" "home ?fs3 base"
    by (rule home_put [OF h2], use free in simp, rule home_put [OF hb2], use free in simp)
  moreover have "canonicalize ?fs3 (abs_path ?file) = Inr (abs_path ?file)"
    by (rule canonical_entry [OF h3(1), where b = "''test''"]) (simp_all add: test_simps)
  ultimately show ?thesis
    using names canonical_home [OF h3(2)]
    by (simp add: test_ensure_path_within_directory_nested_valid_def
        ensure_path_within_directory_def push_abs_path starts_with_abs_path test_simps)
qed

lemma find_tests_start:
  assumes "temp_dir fs base" and "valid_utf8 key" and "valid_utf8 (abs_path base)"
    and "globs_to glob base [''testhost.toml'']" and "reads_entry from_str key ''testhost.example.com''"
  defines "t \<equiv> entry_text key ''testhost.example.com''"
  shows "write_file fs (path_push (abs_path base) ''testhost.toml'') t = Inr (put fs (base @ [''testhost.toml'']) (File t))"
    and "find_config_by_public_key K from_str glob debug_on (put fs (base @ [''testhost.toml'']) (File t)) search
      (inventory_test_config base) = Ok
        (case pk_from_openssh K search of Inl _ \<Rightarrow> None | Inr k \<Rightarrow>
           (case pk_from_openssh K key of Inl _ \<Rightarrow> None | Inr k' \<Rightarrow>
              if pk_key_data K k' = pk_key_data K k
              then Some (''testhost'', \<lparr>hc_public_key = key, hc_validity_in_days = 30,
                hc_hostnames = [''testhost.example.com''], hc_extensions = []\<rparr>) else None))"
proof -
  let ?fs = "put fs (base @ [''testhost.toml'']) (File t)"
  let ?hc = "\<lparr>hc_public_key = key, hc_validity_in_days = 30,
    hc_hostnames = [''testhost.example.com''], hc_extensions = []\<rparr>"
  note hb = temp_dirD(1) [OF assms(1)] and names = home_names [OF temp_dirD(1) [OF assms(1)]]
  have free: "fs_nodes fs (base @ [''testhost.toml'']) = None" "fs_access fs (base @ [''testhost.toml''])"
    using assms(1) by (simp_all add: temp_dir_def)
  show "write_file fs (path_push (abs_path base) ''testhost.toml'') t = Inr ?fs"
    using write_entry [OF hb test_names(5) free(2)] free(1) names by (simp add: push_abs_path test_names)
  have home: "home ?fs base"
    by (rule home_put [OF hb]) (use free in simp)
  have t: "valid_utf8 t"
    using assms(2) by (simp add: t_def entry_text_valid ascii_valid is_ascii_def)
  have n: "''testhost'' @ ''.toml'' = ''testhost.toml''" by simp
  have "valid_utf8 ''testhost''"
    by (simp add: ascii_valid is_ascii_def)
  then have "find_config_by_public_key K from_str glob debug_on ?fs search (inventory_test_config base) = Ok
        (case pk_from_openssh K search of Inl _ \<Rightarrow> None | Inr k \<Rightarrow>
           (case pk_from_openssh K (hc_public_key ?hc) of Inl _ \<Rightarrow> None | Inr k' \<Rightarrow>
              if pk_key_data K k' = pk_key_data K k then Some (''testhost'', ?hc) else None))"
    using n test_names(5) free(2) t assms(4,5)
    by (intro find_one [OF home assms(3)])
      (simp_all add: inventory_test_config_def Let_def reads_entry_def t_def)
  then show "find_config_by_public_key K from_str glob debug_on ?fs search (inventory_test_config base) = Ok
        (case pk_from_openssh K search of Inl _ \<Rightarrow> None | Inr k \<Rightarrow>
           (case pk_from_openssh K key of Inl _ \<Rightarrow> None | Inr k' \<Rightarrow>
              if pk_key_data K k' = pk_key_data K k then Some (''testhost'', ?hc) else None))"
    unfolding host_config.simps .
qed

lemma test_find_passes:
  assumes "temp_dir fs base" and "valid_utf8 (abs_path base)" and "globs_to glob base [''testhost.toml'']"
    and "reads_entry from_str (known_key @ '' comment'') ''testhost.example.com''"
    and "reads_entry from_str ''ssh-ed25519'' ''testhost.example.com''"
    and "pk_from_openssh K known_key = Inr k" and "pk_from_openssh K (known_key @ '' comment'') = Inr k'"
    and "pk_key_data K k' = pk_key_data K k"
    and "\<forall>k''. pk_from_openssh K other_key = Inr k'' \<longrightarrow> pk_key_data K k'' \<noteq> pk_key_data K k'"
    and "pk_from_openssh K ''ssh-ed25519'' = Inl e"
  shows "test_find_config_by_public_key_match K from_str glob debug_on fs base = Ok ()"
    and "test_find_config_by_public_key_no_match K from_str glob debug_on fs base = Ok ()"
    and "test_find_config_by_public_key_malformed_key K from_str glob debug_on fs base = Ok ()"
proof -
  have u: "valid_utf8 (known_key @ '' comment'')" "valid_utf8 ''ssh-ed25519''"
    by (simp_all add: known_key_def ascii_valid is_ascii_def)
  note found = find_tests_start [OF assms(1) u(1) assms(2-4)]
  note bad = find_tests_start [OF assms(1) u(2) assms(2,3,5)]
  show "test_find_config_by_public_key_match K from_str glob debug_on fs base = Ok ()"
    using assms(6-8) by (simp add: test_find_config_by_public_key_match_def found test_simps)
  show "test_find_config_by_public_key_no_match K from_str glob debug_on fs base = Ok ()"
    using assms(7,9) by (cases "pk_from_openssh K other_key")
      (auto simp: test_find_config_by_public_key_no_match_def found test_simps)
  show "test_find_config_by_public_key_malformed_key K from_str glob debug_on fs base = Ok ()"
    using assms(6,10) by (simp add: test_find_config_by_public_key_malformed_key_def bad test_simps)
qed

section \<open>Properties\<close>

text \<open>What the tests of the search rely on, beside the directory: the path is UTF-8, the glob
  finds the file, TOML reads the entries, the known key parses with and without comment, the
  key that is searched in vain does not parse or has other data, and an algorithm alone is
  no key.\<close>

definition search_crates ::
  "('pk, 'kd, 'sk, 'b, 'c) ssh_key_crate \<Rightarrow> host_config toml_parser \<Rightarrow> glob_crate \<Rightarrow> string list \<Rightarrow> bool" where
  "search_crates K from_str glob base \<longleftrightarrow>
     valid_utf8 (abs_path base) \<and> globs_to glob base [''testhost.toml'']
     \<and> reads_entry from_str (known_key @ '' comment'') ''testhost.example.com''
     \<and> reads_entry from_str ''ssh-ed25519'' ''testhost.example.com''
     \<and> (\<exists>k k'. pk_from_openssh K known_key = Inr k \<and> pk_from_openssh K (known_key @ '' comment'') = Inr k'
          \<and> pk_key_data K k' = pk_key_data K k
          \<and> (\<forall>k''. pk_from_openssh K other_key = Inr k'' \<longrightarrow> pk_key_data K k'' \<noteq> pk_key_data K k'))
     \<and> (\<exists>e. pk_from_openssh K ''ssh-ed25519'' = Inl e)"

text \<open>C38. The eight tests of the inventory reader pass on the model, in every fresh temporary
  directory of every file system: containment accepts files in the directory and below it,
  and refuses \<open>..\<close>, absolute names and links that lead outside; the search finds a known
  key, does not find another one, and skips an entry whose key is malformed.\<close>

theorem inventory_tests_pass:
  assumes "temp_dir fs (d @ [t])" and "temp_dir fs base2" and "d @ [t] \<noteq> base2"
    and "writable fs d ''outside.toml''" and "search_crates K from_str glob (d @ [t])"
  shows "test_ensure_path_within_directory_valid fs (d @ [t]) = Ok ()
    \<and> test_ensure_path_within_directory_rejects_traversal fs (d @ [t]) = Ok ()
    \<and> test_ensure_path_within_directory_rejects_absolute_outside fs (d @ [t]) base2 = Ok ()
    \<and> test_ensure_path_within_directory_rejects_symlink_escape fs (d @ [t]) = Ok ()
    \<and> test_ensure_path_within_directory_nested_valid fs (d @ [t]) = Ok ()
    \<and> test_find_config_by_public_key_match K from_str glob debug_on fs (d @ [t]) = Ok ()
    \<and> test_find_config_by_public_key_no_match K from_str glob debug_on fs (d @ [t]) = Ok ()
    \<and> test_find_config_by_public_key_malformed_key K from_str glob debug_on fs (d @ [t]) = Ok ()"
proof (intro conjI)
  obtain k k' e where c: "valid_utf8 (abs_path (d @ [t]))" "globs_to glob (d @ [t]) [''testhost.toml'']"
      "reads_entry from_str (known_key @ '' comment'') ''testhost.example.com''"
      "reads_entry from_str ''ssh-ed25519'' ''testhost.example.com''"
      "pk_from_openssh K known_key = Inr k" "pk_from_openssh K (known_key @ '' comment'') = Inr k'"
      "pk_key_data K k' = pk_key_data K k"
      "\<forall>k''. pk_from_openssh K other_key = Inr k'' \<longrightarrow> pk_key_data K k'' \<noteq> pk_key_data K k'"
      "pk_from_openssh K ''ssh-ed25519'' = Inl e"
    using assms(5) unfolding search_crates_def by blast
  note found = test_find_passes [OF assms(1) c, of debug_on]
  show "test_find_config_by_public_key_match K from_str glob debug_on fs (d @ [t]) = Ok ()"
    and "test_find_config_by_public_key_no_match K from_str glob debug_on fs (d @ [t]) = Ok ()"
    and "test_find_config_by_public_key_malformed_key K from_str glob debug_on fs (d @ [t]) = Ok ()"
    by (fact found)+
qed (use assms in \<open>simp_all add: test_valid_passes test_traversal_passes test_absolute_outside_passes
      test_symlink_passes test_nested_passes\<close>)

lemma inventory_tests_pass_witness:
  "test_ensure_path_within_directory_rejects_symlink_escape example_tmp_fs [''tmp'', ''a''] = Ok ()
   \<and> test_find_config_by_public_key_match ref_crate entry_parser
       (\<lambda>pat. Inr [Some ''/tmp/a/testhost.toml'']) True example_tmp_fs [''tmp'', ''a''] = Ok ()"
proof -
  let ?glob = "\<lambda>pat. Inr [Some ''/tmp/a/testhost.toml'']"
  have w: "writable example_tmp_fs [''tmp''] ''outside.toml''"
    by (simp add: writable_def example_tmp_fs_def tree_fs_def)
  have "reads_entry entry_parser (known_key @ '' comment'') ''testhost.example.com''"
    and "reads_entry entry_parser ''ssh-ed25519'' ''testhost.example.com''"
    by (rule entry_parser_reads; simp add: known_key_def)+
  moreover have "globs_to ?glob ([''tmp''] @ [''a'']) [''testhost.toml'']"
    by (simp add: globs_to_def abs_path_def)
  moreover have "valid_utf8 (abs_path ([''tmp''] @ [''a'']))"
    using example_tmp_valid by simp
  moreover have "\<exists>k k'. pk_from_openssh ref_crate known_key = Inr k
      \<and> pk_from_openssh ref_crate (known_key @ '' comment'') = Inr k'
      \<and> pk_key_data ref_crate k' = pk_key_data ref_crate k
      \<and> (\<forall>k''. pk_from_openssh ref_crate other_key = Inr k'' \<longrightarrow> pk_key_data ref_crate k'' \<noteq> pk_key_data ref_crate k')"
    and "\<exists>e. pk_from_openssh ref_crate ''ssh-ed25519'' = Inl e"
    by (simp_all add: ref_crate_def known_key_def other_key_def)
  ultimately have c: "search_crates ref_crate entry_parser ?glob ([''tmp''] @ [''a''])"
    unfolding search_crates_def by blast
  have dirs: "temp_dir example_tmp_fs ([''tmp''] @ [''a''])" "[''tmp''] @ [''a''] \<noteq> [''tmp'', ''b'']"
    using example_temp_dirs(1) by simp_all
  from inventory_tests_pass [OF dirs(1) example_temp_dirs(2) dirs(2) w c, of True] show ?thesis by simp
qed

end
