(* ===== verification/Defaults_Tests.thy ===== *)
theory Defaults_Tests
  imports Test_Support
begin

text \<open>
  The test modules of \<open>certificat_authority/user_defaults_reader.rs\<close>,
  \<open>certificat_authority/certificat_template_reader.rs\<close> and \<open>config/mod.rs\<close>. Those that
  write files run in a fresh temporary directory \<open>base\<close>; those that read files of the
  repository run in its root, the current directory.
\<close>

section \<open>User defaults\<close>

text \<open>\<open>xs[i]\<close> panics out of range.\<close>

definition at_index :: "'a list \<Rightarrow> nat \<Rightarrow> 'a outcome" where
  "at_index xs i = (if i < length xs then Ok (xs ! i) else Panic ''index out of bounds'')"

definition assert_index :: "string list \<Rightarrow> nat \<Rightarrow> string \<Rightarrow> unit outcome" where
  "assert_index xs i s = and_then (at_index xs i) (\<lambda>x. assert_that (x = s))"

definition read_user_defaults_test ::
  "user_list toml_parser \<Rightarrow> user_defaults toml_parser \<Rightarrow> jinja \<Rightarrow> fs \<Rightarrow> path \<Rightarrow> unit outcome" where
  "read_user_defaults_test ul_from_str ud_from_str render_template fs ca_key_path =
     (let cfg = \<lparr>user_list_file = ''./config/user.toml'',
            default_user_template = ''./config/user_default.toml'',
            host_inventory = ''./config/hosts'', ca_key = ca_key_path\<rparr>
      in and_then (must (read_user_defaults ul_from_str ud_from_str render_template fs ''test'' cfg))
           (\<lambda>config. Ok ()))"

definition test_template_rendering_username_substitution ::
  "user_list toml_parser \<Rightarrow> user_defaults toml_parser \<Rightarrow> jinja \<Rightarrow> fs \<Rightarrow> string list \<Rightarrow> bytes \<Rightarrow> unit outcome"
where
  "test_template_rendering_username_substitution ul_from_str ud_from_str render_template fs base ca_key_openssh =
     (let base_path = abs_path base;
          user_template = template_text 1 [user_tag, user_tag @ ''-admin''] [''permit-pty'']
      in and_then (write_all fs
           [(path_push base_path ''ca_key'', ca_key_openssh),
            (path_push base_path ''user.toml'', ''[users]''),
            (path_push base_path ''user_default.toml'', user_template)]) (\<lambda>fs.
         and_then (must (read_user_defaults ul_from_str ud_from_str render_template fs ''alice''
                          (test_config base_path))) (\<lambda>result.
         and_then (assert_that (length (ud_principals result) = 2)) (\<lambda>_.
         and_then (assert_index (ud_principals result) 0 ''alice'') (\<lambda>_.
         and_then (assert_index (ud_principals result) 1 ''alice-admin'') (\<lambda>_.
         and_then (assert_that (ud_validity_in_days result = 1)) (\<lambda>_.
           assert_that (ud_extensions result = [''permit-pty''])))))))) "

definition test_user_specific_template_override ::
  "user_list toml_parser \<Rightarrow> user_defaults toml_parser \<Rightarrow> jinja \<Rightarrow> fs \<Rightarrow> string list \<Rightarrow> bytes \<Rightarrow> unit outcome"
where
  "test_user_specific_template_override ul_from_str ud_from_str render_template fs base ca_key_openssh =
     (let base_path = abs_path base;
          admin_template = template_text 30 [user_tag, ''root'', ''admin'']
            [''permit-pty'', ''permit-port-forwarding'', ''permit-agent-forwarding''];
          user_list = unlines [[], ''[users]'', ''admin = '' @ quoted ''admin_template.toml''];
          default_template = template_text 1 [user_tag] [''permit-pty'']
      in and_then (write_all fs
           [(path_push base_path ''ca_key'', ca_key_openssh),
            (path_push base_path ''admin_template.toml'', admin_template),
            (path_push base_path ''user.toml'', user_list),
            (path_push base_path ''user_default.toml'', default_template)]) (\<lambda>fs.
         let ca_config = test_config base_path
         in and_then (must (read_user_defaults ul_from_str ud_from_str render_template fs ''admin'' ca_config))
              (\<lambda>admin_result.
            and_then (assert_that (ud_validity_in_days admin_result = 30)) (\<lambda>_.
            and_then (assert_that (length (ud_principals admin_result) = 3)) (\<lambda>_.
            and_then (assert_index (ud_principals admin_result) 0 ''admin'') (\<lambda>_.
            and_then (assert_index (ud_principals admin_result) 1 ''root'') (\<lambda>_.
            and_then (assert_index (ud_principals admin_result) 2 ''admin'') (\<lambda>_.
            and_then (assert_that (length (ud_extensions admin_result) = 3)) (\<lambda>_.
            and_then (must (read_user_defaults ul_from_str ud_from_str render_template fs ''regularuser'' ca_config))
              (\<lambda>regular_result.
            and_then (assert_that (ud_validity_in_days regular_result = 1)) (\<lambda>_.
            and_then (assert_that (length (ud_principals regular_result) = 1)) (\<lambda>_.
            and_then (assert_index (ud_principals regular_result) 0 ''regularuser'') (\<lambda>_.
              assert_that (ud_extensions regular_result = [''permit-pty'']))))))))))))))"

definition test_relative_path_resolution ::
  "user_list toml_parser \<Rightarrow> user_defaults toml_parser \<Rightarrow> jinja \<Rightarrow> fs \<Rightarrow> string list \<Rightarrow> bytes \<Rightarrow> unit outcome"
where
  "test_relative_path_resolution ul_from_str ud_from_str render_template fs base ca_key_openssh =
     (let base_path = abs_path base
      in and_then (write_all fs [(path_push base_path ''ca_key'', ca_key_openssh)]) (\<lambda>fs.
         let templates_dir = path_push base_path ''templates''
         in and_then (must (io_result (create_dir fs templates_dir))) (\<lambda>fs.
            let user_template = template_text 5 [user_tag] [];
                user_list = unlines [[], ''[users]'', ''special = '' @ quoted ''templates/special.toml''];
                default_template = template_text 1 [user_tag] []
            in and_then (write_all fs [(path_push templates_dir ''special.toml'', user_template)]) (\<lambda>fs.
               and_then (write_all fs
                 [(path_push base_path ''user.toml'', user_list),
                  (path_push base_path ''user_default.toml'', default_template)]) (\<lambda>fs.
               and_then (must (read_user_defaults ul_from_str ud_from_str render_template fs ''special''
                                (test_config base_path))) (\<lambda>result.
                 assert_that (ud_validity_in_days result = 5)))))))"

definition test_empty_extensions ::
  "user_list toml_parser \<Rightarrow> user_defaults toml_parser \<Rightarrow> jinja \<Rightarrow> fs \<Rightarrow> string list \<Rightarrow> bytes \<Rightarrow> unit outcome"
where
  "test_empty_extensions ul_from_str ud_from_str render_template fs base ca_key_openssh =
     (let base_path = abs_path base; user_template = template_text 1 [user_tag] []
      in and_then (write_all fs
           [(path_push base_path ''ca_key'', ca_key_openssh),
            (path_push base_path ''user.toml'', ''[users]''),
            (path_push base_path ''user_default.toml'', user_template)]) (\<lambda>fs.
         and_then (must (read_user_defaults ul_from_str ud_from_str render_template fs ''testuser''
                          (test_config base_path))) (\<lambda>result.
           assert_that (length (ud_extensions result) = 0))))"

section \<open>Certificate configuration and configuration\<close>

definition read_cert_config_test ::
  "certificate_config toml_parser \<Rightarrow> jinja \<Rightarrow> fs \<Rightarrow> unit outcome" where
  "read_cert_config_test from_str render_template fs =
     and_then (must (read_certificate_config from_str render_template fs ''./test_data/user_cert_config.toml''))
       (\<lambda>config. Ok ())"

definition config_test_text :: "string \<Rightarrow> string" where
  "config_test_text key_path = unlines
     [[], ''[ssh]'', ''bind = '' @ quoted ''127.0.0.1'', ''port = 2222'',
      ''private_key = '' @ quoted ''/etc/ssh/ssh_host_ed25519_key'', [],
      ''[ca]'', ''ca_key = '' @ quoted key_path, ''certificate_validity_days = 30'',
      ''user_list_file='' @ quoted ''../test_data/test_key'',
      ''default_user_template='' @ quoted ''../test_data/test_key'',
      ''host_inventory='' @ quoted ''../test_data/'', [],
      ''[identity_handlers]'', ''user_authenticators = ['' @ quoted ''pam'' @ '']'']"

definition read_config_test :: "config toml_parser \<Rightarrow> fs \<Rightarrow> string list \<Rightarrow> unit outcome" where
  "read_config_test from_str fs dir =
     (let key_path = path_push (abs_path dir) ''test_key''; config_path = path_push (abs_path dir) ''config.toml''
      in and_then (must (io_result (write_file fs key_path ''test key data''))) (\<lambda>fs.
         if \<not> valid_utf8 key_path then Panic unwrap_none
         else and_then (must (io_result (write_file fs config_path (config_test_text key_path)))) (\<lambda>fs.
           if \<not> valid_utf8 config_path then Panic unwrap_none
           else and_then (must (read_config from_str fs config_path)) (\<lambda>config. Ok ()))))"

section \<open>Lemmas\<close>

lemma assert_index_Ok [simp]: "i < length xs \<Longrightarrow> xs ! i = s \<Longrightarrow> assert_index xs i s = Ok ()"
  by (simp add: assert_index_def at_index_def assert_that_def)

lemma short_texts:
  "short_text (template_text 1 [user_tag, user_tag @ ''-admin''] [''permit-pty''])"
  "short_text (template_text 30 [user_tag, ''root'', ''admin'']
     [''permit-pty'', ''permit-port-forwarding'', ''permit-agent-forwarding''])"
  "short_text (template_text 1 [user_tag] [''permit-pty''])"
  "short_text (template_text 5 [user_tag] [])" "short_text (template_text 1 [user_tag] [])"
  "short_text ''[users]''"
  "short_text (unlines [[], ''[users]'', ''admin = '' @ quoted ''admin_template.toml''])"
  "short_text (unlines [[], ''[users]'', ''special = '' @ quoted ''templates/special.toml''])"
  by (simp_all add: short_text_def template_text_def unlines_def quoted_def user_tag_def is_ascii_def
      dec.simps digit_char_def)

lemma test_substitution_passes:
  assumes "temp_dir fs base" and "ul_from_str ''[users]'' = Inr \<lparr>users = Map.empty\<rparr>"
    and "renders render_template ud_from_str ''alice'' (template_text 1 [user_tag, user_tag @ ''-admin''] [''permit-pty''])
      \<lparr>ud_validity_in_days = 1, ud_principals = [''alice'', ''alice-admin''], ud_extensions = [''permit-pty'']\<rparr>"
  shows "test_template_rendering_username_substitution ul_from_str ud_from_str render_template fs base key = Ok ()"
proof -
  let ?t = "template_text 1 [user_tag, user_tag @ ''-admin''] [''permit-pty'']"
  let ?nbs = "[(''ca_key'', key), (''user.toml'', ''[users]''), (''user_default.toml'', ?t)]"
  note hb = temp_dirD(1) [OF assms(1)]
  have new: "new_files fs base ?nbs"
    using assms(1) by (simp add: new_files_temp test_file_names)
  have "read_user_defaults ul_from_str ud_from_str render_template (with_files fs base ?nbs) ''alice''
      (test_config (abs_path base))
    = Ok \<lparr>ud_validity_in_days = 1, ud_principals = [''alice'', ''alice-admin''], ud_extensions = [''permit-pty'']\<rparr>"
    by (rule reads_default_template [where template = ?t and ul = "\<lparr>users = Map.empty\<rparr>", OF files_home [OF hb new] files_holds [OF new] files_holds [OF new] short_texts(6)])
      (use assms(2,3) short_texts(1) in simp_all)
  with write_all_pushed [OF hb new refl] show ?thesis
    by (simp add: test_template_rendering_username_substitution_def must_Ok assert_that_True Let_def)
qed

lemma test_empty_extensions_passes:
  assumes "temp_dir fs base" and "ul_from_str ''[users]'' = Inr \<lparr>users = Map.empty\<rparr>"
    and "renders render_template ud_from_str ''testuser'' (template_text 1 [user_tag] [])
      \<lparr>ud_validity_in_days = 1, ud_principals = [''testuser''], ud_extensions = []\<rparr>"
  shows "test_empty_extensions ul_from_str ud_from_str render_template fs base key = Ok ()"
proof -
  let ?nbs = "[(''ca_key'', key), (''user.toml'', ''[users]''), (''user_default.toml'', template_text 1 [user_tag] [])]"
  note hb = temp_dirD(1) [OF assms(1)]
  have new: "new_files fs base ?nbs"
    using assms(1) by (simp add: new_files_temp test_file_names)
  have "read_user_defaults ul_from_str ud_from_str render_template (with_files fs base ?nbs) ''testuser''
      (test_config (abs_path base))
    = Ok \<lparr>ud_validity_in_days = 1, ud_principals = [''testuser''], ud_extensions = []\<rparr>"
    by (rule reads_default_template [where template = "template_text 1 [user_tag] []"
        and ul = "\<lparr>users = Map.empty\<rparr>", OF files_home [OF hb new] files_holds [OF new] files_holds [OF new] short_texts(6)])
      (use assms(2,3) short_texts(5) in simp_all)
  with write_all_pushed [OF hb new refl] show ?thesis
    by (simp add: test_empty_extensions_def must_Ok assert_that_True Let_def)
qed

lemma test_override_passes:
  assumes "temp_dir fs base"
    and "ul_from_str (unlines [[], ''[users]'', ''admin = '' @ quoted ''admin_template.toml''])
      = Inr \<lparr>users = [''admin'' \<mapsto> ''admin_template.toml'']\<rparr>"
    and "renders render_template ud_from_str ''admin'' (template_text 30 [user_tag, ''root'', ''admin'']
        [''permit-pty'', ''permit-port-forwarding'', ''permit-agent-forwarding''])
      \<lparr>ud_validity_in_days = 30, ud_principals = [''admin'', ''root'', ''admin''],
        ud_extensions = [''permit-pty'', ''permit-port-forwarding'', ''permit-agent-forwarding'']\<rparr>"
    and "renders render_template ud_from_str ''regularuser'' (template_text 1 [user_tag] [''permit-pty''])
      \<lparr>ud_validity_in_days = 1, ud_principals = [''regularuser''], ud_extensions = [''permit-pty'']\<rparr>"
  shows "test_user_specific_template_override ul_from_str ud_from_str render_template fs base key = Ok ()"
proof -
  let ?a = "template_text 30 [user_tag, ''root'', ''admin'']
    [''permit-pty'', ''permit-port-forwarding'', ''permit-agent-forwarding'']"
  let ?l = "unlines [[], ''[users]'', ''admin = '' @ quoted ''admin_template.toml'']"
  let ?d = "template_text 1 [user_tag] [''permit-pty'']"
  let ?nbs = "[(''ca_key'', key), (''admin_template.toml'', ?a), (''user.toml'', ?l), (''user_default.toml'', ?d)]"
  note hb = temp_dirD(1) [OF assms(1)]
  have new: "new_files fs base ?nbs"
    using assms(1) by (simp add: new_files_temp test_file_names)
  have "read_to_string (with_files fs base ?nbs) (abs_path (base @ [''admin_template.toml''])) = Inr ?a"
    by (rule files_read(2) [OF hb new _ short_text_valid [OF short_texts(2)]]) simp
  then have a: "read_to_string (with_files fs base ?nbs) (path_push (abs_path base) ''admin_template.toml'') = Inr ?a"
    using push_home [OF hb test_file_names(4)] by simp
  have "read_user_defaults ul_from_str ud_from_str render_template (with_files fs base ?nbs) ''admin''
      (test_config (abs_path base)) = Ok \<lparr>ud_validity_in_days = 30, ud_principals = [''admin'', ''root'', ''admin''],
        ud_extensions = [''permit-pty'', ''permit-port-forwarding'', ''permit-agent-forwarding'']\<rparr>"
    by (rule reads_listed_template [where l = "''admin_template.toml''" and template = ?a and lt = ?l
        and ul = "\<lparr>users = [''admin'' \<mapsto> ''admin_template.toml'']\<rparr>", OF files_home [OF hb new] files_holds [OF new]])
      (use assms(2,3) a short_texts(2,7) in \<open>simp_all add: has_root_def\<close>)
  moreover have "read_user_defaults ul_from_str ud_from_str render_template (with_files fs base ?nbs) ''regularuser''
      (test_config (abs_path base))
    = Ok \<lparr>ud_validity_in_days = 1, ud_principals = [''regularuser''], ud_extensions = [''permit-pty'']\<rparr>"
    by (rule reads_default_template [where template = ?d and ul = "\<lparr>users = [''admin'' \<mapsto> ''admin_template.toml'']\<rparr>", OF files_home [OF hb new] files_holds [OF new] files_holds [OF new] short_texts(7)])
      (use assms(2,4) short_texts(3) in simp_all)
  ultimately show ?thesis
    using write_all_pushed [OF hb new refl]
    by (simp add: test_user_specific_template_override_def must_Ok assert_that_True Let_def)
qed

lemma push_two:
  assumes "\<not> has_root n" and "n \<noteq> []" and "last n \<noteq> slash" and "\<not> has_root m"
  shows "path_push p (n @ slash # m) = path_push (path_push p n) m"
  using assms by (cases n) (auto simp: path_push_def has_root_def)

lemma test_relative_passes:
  assumes "temp_dir fs base"
    and "ul_from_str (unlines [[], ''[users]'', ''special = '' @ quoted ''templates/special.toml''])
      = Inr \<lparr>users = [''special'' \<mapsto> ''templates/special.toml'']\<rparr>"
    and "renders render_template ud_from_str ''special'' (template_text 5 [user_tag] [])
      \<lparr>ud_validity_in_days = 5, ud_principals = [''special''], ud_extensions = []\<rparr>"
  shows "test_relative_path_resolution ul_from_str ud_from_str render_template fs base key = Ok ()"
proof -
  let ?t = "template_text 5 [user_tag] []" and ?td = "base @ [''templates'']"
  let ?l = "unlines [[], ''[users]'', ''special = '' @ quoted ''templates/special.toml'']"
  let ?nbs1 = "[(''ca_key'', key)]" and ?nbs3 = "[(''special.toml'', ?t)]"
  let ?nbs4 = "[(''user.toml'', ?l), (''user_default.toml'', template_text 1 [user_tag] [])]"
  let ?fs1 = "with_files fs base ?nbs1"
  let ?fs2 = "put ?fs1 ?td Dir"
  let ?fs3 = "with_files ?fs2 ?td ?nbs3"
  let ?fs4 = "with_files ?fs3 base ?nbs4"
  note hb = temp_dirD(1) [OF assms(1)]
  note free = temp_dirD(3,2) [OF assms(1)]
  have new1: "new_files fs base ?nbs1"
    using assms(1) by (simp add: new_files_temp test_file_names)
  have h1: "home ?fs1 base"
    by (rule files_home [OF hb new1])
  have h2: "home ?fs2 ?td"
    by (rule home_put_dir [OF h1]) (use free in \<open>simp_all add: test_file_names\<close>)
  have hb2: "home ?fs2 base"
    by (rule home_put [OF h1]) (use free in simp)
  have new3: "new_files ?fs2 ?td ?nbs3"
    using free by (simp add: new_files_def writable_def test_file_names)
  have h3: "home ?fs3 ?td" "home ?fs3 base"
    by (rule files_home [OF h2 new3], rule files_home [OF hb2 new3])
  have new4: "new_files ?fs3 base ?nbs4"
    using free by (simp add: new_files_def writable_def test_file_names)
  have "read_to_string ?fs4 (abs_path (?td @ [''special.toml''])) = Inr ?t"
    by (rule read_entry(2) [OF files_home [OF h3(1) new4]])
      (use free short_texts(4) in \<open>simp_all add: test_file_names short_text_valid\<close>)
  moreover have "path_push (abs_path base) ''templates/special.toml'' = abs_path (?td @ [''special.toml''])"
    using push_two [of "''templates''" "''special.toml''" "abs_path base"] push_home [OF hb test_file_names(5)]
      push_home [OF h2 test_file_names(6)] by (simp add: has_root_def)
  ultimately have r: "read_to_string ?fs4 (path_push (abs_path base) ''templates/special.toml'') = Inr ?t"
    by simp
  have "read_user_defaults ul_from_str ud_from_str render_template ?fs4 ''special''
      (test_config (abs_path base))
    = Ok \<lparr>ud_validity_in_days = 5, ud_principals = [''special''], ud_extensions = []\<rparr>"
    by (rule reads_listed_template [where l = "''templates/special.toml''" and template = ?t and lt = ?l
        and ul = "\<lparr>users = [''special'' \<mapsto> ''templates/special.toml'']\<rparr>", OF files_home [OF h3(2) new4] files_holds [OF new4]])
      (use assms(2,3) r short_texts(4,8) in \<open>simp_all add: has_root_def\<close>)
  moreover have "create_dir ?fs1 (abs_path ?td) = Inr ?fs2"
    unfolding create_dir_def
    by (rule create_entry_new [OF h1]) (use free in \<open>simp_all add: test_file_names\<close>)
  ultimately show ?thesis
    using write_all_pushed [OF hb new1 refl] write_all_pushed [OF h2 new3 refl]
      write_all_pushed [OF h3(2) new4 refl] push_home [OF hb test_file_names(5)]
    by (simp add: test_relative_path_resolution_def must_Ok assert_that_True Let_def
        del: with_files.simps put_simps write_all.simps)
qed

subsection \<open>Tests on the files of the repository\<close>

text \<open>The two files \<open>config/user.toml\<close> and \<open>config/test_user_template.toml\<close> at the root.\<close>

definition repository_config :: "fs \<Rightarrow> string \<Rightarrow> string \<Rightarrow> bool" where
  "repository_config fs list template \<longleftrightarrow>
     (let root = fs_cwd fs; dir = root @ [''config'']
      in fs_access fs root \<and> fs_access fs dir \<and> fs_nodes fs dir = Some Dir
         \<and> fs_access fs (dir @ [''user.toml'']) \<and> fs_nodes fs (dir @ [''user.toml'']) = Some (File list)
         \<and> fs_access fs (dir @ [''test_user_template.toml''])
         \<and> fs_nodes fs (dir @ [''test_user_template.toml'']) = Some (File template)
         \<and> short_text list \<and> short_text template)"

lemma repository_paths:
  "walk_names ''./config/user.toml'' = [''.'', ''config'', ''user.toml'']"
  "walk_names ''./config/./test_user_template.toml'' = [''.'', ''config'', ''.'', ''test_user_template.toml'']"
  "walk_names ''./test_data/user_cert_config.toml'' = [''.'', ''test_data'', ''user_cert_config.toml'']"
  "path_parent ''./config/user.toml'' = Some ''./config''"
  by code_simp+

lemma read_relative:
  assumes "p \<noteq> []" and "\<not> has_root p" and "resolve fs max_links (fs_cwd fs) (walk_names p) = Inr q"
    and "fs_access fs q" and "q \<noteq> []" and "fs_nodes fs q = Some (File t)" and "short_text t"
  shows "read_to_string fs p = Inr t"
  using assms
  by (simp add: read_to_string_def read_to_end_def resolve_path_def read_at_def node_at_def from_utf8_def
      short_text_valid)

lemma repository_defaults:
  assumes "repository_config fs list template" and "user_list_file cfg = ''./config/user.toml''"
    and "ul_from_str list = Inr ul" and "users ul ''test'' = Some ''./test_user_template.toml''"
    and "renders render_template ud_from_str ''test'' template d"
  shows "read_user_defaults ul_from_str ud_from_str render_template fs ''test'' cfg = Ok d"
proof (rule read_user_defaults_renders [where lt = list and ul = ul and template = template])
  show "read_to_string fs (user_list_file cfg) = Inr list"
    unfolding assms(2)
    by (rule read_relative [where q = "fs_cwd fs @ [''config'', ''user.toml'']"])
      (use assms(1) in \<open>auto simp: repository_config_def Let_def repository_paths has_root_def resolve.simps\<close>)
  show "read_to_string fs ''./config/./test_user_template.toml'' = Inr template"
    by (rule read_relative [where q = "fs_cwd fs @ [''config'', ''test_user_template.toml'']"])
      (use assms(1) in \<open>auto simp: repository_config_def Let_def repository_paths has_root_def resolve.simps\<close>)
  show "user_template_path ul ''test'' cfg = Ok ''./config/./test_user_template.toml''"
    using assms(2,4) by (simp add: user_template_path_def is_relative_def has_root_def repository_paths path_push_def)
qed (use assms in \<open>simp_all add: repository_config_def Let_def short_text_def\<close>)

lemma read_user_defaults_test_passes:
  assumes "repository_config fs list template"
    and "ul_from_str list = Inr ul" and "users ul ''test'' = Some ''./test_user_template.toml''"
    and "renders render_template ud_from_str ''test'' template d"
  shows "read_user_defaults_test ul_from_str ud_from_str render_template fs key_path = Ok ()"
  using repository_defaults [where ul_from_str = ul_from_str, OF assms(1) _ assms(2-4)] by (simp add: read_user_defaults_test_def must_Ok)

lemma read_cert_config_test_passes:
  assumes "fs_access fs (fs_cwd fs)" and "fs_access fs (fs_cwd fs @ [''test_data''])"
    and "fs_nodes fs (fs_cwd fs @ [''test_data'']) = Some Dir"
    and "fs_access fs (fs_cwd fs @ [''test_data'', ''user_cert_config.toml''])"
    and "fs_nodes fs (fs_cwd fs @ [''test_data'', ''user_cert_config.toml'']) = Some (File template)"
    and "short_text template"
    and "render_template ''config'' template certificate_config_context = Inr out" and "from_str out = Inr config"
  shows "read_cert_config_test from_str render_template fs = Ok ()"
proof -
  have "read_to_string fs ''./test_data/user_cert_config.toml'' = Inr template"
    by (rule read_relative [where q = "fs_cwd fs @ [''test_data'', ''user_cert_config.toml'']"])
      (use assms in \<open>auto simp: repository_paths has_root_def resolve.simps\<close>)
  then show ?thesis
    using assms(6-8) by (simp add: read_cert_config_test_def read_certificate_config_def short_text_def
        MAX_TEMPLATE_SIZE_def must_Ok)
qed

lemma config_text_valid: "valid_utf8 p \<Longrightarrow> valid_utf8 (config_test_text p)"
  unfolding config_test_text_def
  by (rule valid_utf8_unlines)
    (simp add: valid_utf8_Cons_ascii valid_utf8_append valid_utf8_quoted ascii_valid is_ascii_def)

lemma read_config_test_passes:
  assumes "temp_dir fs dir" and "valid_utf8 (abs_path dir)"
    and "from_str (config_test_text (abs_path (dir @ [''test_key'']))) = Inr cfg"
    and "ca_key (ca cfg) = abs_path (dir @ [''test_key''])"
  shows "read_config_test from_str fs dir = Ok ()"
proof -
  let ?key = "abs_path (dir @ [''test_key''])" and ?conf = "abs_path (dir @ [''config.toml''])"
  let ?fs1 = "put fs (dir @ [''test_key'']) (File ''test key data'')"
  let ?fs2 = "put ?fs1 (dir @ [''config.toml'']) (File (config_test_text ?key))"
  note hd = temp_dirD(1) [OF assms(1)] and names = home_names [OF temp_dirD(1) [OF assms(1)]] and free = temp_dirD(3,2) [OF assms(1)]
  have u: "valid_utf8 ?key" "valid_utf8 ?conf"
    using names assms(2) by (auto intro!: valid_utf8_abs_push simp: test_file_names ascii_valid is_ascii_def)
  have w1: "write_file fs ?key ''test key data'' = Inr ?fs1"
    by (rule write_entry [OF hd]) (simp_all add: free test_file_names)
  have h1: "home ?fs1 dir"
    by (rule home_put [OF hd]) (simp add: free)
  have w2: "write_file ?fs1 ?conf (config_test_text ?key) = Inr ?fs2"
    by (rule write_entry [OF h1]) (simp_all add: free test_file_names)
  have h2: "home ?fs2 dir"
    by (rule home_put [OF h1]) (simp add: free)
  have "path_exists ?fs2 ?conf" and "path_exists ?fs2 ?key"
    using resolve_entry [OF h2 test_file_names(8), of "config_test_text ?key"]
      resolve_entry [OF h2 test_file_names(7), of "''test key data''"]
    by (simp_all add: path_exists_def)
  moreover have "read_to_string ?fs2 ?conf = Inr (config_test_text ?key)"
    by (rule read_entry(2) [OF h2]) (simp_all add: free test_file_names config_text_valid u)
  moreover have "path_parent ?conf = Some (abs_path dir)"
    using names by (intro path_parent_abs_path) (auto simp: test_file_names)
  ultimately have "\<exists>c. read_config from_str ?fs2 ?conf = Ok c"
    using assms(3,4) unfolding read_config_cases
    by (auto simp: ca_insert_config_path_def Let_def)
  with w1 w2 u names show ?thesis
    by (auto simp: read_config_test_def push_abs_path test_file_names must_Ok)
qed

section \<open>Properties\<close>

text \<open>What the tests in a temporary directory need of the TOML parser and the template engine:
  the three user lists parse, and each template renders and parses for the user of the test.\<close>

definition template_crates :: "user_list toml_parser \<Rightarrow> user_defaults toml_parser \<Rightarrow> jinja \<Rightarrow> bool" where
  "template_crates ul_from_str ud_from_str engine \<longleftrightarrow>
     ul_from_str ''[users]'' = Inr \<lparr>users = Map.empty\<rparr>
     \<and> ul_from_str (unlines [[], ''[users]'', ''admin = '' @ quoted ''admin_template.toml''])
         = Inr \<lparr>users = [''admin'' \<mapsto> ''admin_template.toml'']\<rparr>
     \<and> ul_from_str (unlines [[], ''[users]'', ''special = '' @ quoted ''templates/special.toml''])
         = Inr \<lparr>users = [''special'' \<mapsto> ''templates/special.toml'']\<rparr>
     \<and> renders engine ud_from_str ''alice'' (template_text 1 [user_tag, user_tag @ ''-admin''] [''permit-pty''])
         \<lparr>ud_validity_in_days = 1, ud_principals = [''alice'', ''alice-admin''], ud_extensions = [''permit-pty'']\<rparr>
     \<and> renders engine ud_from_str ''testuser'' (template_text 1 [user_tag] [])
         \<lparr>ud_validity_in_days = 1, ud_principals = [''testuser''], ud_extensions = []\<rparr>
     \<and> renders engine ud_from_str ''admin'' (template_text 30 [user_tag, ''root'', ''admin'']
           [''permit-pty'', ''permit-port-forwarding'', ''permit-agent-forwarding''])
         \<lparr>ud_validity_in_days = 30, ud_principals = [''admin'', ''root'', ''admin''],
          ud_extensions = [''permit-pty'', ''permit-port-forwarding'', ''permit-agent-forwarding'']\<rparr>
     \<and> renders engine ud_from_str ''regularuser'' (template_text 1 [user_tag] [''permit-pty''])
         \<lparr>ud_validity_in_days = 1, ud_principals = [''regularuser''], ud_extensions = [''permit-pty'']\<rparr>
     \<and> renders engine ud_from_str ''special'' (template_text 5 [user_tag] [])
         \<lparr>ud_validity_in_days = 5, ud_principals = [''special''], ud_extensions = []\<rparr>"

text \<open>What the tests on the repository's own files need: the files are where they should be,
  the list names a template for the user \<open>test\<close>, and the templates render and parse.\<close>

definition repository_reads ::
  "user_list toml_parser \<Rightarrow> user_defaults toml_parser \<Rightarrow> certificate_config toml_parser \<Rightarrow> jinja \<Rightarrow> fs \<Rightarrow> bool"
where
  "repository_reads ul_from_str ud_from_str cc_from_str engine fs \<longleftrightarrow>
     (\<exists>list template ul d. repository_config fs list template \<and> ul_from_str list = Inr ul
        \<and> users ul ''test'' = Some ''./test_user_template.toml'' \<and> renders engine ud_from_str ''test'' template d)
     \<and> (\<exists>template out c. fs_access fs (fs_cwd fs @ [''test_data''])
        \<and> fs_nodes fs (fs_cwd fs @ [''test_data'']) = Some Dir
        \<and> fs_access fs (fs_cwd fs @ [''test_data'', ''user_cert_config.toml''])
        \<and> fs_nodes fs (fs_cwd fs @ [''test_data'', ''user_cert_config.toml'']) = Some (File template)
        \<and> short_text template \<and> engine ''config'' template certificate_config_context = Inr out
        \<and> cc_from_str out = Inr c)"


text \<open>
  A concrete instance: the repository's files at the root, a fresh directory \<open>/tmp/a\<close>, a
  table for the lists, and an engine that writes the user's name before the template.
\<close>

definition example_repository :: fs where
  "example_repository = tree_fs
     [([''config''], Dir), ([''test_data''], Dir), ([''tmp''], Dir), ([''tmp'', ''a''], Dir), ([''tmp'', ''b''], Dir),
      ([''config'', ''user.toml''], File ''test=./test_user_template.toml''),
      ([''config'', ''test_user_template.toml''], File ''validity_in_days=7''),
      ([''test_data'', ''user_cert_config.toml''], File ''key_id={{ KeyID }}'')]"

definition example_lists :: "user_list toml_parser" where
  "example_lists t = Inr
     \<lparr>users = (if t = unlines [[], ''[users]'', ''admin = '' @ quoted ''admin_template.toml'']
                 then [''admin'' \<mapsto> ''admin_template.toml'']
               else if t = unlines [[], ''[users]'', ''special = '' @ quoted ''templates/special.toml'']
                 then [''special'' \<mapsto> ''templates/special.toml'']
               else if t = ''test=./test_user_template.toml'' then [''test'' \<mapsto> ''./test_user_template.toml'']
               else Map.empty)\<rparr>"

definition name_first :: jinja where
  "name_first name t ctx = Inr (name @ CHR 0x0A # t)"

definition example_rendered :: "user_defaults toml_parser" where
  "example_rendered out =
     (let user = takeWhile (\<lambda>c. c \<noteq> CHR 0x0A) out
      in Inr (if user = ''alice'' then \<lparr>ud_validity_in_days = 1, ud_principals = [''alice'', ''alice-admin''],
                ud_extensions = [''permit-pty'']\<rparr>
              else if user = ''admin'' then \<lparr>ud_validity_in_days = 30, ud_principals = [''admin'', ''root'', ''admin''],
                ud_extensions = [''permit-pty'', ''permit-port-forwarding'', ''permit-agent-forwarding'']\<rparr>
              else if user = ''special'' then \<lparr>ud_validity_in_days = 5, ud_principals = [user], ud_extensions = []\<rparr>
              else if user = ''regularuser'' then \<lparr>ud_validity_in_days = 1, ud_principals = [user],
                ud_extensions = [''permit-pty'']\<rparr>
              else \<lparr>ud_validity_in_days = 1, ud_principals = [user], ud_extensions = []\<rparr>))"

lemma example_template_crates: "template_crates example_lists example_rendered name_first"
proof -
  have "renders name_first example_rendered user t d \<longleftrightarrow> example_rendered (user @ CHR 0x0A # t) = Inr d" for user t d
    by (simp add: renders_def name_first_def)
  then show ?thesis
    by (simp add: template_crates_def example_lists_def example_rendered_def unlines_def quoted_def Let_def)
qed

lemma example_repository_reads:
  "repository_reads example_lists example_rendered (\<lambda>_. Inr \<lparr>cc_cert_type = ''user'', cc_key_id = 1,
     cc_principals = [], cc_extensions = Map.empty, cc_critical_options = Map.empty, cc_validity_span_h = 1\<rparr>)
     name_first example_repository"
  unfolding repository_reads_def
proof (intro conjI exI)
  show "repository_config example_repository ''test=./test_user_template.toml'' ''validity_in_days=7''"
    by (simp add: repository_config_def example_repository_def tree_fs_def short_text_def is_ascii_def)
  show "example_lists ''test=./test_user_template.toml'' = Inr \<lparr>users = [''test'' \<mapsto> ''./test_user_template.toml'']\<rparr>"
    by (simp add: example_lists_def unlines_def quoted_def)
  show "renders name_first example_rendered ''test'' ''validity_in_days=7''
      \<lparr>ud_validity_in_days = 1, ud_principals = [''test''], ud_extensions = []\<rparr>"
    by (simp add: renders_def name_first_def example_rendered_def Let_def)
  show "short_text ''key_id={{ KeyID }}''"
    by (simp add: short_text_def is_ascii_def)
qed (simp_all add: example_repository_def tree_fs_def name_first_def)

lemma example_repository_dirs:
  "temp_dir example_repository [''tmp'', ''a'']" "temp_dir example_repository [''tmp'', ''b'']"
  by (auto simp: temp_dir_def home_def physical_dir_def physical_def node_at_def example_repository_def
      tree_fs_def proper_name_def less_Suc_eq)

definition example_parsed_config :: config where
  "example_parsed_config =
     \<lparr>ssh = \<lparr>bind_addr = ''127.0.0.1'', port = 2222, ssh_private_key = ''/etc/ssh/ssh_host_ed25519_key'',
        certificate = None\<rparr>,
      ca = \<lparr>user_list_file = ''../test_data/test_key'', default_user_template = ''../test_data/test_key'',
        host_inventory = ''../test_data/'', ca_key = ''/tmp/a/test_key''\<rparr>,
      identity_handlers = \<lparr>user_authenticators = [''pam'']\<rparr>\<rparr>"


end
