(* ===== verification/Authority_Tests.thy ===== *)
theory Authority_Tests
  imports Defaults_Tests Ca_Server
begin

text \<open>
  The test modules of \<open>certificat_authority/mod.rs\<close> and \<open>certificat_authority/ca_server.rs\<close>.
  The generated keys are parameters: the CA key as OpenSSH text, the other keys as public
  keys. \<open>cv\<close> stands for the accessors of a certificate.
\<close>

section \<open>mod.rs\<close>

definition sign_certificate_test ::
  "('pk, 'kd, 'sk, 'b, 'c) ca_env \<Rightarrow> fs \<Rightarrow> readings \<Rightarrow> 'sk \<Rightarrow> path \<Rightarrow> 'pk \<Rightarrow> unit outcome" where
  "sign_certificate_test env fs rd key key_path subject_public_key =
     (let cfg = \<lparr>user_list_file = ''./config/user.toml'',
            default_user_template = ''./config/user_default.toml'',
            host_inventory = ''./config/hosts/'', ca_key = key_path\<rparr>;
          auth = \<lparr>private_key = key, ca_config = cfg\<rparr>
      in and_then (must (sign_certificate env fs auth rd ''test'' subject_public_key)) (\<lambda>cert. Ok ()))"

definition test_sign_certificate_principals ::
  "('pk, 'kd, 'sk, 'b, 'c) ca_env \<Rightarrow> ('c \<Rightarrow> 'kd cert_fields) \<Rightarrow> fs \<Rightarrow> readings \<Rightarrow> string list \<Rightarrow> bytes \<Rightarrow> 'pk
    \<Rightarrow> unit outcome"
where
  "test_sign_certificate_principals env cv fs rd base ca_key_openssh subject_public_key =
     (let base_path = abs_path base;
          user_template = template_text 1 [user_tag, ''admin''] [''permit-pty'', ''permit-port-forwarding'']
      in and_then (write_all fs
           [(path_push base_path ''ca_key'', ca_key_openssh),
            (path_push base_path ''user.toml'', ''[users]''),
            (path_push base_path ''user_default.toml'', user_template)]) (\<lambda>fs.
         and_then (must (ca_new env fs (test_config base_path))) (\<lambda>auth.
         and_then (must (sign_certificate env fs auth rd ''testuser'' subject_public_key)) (\<lambda>cert.
         and_then (assert_that (cf_type (cv cert) = UserCert)) (\<lambda>_.
         and_then (assert_that (prefix ''user-testuser-'' (cf_key_id (cv cert)))) (\<lambda>_.
         let principals = cf_principals (cv cert)
         in and_then (assert_that (length principals = 2)) (\<lambda>_.
            and_then (assert_that (''testuser'' \<in> set principals)) (\<lambda>_.
            and_then (assert_that (''admin'' \<in> set principals)) (\<lambda>_.
            and_then (assert_that (cf_extensions (cv cert) ''permit-pty'' \<noteq> None)) (\<lambda>_.
              assert_that (cf_extensions (cv cert) ''permit-port-forwarding'' \<noteq> None)))))))))))"

text \<open>\<open>before_ns\<close> and \<open>after_ns\<close> are the clock readings the test takes around the call.\<close>

definition test_sign_certificate_validity ::
  "('pk, 'kd, 'sk, 'b, 'c) ca_env \<Rightarrow> ('c \<Rightarrow> 'kd cert_fields) \<Rightarrow> fs \<Rightarrow> int \<Rightarrow> readings \<Rightarrow> int \<Rightarrow> string list
    \<Rightarrow> bytes \<Rightarrow> 'pk \<Rightarrow> unit outcome"
where
  "test_sign_certificate_validity env cv fs before_ns rd after_ns base ca_key_openssh subject_public_key =
     (let base_path = abs_path base; user_template = template_text 7 [user_tag] []
      in and_then (write_all fs
           [(path_push base_path ''ca_key'', ca_key_openssh),
            (path_push base_path ''user.toml'', ''[users]''),
            (path_push base_path ''user_default.toml'', user_template)]) (\<lambda>fs.
         and_then (must (ca_new env fs (test_config base_path))) (\<lambda>auth.
         and_then (unix_secs before_ns) (\<lambda>before_signing.
         and_then (must (sign_certificate env fs auth rd ''testuser'' subject_public_key)) (\<lambda>cert.
         and_then (unix_secs after_ns) (\<lambda>after_signing.
         and_then (assert_that (cf_valid_after (cv cert) \<ge> before_signing)) (\<lambda>_.
         and_then (assert_that (cf_valid_after (cv cert) \<le> after_signing)) (\<lambda>_.
           let expected_duration = 7 * 86400;
               actual_duration = cf_valid_before (cv cert) - cf_valid_after (cv cert)
           in assert_that (actual_duration = expected_duration)))))))))"

text \<open>The first two fields of an OpenSSH key, joined by a blank.\<close>

definition two_fields :: "string \<Rightarrow> string outcome" where
  "two_fields s =
     (case split_whitespace s of
        a # d # _ \<Rightarrow> Ok (a @ '' '' @ d)
      | _ \<Rightarrow> Panic ''index out of bounds'')"

definition test_check_public_key_found ::
  "('pk, 'kd, 'sk, 'b, 'c) ca_env \<Rightarrow> fs \<Rightarrow> string list \<Rightarrow> bytes \<Rightarrow> 'pk \<Rightarrow> unit outcome" where
  "test_check_public_key_found env fs base ca_key_openssh host_public_key =
     (let base_path = abs_path base
      in and_then (write_all fs [(path_push base_path ''ca_key'', ca_key_openssh)]) (\<lambda>fs.
         let inventory = path_push base_path ''hosts''
         in and_then (must (io_result (create_dir fs inventory))) (\<lambda>fs.
            and_then (must (foreign (pk_to_openssh (crate env) host_public_key))) (\<lambda>host_public_key_str.
            and_then (write_all fs
              [(path_push inventory ''myserver.toml'', entry_text host_public_key_str ''myserver.example.com'')]) (\<lambda>fs.
            and_then (must (ca_new env fs (test_config base_path))) (\<lambda>auth.
            and_then (two_fields host_public_key_str) (\<lambda>search_key.
            and_then (check_public_key env fs auth search_key) (\<lambda>result.
              assert_that (result = Some ''myserver'')))))))))"

definition test_check_public_key_not_found ::
  "('pk, 'kd, 'sk, 'b, 'c) ca_env \<Rightarrow> fs \<Rightarrow> string list \<Rightarrow> bytes \<Rightarrow> 'pk \<Rightarrow> unit outcome" where
  "test_check_public_key_not_found env fs base ca_key_openssh unknown_key =
     (let base_path = abs_path base
      in and_then (write_all fs [(path_push base_path ''ca_key'', ca_key_openssh)]) (\<lambda>fs.
         let inventory = path_push base_path ''hosts''
         in and_then (must (io_result (create_dir fs inventory))) (\<lambda>fs.
            and_then (must (ca_new env fs (test_config base_path))) (\<lambda>auth.
            and_then (must (foreign (pk_to_openssh (crate env) unknown_key))) (\<lambda>unknown_public_key_str.
            and_then (two_fields unknown_public_key_str) (\<lambda>search_key.
            and_then (check_public_key env fs auth search_key) (\<lambda>result.
              assert_that (result = None))))))))"

section \<open>ca_server.rs\<close>

definition create_test_ca_server ::
  "('pk, 'kd, 'sk, 'b, 'c) ca_env \<Rightarrow> fs \<Rightarrow> string list \<Rightarrow> bytes \<Rightarrow> (fs \<times> 'sk server) outcome" where
  "create_test_ca_server env fs base ca_key_openssh =
     (let base_path = abs_path base;
          user_list = unlines [[], ''[users]'']; user_template = template_text 1 [user_tag] [''permit-pty'']
      in and_then (write_all fs
           [(path_push base_path ''ca_key'', ca_key_openssh),
            (path_push base_path ''user.toml'', user_list),
            (path_push base_path ''user_default.toml'', user_template)]) (\<lambda>fs.
         let inventory = path_push base_path ''hosts''
         in and_then (must (io_result (create_dir fs inventory))) (\<lambda>fs.
            and_then (must (ca_new env fs (test_config base_path))) (\<lambda>auth.
              if \<not> valid_utf8 (path_push base_path ''ca.sock'') then Panic unwrap_none
              else Ok (fs, server_new (path_push base_path ''ca.sock'') auth ''test-token-12345'')))))"

text \<open>What two tests ask of the certificate in a response.\<close>

definition assert_certificate ::
  "('pk, 'kd, 'sk, 'b, 'c) ca_env \<Rightarrow> ('c \<Rightarrow> 'kd cert_fields) \<Rightarrow> 'pk \<Rightarrow> string \<Rightarrow> error + 'c ca_response \<Rightarrow> unit outcome"
where
  "assert_certificate env cv public_key start response =
     and_then (assert_that (is_ok response)) (\<lambda>_.
     and_then (unwrap response) (\<lambda>r. case r of
         SignedCertificate cert \<Rightarrow>
           and_then (assert_that (cf_public_key (cv cert) = pk_key_data (crate env) public_key)) (\<lambda>_.
             assert_that (prefix start (cf_key_id (cv cert))))
       | _ \<Rightarrow> Panic ''Expected SignedCertificate response''))"

definition test_handle_request_sign_certificate ::
  "('pk, 'kd, 'sk, 'b, 'c) ca_env \<Rightarrow> ('c \<Rightarrow> 'kd cert_fields) \<Rightarrow> fs \<Rightarrow> readings \<Rightarrow> string list \<Rightarrow> bytes \<Rightarrow> 'pk
    \<Rightarrow> unit outcome"
where
  "test_handle_request_sign_certificate env cv fs rd base ca_key_openssh user_public_key =
     and_then (create_test_ca_server env fs base ca_key_openssh) (\<lambda>(fs, server).
     and_then (attempt (handle_request env fs (srv_ca server) rd (SignCertificate ''testuser'' user_public_key)))
       (assert_certificate env cv user_public_key ''user-testuser-''))"

definition test_handle_request_check_public_key ::
  "('pk, 'kd, 'sk, 'b, 'c) ca_env \<Rightarrow> fs \<Rightarrow> readings \<Rightarrow> string list \<Rightarrow> bytes \<Rightarrow> 'pk \<Rightarrow> unit outcome" where
  "test_handle_request_check_public_key env fs rd base ca_key_openssh test_public_key =
     and_then (create_test_ca_server env fs base ca_key_openssh) (\<lambda>(fs, server).
     and_then (attempt (handle_request env fs (srv_ca server) rd (CheckPublicKey test_public_key))) (\<lambda>response.
     and_then (assert_that (is_ok response)) (\<lambda>_.
     and_then (unwrap response) (\<lambda>r. case r of
         KeyFound None \<Rightarrow> Ok ()
       | _ \<Rightarrow> Panic ''Expected KeyFound(None) response''))))"

text \<open>Two tests write an entry for \<open>testhost\<close> and ask for its certificate with some key.\<close>

definition ask_testhost ::
  "('pk, 'kd, 'sk, 'b, 'c) ca_env \<Rightarrow> fs \<Rightarrow> readings \<Rightarrow> string list \<Rightarrow> bytes \<Rightarrow> 'pk \<Rightarrow> 'pk
    \<Rightarrow> (error + 'c ca_response) outcome"
where
  "ask_testhost env fs rd base ca_key_openssh config_key public_key =
     and_then (create_test_ca_server env fs base ca_key_openssh) (\<lambda>(fs, server).
     and_then (must (foreign (pk_to_openssh (crate env) config_key))) (\<lambda>config_public_key_str.
     and_then (write_all fs
       [(path_push (path_push (abs_path base) ''hosts'') ''testhost.toml'',
         entry_text config_public_key_str ''testhost.example.com'')]) (\<lambda>fs.
       attempt (handle_request env fs (srv_ca server) rd (SignHostCertificate ''testhost'' public_key)))))"

definition test_handle_request_sign_host_certificate ::
  "('pk, 'kd, 'sk, 'b, 'c) ca_env \<Rightarrow> ('c \<Rightarrow> 'kd cert_fields) \<Rightarrow> fs \<Rightarrow> readings \<Rightarrow> string list \<Rightarrow> bytes \<Rightarrow> 'pk
    \<Rightarrow> unit outcome"
where
  "test_handle_request_sign_host_certificate env cv fs rd base ca_key_openssh host_public_key =
     and_then (ask_testhost env fs rd base ca_key_openssh host_public_key host_public_key)
       (assert_certificate env cv host_public_key ''host-testhost-'')"

definition test_handle_request_sign_host_certificate_wrong_key ::
  "('pk, 'kd, 'sk, 'b, 'c) ca_env \<Rightarrow> fs \<Rightarrow> readings \<Rightarrow> string list \<Rightarrow> bytes \<Rightarrow> 'pk \<Rightarrow> 'pk \<Rightarrow> unit outcome" where
  "test_handle_request_sign_host_certificate_wrong_key env fs rd base ca_key_openssh config_key different_key =
     and_then (ask_testhost env fs rd base ca_key_openssh config_key different_key) (\<lambda>response.
     and_then (assert_that (isl response)) (\<lambda>_.
     and_then (unwrap_err response) (\<lambda>e.
       assert_that (contains_str (error_display e) ''wrong public key''))))"

section \<open>What the tests need of the crates\<close>

text \<open>
  A builder on which every field is set once, with a window that does not end before it
  begins and lies in the range of \<open>UnixTime\<close>, with principals and without repeated
  extensions, accepts every setter and signs.
\<close>

primrec add_each :: "('pk, 'kd, 'sk, 'b, 'c) ssh_key_crate \<Rightarrow> string list \<Rightarrow> 'b \<Rightarrow> 'b \<Rightarrow> bool" where
  "add_each K [] b b' \<longleftrightarrow> b' = b"
| "add_each K (e # es) b b' \<longleftrightarrow> (\<exists>b1. cb_extension K e [] b = Inr b1 \<and> add_each K es b1 b')"

definition builder_completes :: "('pk, 'kd, 'sk, 'b, 'c) ssh_key_crate \<Rightarrow> bool" where
  "builder_completes K \<longleftrightarrow>
     (\<forall>p b. p \<noteq> [] \<longrightarrow> fst (cb_valid_principal K p b) = None)
     \<and> (\<forall>sk n pk a z s i ty ps t es. a \<le> z \<and> unat z < 2 ^ 63 \<and> i \<noteq> [] \<and> ps \<noteq> [] \<and> [] \<notin> set ps \<and> distinct es \<longrightarrow>
          (\<exists>b0 b1 b2 b3 b4 b5 c. cb_new_with_random_nonce K n pk a z = Inr b0 \<and> cb_serial K s b0 = Inr b1
             \<and> cb_key_id K i b1 = Inr b2 \<and> cb_cert_type K ty b2 = Inr b3
             \<and> cb_comment K t (fold (\<lambda>p b. snd (cb_valid_principal K p b)) ps b3) = Inr b4
             \<and> add_each K es b4 b5 \<and> cb_sign K sk b5 = Inr c))"

definition test_clock :: "readings \<Rightarrow> bool" where
  "test_clock rd \<longleftrightarrow> 0 \<le> clock_after rd \<and> clock_after rd \<le> clock_before rd
     \<and> clock_before rd div 1000000000 < 2 ^ 62"

lemma add_principals_fold:
  "add_principals K ps b = fold (\<lambda>p b. snd (cb_valid_principal K p b)) ps b"
  by (induction ps arbitrary: b) simp_all

lemma add_extensions_each: "add_each K es b b' \<Longrightarrow> add_extensions K es b = Ok b'"
  by (induction es arbitrary: b) auto

lemma builder_completesD:
  assumes "builder_completes K"
    and "a \<le> z" and "unat z < 2 ^ 63" and "i \<noteq> []" and "ps \<noteq> []" and "[] \<notin> set ps" and "distinct es"
  shows "\<exists>b0 b1 b2 b3 b4 b5 c. cb_new_with_random_nonce K n pk a z = Inr b0 \<and> cb_serial K s b0 = Inr b1
    \<and> cb_key_id K i b1 = Inr b2 \<and> cb_cert_type K ty b2 = Inr b3
    \<and> cb_comment K t (add_principals K ps b3) = Inr b4 \<and> add_each K es b4 b5 \<and> cb_sign K sk b5 = Inr c"
  unfolding add_principals_fold
  by (rule assms(1) [unfolded builder_completes_def, THEN conjunct2, rule_format]) (use assms in simp)

lemma builds:
  assumes "builder_completes K" and "test_clock rd" and "ps \<noteq> []" and "[] \<notin> set ps" and "distinct es"
  shows "\<exists>c. build_certificate K sk rd pre ty name days ps es pk = Ok c"
proof -
  let ?a = "word_of_int (clock_after rd div 1000000000) :: u64"
  let ?n = "word_of_int (clock_before rd div 1000000000) :: u64"
  let ?z = "?n + ucast days * 86400"
  have r: "clock_range (clock_after rd)" "clock_range (clock_before rd)"
    using assms(2) by (auto simp: test_clock_def clock_range_def intro: order.strict_trans1 [OF zdiv_mono1])
  have un: "unat ?n = nat (clock_before rd div 1000000000)" and ua: "unat ?a = nat (clock_after rd div 1000000000)"
    using unix_secs_range(2) [OF r(2)] unix_secs_range(2) [OF r(1)] .
  have n: "unat ?n < 2 ^ 62"
    using assms(2) un by (auto simp: test_clock_def nat_less_iff)
  then have z: "unat ?z = unat ?n + unat days * 86400"
    by (intro lifetime_no_wrap) simp
  have d: "unat days < 2 ^ 16"
    using unsigned_less [of days] by simp
  have "unat ?a \<le> unat ?n"
    using assms(2) un ua by (simp add: test_clock_def nat_mono zdiv_mono1)
  then have az: "?a \<le> ?z" and zb: "unat ?z < 2 ^ 63"
    using z n d by (simp_all add: word_le_nat_alt)
  have ne: "pre @ ''-'' @ name @ ''-'' @ dec (unat ?a) \<noteq> []"
    by simp
  obtain b0 b1 b2 b3 b4 b5 c where
    "cb_new_with_random_nonce K (nonce rd) pk ?a ?z = Inr b0" "cb_serial K (serial_no rd) b0 = Inr b1"
    "cb_key_id K (pre @ ''-'' @ name @ ''-'' @ dec (unat ?a)) b1 = Inr b2" "cb_cert_type K ty b2 = Inr b3"
    "cb_comment K (pk_comment K pk) (add_principals K ps b3) = Inr b4"
    "add_each K es b4 b5" "cb_sign K sk b5 = Inr c"
    using builder_completesD [OF assms(1) az zb ne assms(3-5), where n = "nonce rd" and pk = pk
      and s = "serial_no rd" and ty = ty and t = "pk_comment K pk" and sk = sk] by blast
  moreover from this have "add_extensions K es b4 = Ok b5"
    by (intro add_extensions_each)
  ultimately show ?thesis
    using unix_secs_range(1) [OF r(1)] unix_secs_range(1) [OF r(2)]
    by (simp add: build_certificate_def Let_def)
qed

text \<open>The fields of a certificate, when no principal is refused.\<close>

lemma add_principals_all:
  assumes "builder_laws K bv cv" and "builder_completes K" and "[] \<notin> set ps"
  shows "cf_principals (bv (add_principals K ps b)) = cf_principals (bv b) @ ps"
  using assms(3)
proof (induction ps arbitrary: b)
  case (Cons p ps)
  have "p \<noteq> []" using Cons.prems by auto
  then have "fst (cb_valid_principal K p b) = None"
    using assms(2) unfolding builder_completes_def by blast
  then obtain b' where v: "cb_valid_principal K p b = (None, b')"
    by (metis prod.collapse)
  then have "bv b' = (bv b)\<lparr>cf_principals := cf_principals (bv b) @ [p]\<rparr>"
    using assms(1) by (simp add: builder_laws_def)
  with Cons v show ?case by simp
qed simp

lemma built_principals:
  assumes "builder_laws K bv cv" and "builder_completes K" and "[] \<notin> set ps"
    and "build_certificate K sk rd pre ty name days ps es pk = Ok c"
  shows "cf_principals (cv c) = ps"
proof -
  from assms(4) obtain a z b0 b1 b2 b3 b4 b5 i where
    s: "cb_new_with_random_nonce K (nonce rd) pk a z = Inr b0"
      "cb_serial K (serial_no rd) b0 = Inr b1" "cb_key_id K i b1 = Inr b2" "cb_cert_type K ty b2 = Inr b3"
      "cb_comment K (pk_comment K pk) (add_principals K ps b3) = Inr b4"
    and e: "add_extensions K es b4 = Ok b5" and c: "cb_sign K sk b5 = Inr c"
    by (auto simp: build_certificate_def Let_def outcome_intros)
  have "cf_principals (cv c) = cf_principals (bv b4)"
    using add_extensions_fields [OF assms(1) e] builder_lawsD(6) [OF assms(1) c] by simp
  also have "\<dots> = cf_principals (bv b3) @ ps"
    using builder_lawsD(5) [OF assms(1) s(5)] add_principals_all [OF assms(1-3)] by simp
  also have "cf_principals (bv b3) = []"
    using builder_lawsD(1) [OF assms(1) s(1)] builder_lawsD(2) [OF assms(1) s(2)]
      builder_lawsD(3) [OF assms(1) s(3)] builder_lawsD(4) [OF assms(1) s(4)] by simp
  finally show ?thesis by simp
qed

text \<open>Everything about a signature that the tests look at.\<close>

lemma signs_user:
  assumes "builder_laws (crate env) bv cv" and "builder_completes (crate env)" and "test_clock rd"
    and "read_user_defaults (users_toml env) (defaults_toml env) (render_template env) fs user (ca_config auth)
      = Ok \<lparr>ud_validity_in_days = days, ud_principals = ps, ud_extensions = es\<rparr>"
    and "ps \<noteq> []" and "[] \<notin> set ps" and "distinct es"
  shows "\<exists>c. sign_certificate env fs auth rd user pk = Ok c \<and> cf_principals (cv c) = ps
    \<and> issued (crate env) ''user'' UserCert rd user days ps es pk (cv c)"
proof -
  obtain c where c: "build_certificate (crate env) (private_key auth) rd ''user'' UserCert user days ps es pk = Ok c"
    using builds [OF assms(2,3,5-7)] by blast
  have "sign_certificate env fs auth rd user pk = Ok c"
    using assms(4) c by (simp add: sign_certificate_def)
  with build_certificate_issued [OF assms(1) c] built_principals [OF assms(1,2,6) c] show ?thesis by blast
qed

lemma unlisted_user:
  assumes "home fs base" and "holds fs base ''user.toml'' lt" and "holds fs base ''user_default.toml'' template"
    and "short_text lt" and "short_text template"
    and "ul_from_str lt = Inr \<lparr>users = Map.empty\<rparr>"
    and "renders engine ud_from_str user template d"
  shows "read_user_defaults ul_from_str ud_from_str engine fs user (test_config (abs_path base)) = Ok d"
  by (rule reads_default_template [where ul_from_str = ul_from_str and lt = lt, OF assms(1-6)])
    (use assms(7) in simp_all)

lemma ca_new_holds:
  assumes "home fs base" and "holds fs base ''ca_key'' key" and "sk_from_openssh (crate env) key = Inr sk"
  shows "ca_new env fs (test_config (abs_path base)) = Ok \<lparr>private_key = sk, ca_config = test_config (abs_path base)\<rparr>"
  using holds_read(1) [OF assms(1,2)] assms(3) home_names [OF assms(1)]
  by (simp add: ca_new_def test_config_def push_abs_path test_file_names)

text \<open>The directory with its three files, and the authority on it.\<close>

lemma authority_files:
  fixes lt template :: string
  assumes "temp_dir fs base" and "sk_from_openssh (crate env) key = Inr sk"
  defines "nbs \<equiv> [(''ca_key'', key), (''user.toml'', lt), (''user_default.toml'', template)]"
  shows "write_all fs [(path_push (abs_path base) ''ca_key'', key), (path_push (abs_path base) ''user.toml'', lt),
      (path_push (abs_path base) ''user_default.toml'', template)] = Ok (with_files fs base nbs)"
    and "ca_new env (with_files fs base nbs) (test_config (abs_path base))
      = Ok \<lparr>private_key = sk, ca_config = test_config (abs_path base)\<rparr>"
    and "home (with_files fs base nbs) base"
    and "holds (with_files fs base nbs) base ''ca_key'' key"
    and "holds (with_files fs base nbs) base ''user.toml'' lt"
    and "holds (with_files fs base nbs) base ''user_default.toml'' template"
proof -
  note hb = temp_dirD(1) [OF assms(1)]
  have new: "new_files fs base nbs"
    using assms(1) by (simp add: new_files_temp test_file_names nbs_def)
  show "write_all fs [(path_push (abs_path base) ''ca_key'', key), (path_push (abs_path base) ''user.toml'', lt),
      (path_push (abs_path base) ''user_default.toml'', template)] = Ok (with_files fs base nbs)"
    by (rule write_all_pushed [OF hb new]) (simp add: nbs_def)
  show home: "home (with_files fs base nbs) base"
    by (rule files_home [OF hb new])
  show k: "holds (with_files fs base nbs) base ''ca_key'' key" and "holds (with_files fs base nbs) base ''user.toml'' lt"
    and "holds (with_files fs base nbs) base ''user_default.toml'' template"
    using files_holds [OF new] by (simp_all add: nbs_def)
  show "ca_new env (with_files fs base nbs) (test_config (abs_path base))
      = Ok \<lparr>private_key = sk, ca_config = test_config (abs_path base)\<rparr>"
    using home k assms(2) by (rule ca_new_holds)
qed

lemma test_principals_passes:
  assumes "temp_dir fs base" and "sk_from_openssh (crate env) key = Inr sk"
    and "builder_laws (crate env) bv cv" and "builder_completes (crate env)" and "test_clock rd"
    and "users_toml env ''[users]'' = Inr \<lparr>users = Map.empty\<rparr>"
    and "renders (render_template env) (defaults_toml env) ''testuser''
      (template_text 1 [user_tag, ''admin''] [''permit-pty'', ''permit-port-forwarding''])
      \<lparr>ud_validity_in_days = 1, ud_principals = [''testuser'', ''admin''],
        ud_extensions = [''permit-pty'', ''permit-port-forwarding'']\<rparr>"
  shows "test_sign_certificate_principals env cv fs rd base key pk = Ok ()"
proof -
  let ?t = "template_text 1 [user_tag, ''admin''] [''permit-pty'', ''permit-port-forwarding'']"
  let ?auth = "\<lparr>private_key = sk, ca_config = test_config (abs_path base)\<rparr>"
  let ?fs = "with_files fs base [(''ca_key'', key), (''user.toml'', ''[users]''), (''user_default.toml'', ?t)]"
  note ready = authority_files [OF assms(1,2)]
  have "short_text ?t"
    by (simp add: short_text_def template_text_def unlines_def quoted_def user_tag_def is_ascii_def
        dec.simps digit_char_def)
  then have "read_user_defaults (users_toml env) (defaults_toml env) (render_template env) ?fs ''testuser'' (ca_config ?auth)
      = Ok \<lparr>ud_validity_in_days = 1, ud_principals = [''testuser'', ''admin''],
          ud_extensions = [''permit-pty'', ''permit-port-forwarding'']\<rparr>"
    unfolding authority.simps
    by (rule unlisted_user [OF ready(3,5,6) short_texts(6)]) (rule assms(6,7))+
  from signs_user [OF assms(3-5) this, where pk = pk] obtain c
    where c: "sign_certificate env ?fs ?auth rd ''testuser'' pk = Ok c" "cf_principals (cv c) = [''testuser'', ''admin'']"
      "issued (crate env) ''user'' UserCert rd ''testuser'' 1 [''testuser'', ''admin'']
        [''permit-pty'', ''permit-port-forwarding''] pk (cv c)"
    by auto
  then show ?thesis
    using ready(1,2) [of "''[users]''" ?t]
    by (auto simp: test_sign_certificate_principals_def Let_def must_Ok assert_that_True issued_def)
qed

text \<open>
  The test of the validity passes exactly when the clock does not move to another second
  between the two readings that \<open>sign_certificate\<close> takes: the certificate's end is counted
  from the second one.
\<close>

lemma secs_word_le:
  assumes "clock_range a" and "clock_range b"
  shows "(word_of_int (a div 1000000000) :: u64) \<le> word_of_int (b div 1000000000) \<longleftrightarrow> a div 1000000000 \<le> b div 1000000000"
  using unix_secs_range(2) [OF assms(1)] unix_secs_range(2) [OF assms(2)] assms
  by (auto simp: word_le_nat_alt clock_range_def nat_le_eq_zle pos_imp_zdiv_nonneg_iff)

lemma test_validity_iff:
  assumes "temp_dir fs base" and "sk_from_openssh (crate env) key = Inr sk"
    and "builder_laws (crate env) bv cv" and "builder_completes (crate env)" and "test_clock rd"
    and "0 \<le> before_ns" and "before_ns \<le> clock_after rd" and "clock_before rd \<le> after_ns" and "clock_range after_ns"
    and "users_toml env ''[users]'' = Inr \<lparr>users = Map.empty\<rparr>"
    and "renders (render_template env) (defaults_toml env) ''testuser'' (template_text 7 [user_tag] [])
      \<lparr>ud_validity_in_days = 7, ud_principals = [''testuser''], ud_extensions = []\<rparr>"
  shows "test_sign_certificate_validity env cv fs before_ns rd after_ns base key pk
    = (if clock_after rd div 1000000000 = clock_before rd div 1000000000 then Ok ()
       else Panic ''assertion failed'')"
proof -
  let ?t = "template_text 7 [user_tag] []"
  let ?auth = "\<lparr>private_key = sk, ca_config = test_config (abs_path base)\<rparr>"
  let ?fs = "with_files fs base [(''ca_key'', key), (''user.toml'', ''[users]''), (''user_default.toml'', ?t)]"
  let ?s = "\<lambda>ns. word_of_int (ns div 1000000000) :: u64"
  note ready = authority_files [OF assms(1,2)]
  have r: "clock_range before_ns" "clock_range (clock_after rd)" "clock_range (clock_before rd)"
    using assms(5-9) by (auto simp: test_clock_def clock_range_def intro: order.strict_trans1 [OF zdiv_mono1])
  have "short_text ?t"
    by (simp add: short_text_def template_text_def unlines_def quoted_def user_tag_def is_ascii_def
        dec.simps digit_char_def)
  then have "read_user_defaults (users_toml env) (defaults_toml env) (render_template env) ?fs ''testuser'' (ca_config ?auth)
      = Ok \<lparr>ud_validity_in_days = 7, ud_principals = [''testuser''], ud_extensions = []\<rparr>"
    unfolding authority.simps
    by (rule unlisted_user [OF ready(3,5,6) short_texts(6)]) (rule assms(10,11))+
  from signs_user [OF assms(3-5) this, where pk = pk] obtain c
    where c: "sign_certificate env ?fs ?auth rd ''testuser'' pk = Ok c"
      "issued (crate env) ''user'' UserCert rd ''testuser'' 7 [''testuser''] [] pk (cv c)"
    by auto
  then have va: "cf_valid_after (cv c) = ?s (clock_after rd)"
    and vb: "cf_valid_before (cv c) = ?s (clock_before rd) + 7 * 86400"
    using unix_secs_range(1) [OF r(2)] unix_secs_range(1) [OF r(3)] by (auto simp: issued_def)
  have le: "?s before_ns \<le> ?s (clock_after rd)" "?s (clock_after rd) \<le> ?s after_ns"
    using assms(5,7,8) r assms(9) by (auto simp: secs_word_le zdiv_mono1 test_clock_def)
  have eq: "cf_valid_before (cv c) - cf_valid_after (cv c) = 7 * 86400
      \<longleftrightarrow> clock_after rd div 1000000000 = clock_before rd div 1000000000"
  proof -
    have "cf_valid_before (cv c) - cf_valid_after (cv c) = 7 * 86400 \<longleftrightarrow> ?s (clock_before rd) = ?s (clock_after rd)"
      unfolding va vb by (auto simp: algebra_simps)
    also have "\<dots> \<longleftrightarrow> clock_before rd div 1000000000 = clock_after rd div 1000000000"
      using secs_word_le [OF r(3,2)] secs_word_le [OF r(2,3)] by (auto simp: order_eq_iff)
    finally show ?thesis by auto
  qed
  show ?thesis
    using ready(1,2) [of "''[users]''" ?t] c(1) le va eq
      unix_secs_range(1) [OF r(1)] unix_secs_range(1) [OF assms(9)]
    by (simp add: test_sign_certificate_validity_def Let_def must_Ok assert_that_def)
qed

lemma sign_certificate_test_passes:
  assumes "repository_config fs list template"
    and "users_toml env list = Inr ul" and "users ul ''test'' = Some ''./test_user_template.toml''"
    and "renders (render_template env) (defaults_toml env) ''test'' template
      \<lparr>ud_validity_in_days = days, ud_principals = ps, ud_extensions = es\<rparr>"
    and "builder_laws (crate env) bv cv" and "builder_completes (crate env)" and "test_clock rd"
    and "ps \<noteq> []" and "[] \<notin> set ps" and "distinct es"
  shows "sign_certificate_test env fs rd key key_path pk = Ok ()"
proof -
  let ?cfg = "\<lparr>user_list_file = ''./config/user.toml'', default_user_template = ''./config/user_default.toml'',
    host_inventory = ''./config/hosts/'', ca_key = key_path\<rparr>"
  let ?auth = "\<lparr>private_key = key, ca_config = ?cfg\<rparr>"
  have "read_user_defaults (users_toml env) (defaults_toml env) (render_template env) fs ''test'' (ca_config ?auth)
      = Ok \<lparr>ud_validity_in_days = days, ud_principals = ps, ud_extensions = es\<rparr>"
    unfolding authority.simps by (rule repository_defaults [where ul_from_str = "users_toml env", OF assms(1) _ assms(2-4)]) simp
  from signs_user [OF assms(5-7) this assms(8-10), where pk = pk] show ?thesis
    by (auto simp: sign_certificate_test_def must_Ok)
qed

text \<open>An inventory directory and one entry in it.\<close>

lemma inventory_made:
  assumes "home fs base" and "fs_access fs (base @ [''hosts''])" and "fs_nodes fs (base @ [''hosts'']) = None"
  shows "create_dir fs (path_push (abs_path base) ''hosts'') = Inr (put fs (base @ [''hosts'']) Dir)"
    and "home (put fs (base @ [''hosts'']) Dir) base"
    and "home (put fs (base @ [''hosts'']) Dir) (base @ [''hosts''])"
  using create_entry_new [OF assms(1) test_file_names(13) assms(3)] push_home [OF assms(1) test_file_names(13)]
    home_put [OF assms(1)] home_put_dir [OF assms(1) test_file_names(13) assms(2,3)] assms(3)
  by (simp_all add: create_dir_def)

lemma inventory_ready:
  fixes nbs :: "(string \<times> bytes) list"
  assumes "temp_dir fs base" and "new_files fs base nbs" and "''hosts'' \<notin> set (map fst nbs)"
  defines "fs' \<equiv> put (with_files fs base nbs) (base @ [''hosts'']) Dir"
  shows "create_dir (with_files fs base nbs) (path_push (abs_path base) ''hosts'') = Inr fs'"
    and "home fs' base" and "home fs' (base @ [''hosts''])"
    and "(n, b) \<in> set nbs \<Longrightarrow> holds fs' base n b"
    and "fs_nodes fs' (base @ [''hosts'', m]) = None" and "fs_access fs' (base @ [''hosts'', m])"
proof -
  note free = temp_dirD(3,2) [OF assms(1)]
  have none: "fs_nodes (with_files fs base nbs) (base @ [''hosts'']) = None"
    using free assms(3) by (subst files_node(1)) auto
  have acc: "fs_access (with_files fs base nbs) (base @ [''hosts''])"
    using free by (simp add: files_node(2))
  note i = inventory_made [OF files_home [OF temp_dirD(1) [OF assms(1)] assms(2)] acc none, folded fs'_def]
  show "create_dir (with_files fs base nbs) (path_push (abs_path base) ''hosts'') = Inr fs'"
    and "home fs' base" and "home fs' (base @ [''hosts''])"
    by (fact i)+
  show "holds fs' base n b" if "(n, b) \<in> set nbs"
    unfolding fs'_def
    by (rule holds_put [OF files_holds [OF assms(2) that]]) (use assms(3) that in force)
  have "fs_nodes (with_files fs base nbs) (base @ [''hosts'', m]) = None"
    using free by (subst files_node(1)) auto
  then show "fs_nodes fs' (base @ [''hosts'', m]) = None" and "fs_access fs' (base @ [''hosts'', m])"
    using free by (simp_all add: fs'_def files_node(2))
qed

lemma entry_made:
  fixes t :: bytes
  assumes "home fs base" and "home fs (base @ [''hosts''])" and "proper_name n"
    and "fs_access fs (base @ [''hosts'', n])" and "fs_nodes fs (base @ [''hosts'', n]) = None"
  defines "fs' \<equiv> put fs (base @ [''hosts'', n]) (File t)"
  shows "write_all fs [(path_push (path_push (abs_path base) ''hosts'') n, t)] = Ok fs'"
    and "home fs' base" and "home fs' (base @ [''hosts''])" and "holds fs' (base @ [''hosts'']) n t"
proof -
  have "write_file fs (abs_path ((base @ [''hosts'']) @ [n])) t = Inr (put fs ((base @ [''hosts'']) @ [n]) (File t))"
    using assms(2-5) by (intro write_entry) simp_all
  then show "write_all fs [(path_push (path_push (abs_path base) ''hosts'') n, t)] = Ok fs'"
    using push_home [OF assms(1) test_file_names(13)] push_home [OF assms(2,3)] by (simp add: fs'_def must_Ok)
  show "home fs' base" and "home fs' (base @ [''hosts''])" and "holds fs' (base @ [''hosts'']) n t"
    using home_put [OF assms(1)] home_put [OF assms(2)] assms(4,5) by (simp_all add: fs'_def holds_def)
qed

text \<open>The test of a known key; \<open>search\<close> is the key without its comment.\<close>

lemma test_found_passes:
  assumes "temp_dir fs base" and "valid_utf8 (abs_path base)" and "sk_from_openssh (crate env) key = Inr sk"
    and "pk_to_openssh (crate env) pk = Inr s" and "valid_utf8 s" and "two_fields s = Ok search"
    and "reads_entry (hosts_toml env) s ''myserver.example.com''"
    and "globs_to (glob env) (base @ [''hosts'']) [''myserver.toml'']"
    and "pk_from_openssh (crate env) s = Inr k" and "pk_from_openssh (crate env) search = Inr k'"
    and "pk_key_data (crate env) k = pk_key_data (crate env) k'"
  shows "test_check_public_key_found env fs base key pk = Ok ()"
proof -
  let ?t = "entry_text s ''myserver.example.com''" and ?cfg = "test_config (abs_path base)"
  let ?hc = "\<lparr>hc_public_key = s, hc_validity_in_days = 30, hc_hostnames = [''myserver.example.com''], hc_extensions = []\<rparr>"
  let ?fs1 = "with_files fs base [(''ca_key'', key)]"
  let ?fs2 = "put ?fs1 (base @ [''hosts'']) Dir"
  let ?fs3 = "put ?fs2 (base @ [''hosts'', ''myserver.toml'']) (File ?t)"
  note hb = temp_dirD(1) [OF assms(1)] and names = home_names [OF temp_dirD(1) [OF assms(1)]]
  have new: "new_files fs base [(''ca_key'', key)]"
    using assms(1) by (simp add: new_files_temp test_file_names)
  note i = inventory_ready [OF assms(1) new]
  have e: "write_all ?fs2 [(path_push (path_push (abs_path base) ''hosts'') ''myserver.toml'', ?t)] = Ok ?fs3"
      "home ?fs3 base" "home ?fs3 (base @ [''hosts''])" "holds ?fs3 (base @ [''hosts'']) ''myserver.toml'' ?t"
    using entry_made [OF i(2,3) test_file_names(14) i(6,5)] by simp_all
  have k: "holds ?fs3 base ''ca_key'' key"
    using i(4) by (simp add: holds_put)
  have inv: "host_inventory ?cfg = abs_path (base @ [''hosts''])"
    using names by (simp add: test_config_def push_abs_path test_file_names)
  have u: "valid_utf8 (abs_path (base @ [''hosts'']))" "valid_utf8 ?t" "valid_utf8 ''myserver''"
    using names assms(2,5)
    by (simp_all add: valid_utf8_abs_push test_file_names entry_text_valid ascii_valid is_ascii_def)
  have "find_config_by_public_key (crate env) (hosts_toml env) (glob env) (debug_on env) ?fs3 search ?cfg = Ok
    (case pk_from_openssh (crate env) search of Inl _ \<Rightarrow> None | Inr k \<Rightarrow>
       (case pk_from_openssh (crate env) (hc_public_key ?hc) of Inl _ \<Rightarrow> None | Inr k' \<Rightarrow>
          if pk_key_data (crate env) k' = pk_key_data (crate env) k then Some (''myserver'', ?hc) else None))"
    by (rule find_one [OF e(3) u(1)])
      (use e(4) u inv assms(7,8) in \<open>simp_all add: holds_def reads_entry_def test_file_names\<close>)
  then have "find_config_by_public_key (crate env) (hosts_toml env) (glob env) (debug_on env) ?fs3 search ?cfg
      = Ok (Some (''myserver'', ?hc))"
    using assms(9-11) by simp
  then have "check_public_key env ?fs3 \<lparr>private_key = sk, ca_config = ?cfg\<rparr> search = Ok (Some ''myserver'')"
    by (simp add: check_public_key_def)
  with i(1) e(1) ca_new_holds [where env = env, OF e(2) k assms(3)] assms(4,6) write_all_pushed [OF hb new refl]
  show ?thesis
    by (simp add: test_check_public_key_found_def Let_def must_Ok assert_that_True
        del: with_files.simps write_all.simps)
qed

lemma test_not_found_passes:
  assumes "temp_dir fs base" and "valid_utf8 (abs_path base)" and "sk_from_openssh (crate env) key = Inr sk"
    and "pk_to_openssh (crate env) pk = Inr s" and "two_fields s = Ok search"
    and "globs_to (glob env) (base @ [''hosts'']) []"
  shows "test_check_public_key_not_found env fs base key pk = Ok ()"
proof -
  let ?cfg = "test_config (abs_path base)"
  let ?fs1 = "with_files fs base [(''ca_key'', key)]"
  let ?fs2 = "put ?fs1 (base @ [''hosts'']) Dir"
  note hb = temp_dirD(1) [OF assms(1)] and names = home_names [OF temp_dirD(1) [OF assms(1)]]
  have new: "new_files fs base [(''ca_key'', key)]"
    using assms(1) by (simp add: new_files_temp test_file_names)
  note i = inventory_ready [OF assms(1) new]
  have k: "holds ?fs2 base ''ca_key'' key"
    using i(4) by simp
  have "find_config_by_public_key (crate env) (hosts_toml env) (glob env) (debug_on env) ?fs2 search ?cfg = Ok None"
    by (rule find_none [OF i(3) _ _ assms(6)])
      (use names assms(2) in \<open>simp_all add: valid_utf8_abs_push test_config_def push_abs_path test_file_names
        ascii_valid is_ascii_def\<close>)
  then have "check_public_key env ?fs2 \<lparr>private_key = sk, ca_config = ?cfg\<rparr> search = Ok None"
    by (simp add: check_public_key_def)
  with i(1) ca_new_holds [where env = env, OF i(2) k assms(3)] assms(4,5) write_all_pushed [OF hb new refl]
  show ?thesis
    by (simp add: test_check_public_key_not_found_def Let_def must_Ok assert_that_True
        del: with_files.simps write_all.simps)
qed

subsection \<open>The test server\<close>

lemma test_server_ready:
  assumes "temp_dir fs base" and "valid_utf8 (abs_path base)" and "sk_from_openssh (crate env) key = Inr sk"
  defines "nbs \<equiv> [(''ca_key'', key), (''user.toml'', unlines [[], ''[users]'']),
      (''user_default.toml'', template_text 1 [user_tag] [''permit-pty''])]"
  defines "fs' \<equiv> put (with_files fs base nbs) (base @ [''hosts'']) Dir"
  shows "create_test_ca_server env fs base key
      = Ok (fs', server_new (path_push (abs_path base) ''ca.sock'')
          \<lparr>private_key = sk, ca_config = test_config (abs_path base)\<rparr> ''test-token-12345'')"
    and "home fs' base" and "home fs' (base @ [''hosts''])"
    and "holds fs' base ''user.toml'' (unlines [[], ''[users]''])"
    and "holds fs' base ''user_default.toml'' (template_text 1 [user_tag] [''permit-pty''])"
    and "fs_nodes fs' (base @ [''hosts'', n]) = None" and "fs_access fs' (base @ [''hosts'', n])"
    and "valid_utf8 (abs_path (base @ [''hosts'']))"
    and "host_inventory (test_config (abs_path base)) = abs_path (base @ [''hosts''])"
proof -
  note hb = temp_dirD(1) [OF assms(1)] and names = home_names [OF temp_dirD(1) [OF assms(1)]]
  have new: "new_files fs base nbs"
    using assms(1) by (simp add: new_files_temp test_file_names nbs_def)
  have "''hosts'' \<notin> set (map fst nbs)"
    by (simp add: nbs_def)
  note i = inventory_ready [OF assms(1) new this, folded fs'_def]
  show "home fs' base" and "home fs' (base @ [''hosts''])"
    and "holds fs' base ''user.toml'' (unlines [[], ''[users]''])"
    and "holds fs' base ''user_default.toml'' (template_text 1 [user_tag] [''permit-pty''])"
    and "fs_nodes fs' (base @ [''hosts'', n]) = None" and "fs_access fs' (base @ [''hosts'', n])"
    using i by (simp_all add: nbs_def)
  have k: "holds fs' base ''ca_key'' key"
    using i(4) by (simp add: nbs_def)
  show "valid_utf8 (abs_path (base @ [''hosts'']))"
    and "host_inventory (test_config (abs_path base)) = abs_path (base @ [''hosts''])"
    using names assms(2) by (simp_all add: valid_utf8_abs_push test_config_def push_abs_path test_file_names
        ascii_valid is_ascii_def)
  have "valid_utf8 (path_push (abs_path base) ''ca.sock'')"
    using assms(2) by (intro valid_utf8_path_push) (simp_all add: ascii_valid is_ascii_def)
  then show "create_test_ca_server env fs base key
      = Ok (fs', server_new (path_push (abs_path base) ''ca.sock'')
          \<lparr>private_key = sk, ca_config = test_config (abs_path base)\<rparr> ''test-token-12345'')"
    using authority_files(1) [where lt = "unlines [[], ''[users]'']" and env = env
        and template = "template_text 1 [user_tag] [''permit-pty'']", OF assms(1,3), folded nbs_def] i(1) ca_new_holds [where env = env, OF i(2) k assms(3)]
    by (simp add: create_test_ca_server_def Let_def must_Ok del: write_all.simps)
qed

lemma short_user_list: "short_text (unlines [[], ''[users]''])"
  by (simp add: short_text_def unlines_def is_ascii_def)

lemma test_server_user_passes:
  assumes "temp_dir fs base" and "valid_utf8 (abs_path base)" and "sk_from_openssh (crate env) key = Inr sk"
    and "builder_laws (crate env) bv cv" and "builder_completes (crate env)" and "test_clock rd"
    and "users_toml env (unlines [[], ''[users]'']) = Inr \<lparr>users = Map.empty\<rparr>"
    and "renders (render_template env) (defaults_toml env) ''testuser'' (template_text 1 [user_tag] [''permit-pty''])
      \<lparr>ud_validity_in_days = 1, ud_principals = [''testuser''], ud_extensions = [''permit-pty'']\<rparr>"
  shows "test_handle_request_sign_certificate env cv fs rd base key pk = Ok ()"
proof -
  note srv = test_server_ready [where env = env, OF assms(1-3)]
  let ?auth = "\<lparr>private_key = sk, ca_config = test_config (abs_path base)\<rparr>"
  let ?fs = "put (with_files fs base [(''ca_key'', key), (''user.toml'', unlines [[], ''[users]'']),
      (''user_default.toml'', template_text 1 [user_tag] [''permit-pty''])]) (base @ [''hosts'']) Dir"
  have "read_user_defaults (users_toml env) (defaults_toml env) (render_template env) ?fs ''testuser'' (ca_config ?auth)
      = Ok \<lparr>ud_validity_in_days = 1, ud_principals = [''testuser''], ud_extensions = [''permit-pty'']\<rparr>"
    unfolding authority.simps
    by (rule unlisted_user [OF srv(2,4,5) short_user_list short_texts(3)]) (rule assms(7,8))+
  from signs_user [OF assms(4-6) this, where pk = pk] obtain c
    where "sign_certificate env ?fs ?auth rd ''testuser'' pk = Ok c"
      "issued (crate env) ''user'' UserCert rd ''testuser'' 1 [''testuser''] [''permit-pty''] pk (cv c)"
    by auto
  then show ?thesis
    using srv(1) by (auto simp: test_handle_request_sign_certificate_def server_new_def assert_certificate_def
        is_ok_simps assert_that_True issued_def)
qed

lemma test_server_check_passes:
  assumes "temp_dir fs base" and "valid_utf8 (abs_path base)" and "sk_from_openssh (crate env) key = Inr sk"
    and "pk_to_openssh (crate env) pk = Inr s" and "globs_to (glob env) (base @ [''hosts'']) []"
  shows "test_handle_request_check_public_key env fs rd base key pk = Ok ()"
proof -
  note srv = test_server_ready [where env = env, OF assms(1-3)]
  show ?thesis
    using srv(1) assms(4) find_none [where K = "crate env", OF srv(3,8,9) assms(5)]
    by (simp add: test_handle_request_check_public_key_def server_new_def check_public_key_def
        is_ok_simps assert_that_True del: with_files.simps)
qed

text \<open>What \<open>ask_testhost\<close> comes down to.\<close>

lemma ask_testhost_reads:
  assumes "temp_dir fs base" and "valid_utf8 (abs_path base)" and "sk_from_openssh (crate env) key = Inr sk"
    and "pk_to_openssh (crate env) config_key = Inr s" and "valid_utf8 s"
    and "reads_entry (hosts_toml env) s ''testhost.example.com''"
  obtains fs' auth where "ask_testhost env fs rd base key config_key pk
      = attempt (handle_request env fs' auth rd (SignHostCertificate ''testhost'' pk))"
    and "read_host_config (hosts_toml env) fs' ''testhost'' (ca_config auth) = Ok \<lparr>hc_public_key = s,
      hc_validity_in_days = 30, hc_hostnames = [''testhost.example.com''], hc_extensions = []\<rparr>"
proof -
  let ?t = "entry_text s ''testhost.example.com''" and ?cfg = "test_config (abs_path base)"
  note srv = test_server_ready [where env = env, OF assms(1-3)]
  note e = entry_made [OF srv(2,3) test_file_names(15) srv(7,6), of ?t]
  show thesis
  proof (rule that)
    show "ask_testhost env fs rd base key config_key pk = attempt (handle_request env (put (put (with_files fs base
        [(''ca_key'', key), (''user.toml'', unlines [[], ''[users]'']),
         (''user_default.toml'', template_text 1 [user_tag] [''permit-pty''])]) (base @ [''hosts'']) Dir)
        (base @ [''hosts'', ''testhost.toml'']) (File ?t)) \<lparr>private_key = sk, ca_config = ?cfg\<rparr> rd
        (SignHostCertificate ''testhost'' pk))"
      using srv(1) e(1) assms(4)
      by (simp add: ask_testhost_def server_new_def must_Ok del: write_all.simps with_files.simps)
    show "read_host_config (hosts_toml env) (put (put (with_files fs base
        [(''ca_key'', key), (''user.toml'', unlines [[], ''[users]'']),
         (''user_default.toml'', template_text 1 [user_tag] [''permit-pty''])]) (base @ [''hosts'']) Dir)
        (base @ [''hosts'', ''testhost.toml'']) (File ?t)) ''testhost''
        (ca_config \<lparr>private_key = sk, ca_config = ?cfg\<rparr>) = Ok \<lparr>hc_public_key = s,
      hc_validity_in_days = 30, hc_hostnames = [''testhost.example.com''], hc_extensions = []\<rparr>"
      by (rule read_host_config_entry [OF e(3), where t = ?t])
        (use e(4) srv(9) assms(5,6) in \<open>simp_all add: reads_entry_def test_file_names entry_text_valid
          ascii_valid is_ascii_def del: with_files.simps\<close>)
  qed
qed

lemma test_server_host_passes:
  assumes "temp_dir fs base" and "valid_utf8 (abs_path base)" and "sk_from_openssh (crate env) key = Inr sk"
    and "pk_to_openssh (crate env) pk = Inr s" and "valid_utf8 s"
    and "reads_entry (hosts_toml env) s ''testhost.example.com''"
    and "builder_laws (crate env) bv cv" and "builder_completes (crate env)" and "test_clock rd"
    and "openssh_roundtrip (crate env)"
  shows "test_handle_request_sign_host_certificate env cv fs rd base key pk = Ok ()"
proof -
  obtain fs' auth where ask: "ask_testhost env fs rd base key pk pk
      = attempt (handle_request env fs' auth rd (SignHostCertificate ''testhost'' pk))"
    and r: "read_host_config (hosts_toml env) fs' ''testhost'' (ca_config auth) = Ok \<lparr>hc_public_key = s,
      hc_validity_in_days = 30, hc_hostnames = [''testhost.example.com''], hc_extensions = []\<rparr>"
    using ask_testhost_reads [where env = env, OF assms(1-6)] by blast
  obtain k where k: "pk_from_openssh (crate env) s = Inr k" "pk_key_data (crate env) k = pk_key_data (crate env) pk"
    using assms(4,10) unfolding openssh_roundtrip_def by blast
  obtain c where c: "build_certificate (crate env) (private_key auth) rd ''host'' HostCert ''testhost'' 30
      [''testhost.example.com''] [] pk = Ok c"
    using builds [OF assms(8,9), where ps = "[''testhost.example.com'']" and es = "[]" and sk = "private_key auth"
      and pre = "''host''" and ty = HostCert and name = "''testhost''" and days = 30 and pk = pk] by auto
  have "sign_host_certificate env fs' auth rd ''testhost'' pk = Ok c"
    using r k c by (simp add: sign_host_certificate_def)
  with build_certificate_issued [OF assms(7) c] ask show ?thesis
    by (auto simp: test_handle_request_sign_host_certificate_def assert_certificate_def is_ok_simps
        assert_that_True issued_def)
qed

lemma test_server_wrong_key_passes:
  assumes "temp_dir fs base" and "valid_utf8 (abs_path base)" and "sk_from_openssh (crate env) key = Inr sk"
    and "pk_to_openssh (crate env) config_key = Inr s" and "valid_utf8 s"
    and "reads_entry (hosts_toml env) s ''testhost.example.com''"
    and "openssh_roundtrip (crate env)"
    and "error_on env \<longrightarrow> (\<forall>k. \<exists>s. pk_to_openssh (crate env) k = Inr s)"
    and "pk_key_data (crate env) config_key \<noteq> pk_key_data (crate env) pk"
  shows "test_handle_request_sign_host_certificate_wrong_key env fs rd base key config_key pk = Ok ()"
proof -
  obtain fs' auth where ask: "ask_testhost env fs rd base key config_key pk
      = attempt (handle_request env fs' auth rd (SignHostCertificate ''testhost'' pk))"
    and r: "read_host_config (hosts_toml env) fs' ''testhost'' (ca_config auth) = Ok \<lparr>hc_public_key = s,
      hc_validity_in_days = 30, hc_hostnames = [''testhost.example.com''], hc_extensions = []\<rparr>"
    using ask_testhost_reads [where env = env, OF assms(1-6)] by blast
  obtain k where k: "pk_from_openssh (crate env) s = Inr k"
      "pk_key_data (crate env) k = pk_key_data (crate env) config_key"
    using assms(4,7) unfolding openssh_roundtrip_def by blast
  have "log_keys env ks = Ok ()" for ks
    using assms(8) by (auto simp: log_keys_def) (metis Inl_Inr_False)
  then have "sign_host_certificate env fs' auth rd ''testhost'' pk = Err (WrongPublicKey ''testhost'')"
    using r k assms(9) by (simp add: sign_host_certificate_def)
  with ask show ?thesis
    by (simp add: test_handle_request_sign_host_certificate_wrong_key_def assert_that_True
        contains_str_iff_sublist)
qed

section \<open>Properties\<close>

text \<open>What the tests need of TOML and the template engine.\<close>

definition authority_toml :: "('pk, 'kd, 'sk, 'b, 'c) ca_env \<Rightarrow> bool" where
  "authority_toml env \<longleftrightarrow>
     users_toml env ''[users]'' = Inr \<lparr>users = Map.empty\<rparr>
     \<and> users_toml env (unlines [[], ''[users]'']) = Inr \<lparr>users = Map.empty\<rparr>
     \<and> renders (render_template env) (defaults_toml env) ''testuser''
         (template_text 1 [user_tag, ''admin''] [''permit-pty'', ''permit-port-forwarding''])
         \<lparr>ud_validity_in_days = 1, ud_principals = [''testuser'', ''admin''],
          ud_extensions = [''permit-pty'', ''permit-port-forwarding'']\<rparr>
     \<and> renders (render_template env) (defaults_toml env) ''testuser'' (template_text 7 [user_tag] [])
         \<lparr>ud_validity_in_days = 7, ud_principals = [''testuser''], ud_extensions = []\<rparr>
     \<and> renders (render_template env) (defaults_toml env) ''testuser'' (template_text 1 [user_tag] [''permit-pty''])
         \<lparr>ud_validity_in_days = 1, ud_principals = [''testuser''], ud_extensions = [''permit-pty'']\<rparr>"

text \<open>The files the first test reads, and what becomes of its template.\<close>

definition repository_user :: "('pk, 'kd, 'sk, 'b, 'c) ca_env \<Rightarrow> fs \<Rightarrow> bool" where
  "repository_user env fs \<longleftrightarrow>
     (\<exists>list template ul days ps es. repository_config fs list template \<and> users_toml env list = Inr ul
        \<and> users ul ''test'' = Some ''./test_user_template.toml''
        \<and> renders (render_template env) (defaults_toml env) ''test'' template
            \<lparr>ud_validity_in_days = days, ud_principals = ps, ud_extensions = es\<rparr>
        \<and> ps \<noteq> [] \<and> [] \<notin> set ps \<and> distinct es)"

text \<open>What the tests need of a generated key: it prints as at least two fields, the entries
  with it parse, and its first two fields alone parse to the same key data.\<close>

definition generated_key :: "('pk, 'kd, 'sk, 'b, 'c) ca_env \<Rightarrow> 'pk \<Rightarrow> bool" where
  "generated_key env pk \<longleftrightarrow>
     (\<exists>s search k. pk_to_openssh (crate env) pk = Inr s \<and> valid_utf8 s
        \<and> reads_entry (hosts_toml env) s ''myserver.example.com''
        \<and> reads_entry (hosts_toml env) s ''testhost.example.com''
        \<and> two_fields s = Ok search \<and> pk_from_openssh (crate env) search = Inr k
        \<and> pk_key_data (crate env) k = pk_key_data (crate env) pk)"

text \<open>C39. The tests of the authority and of its server pass on the model, with any generated
  keys: certificates have the type, key id, principals and extensions of the templates, a key
  is found under the name of its file or not at all, and the server answers each kind of
  request, refusing a host's request for another key. The test of the lifetime passes exactly
  when the two readings of the clock that a signature takes fall into the same second.\<close>

theorem authority_tests_pass:
  assumes dirs: "temp_dir fs base" "temp_dir fs base'" "valid_utf8 (abs_path base)" "valid_utf8 (abs_path base')"
    and keys: "sk_from_openssh (crate env) key = Inr sk" "generated_key env pk"
      "pk_key_data (crate env) pk \<noteq> pk_key_data (crate env) other"
    and laws: "builder_laws (crate env) bv cv" "builder_completes (crate env)" "openssh_roundtrip (crate env)"
    and printable: "error_on env \<longrightarrow> (\<forall>k. \<exists>s. pk_to_openssh (crate env) k = Inr s)"
    and texts: "authority_toml env" "repository_user env fs"
    and globs: "globs_to (glob env) (base @ [''hosts'']) []" "globs_to (glob env) (base' @ [''hosts'']) [''myserver.toml'']"
    and clock: "test_clock rd" "0 \<le> before_ns" "before_ns \<le> clock_after rd" "clock_before rd \<le> after_ns"
      "clock_range after_ns"
  shows "sign_certificate_test env fs rd sk key_path pk = Ok ()
    \<and> test_sign_certificate_principals env cv fs rd base key pk = Ok ()
    \<and> (test_sign_certificate_validity env cv fs before_ns rd after_ns base key pk = Ok ()
         \<longleftrightarrow> clock_after rd div 1000000000 = clock_before rd div 1000000000)
    \<and> test_check_public_key_found env fs base' key pk = Ok ()
    \<and> test_check_public_key_not_found env fs base key pk = Ok ()
    \<and> test_handle_request_sign_certificate env cv fs rd base key pk = Ok ()
    \<and> test_handle_request_check_public_key env fs rd base key pk = Ok ()
    \<and> test_handle_request_sign_host_certificate env cv fs rd base key pk = Ok ()
    \<and> test_handle_request_sign_host_certificate_wrong_key env fs rd base key pk other = Ok ()"
proof (intro conjI)
  note toml = texts(1) [unfolded authority_toml_def]
  obtain s search k where s: "pk_to_openssh (crate env) pk = Inr s" "valid_utf8 s"
      "reads_entry (hosts_toml env) s ''myserver.example.com''"
      "reads_entry (hosts_toml env) s ''testhost.example.com''"
    and search: "two_fields s = Ok search" "pk_from_openssh (crate env) search = Inr k"
      "pk_key_data (crate env) k = pk_key_data (crate env) pk"
    using keys(2) unfolding generated_key_def by blast
  obtain k0 where k0: "pk_from_openssh (crate env) s = Inr k0" "pk_key_data (crate env) k0 = pk_key_data (crate env) pk"
    using s(1) laws(3) unfolding openssh_roundtrip_def by blast
  show "sign_certificate_test env fs rd sk key_path pk = Ok ()"
    using texts(2) sign_certificate_test_passes [OF _ _ _ _ laws(1,2) clock(1)] unfolding repository_user_def by blast
  show "test_sign_certificate_principals env cv fs rd base key pk = Ok ()"
    using toml by (intro test_principals_passes [OF dirs(1) keys(1) laws(1,2) clock(1)]) blast+
  show "test_sign_certificate_validity env cv fs before_ns rd after_ns base key pk = Ok ()
      \<longleftrightarrow> clock_after rd div 1000000000 = clock_before rd div 1000000000"
    using toml test_validity_iff [OF dirs(1) keys(1) laws(1,2) clock(1-5)] by simp
  show "test_check_public_key_found env fs base' key pk = Ok ()"
    using test_found_passes [OF dirs(2,4) keys(1) s(1,2) search(1) s(3) globs(2) k0(1) search(2)] k0(2) search(3) by simp
  show "test_check_public_key_not_found env fs base key pk = Ok ()"
    by (rule test_not_found_passes [OF dirs(1,3) keys(1) s(1) search(1) globs(1)])
  show "test_handle_request_sign_certificate env cv fs rd base key pk = Ok ()"
    using toml by (intro test_server_user_passes [OF dirs(1,3) keys(1) laws(1,2) clock(1)]) blast+
  show "test_handle_request_check_public_key env fs rd base key pk = Ok ()"
    by (rule test_server_check_passes [OF dirs(1,3) keys(1) s(1) globs(1)])
  show "test_handle_request_sign_host_certificate env cv fs rd base key pk = Ok ()"
    by (rule test_server_host_passes [OF dirs(1,3) keys(1) s(1,2,4) laws(1,2) clock(1) laws(3)])
  show "test_handle_request_sign_host_certificate_wrong_key env fs rd base key pk other = Ok ()"
    by (rule test_server_wrong_key_passes [OF dirs(1,3) keys(1) s(1,2,4) laws(3) printable keys(3)])
qed

text \<open>The concrete instance: the crates of \<open>Reference_Crates\<close>, the engine of \<open>Defaults_Tests\<close>,
  and a parser that knows the templates by heart.\<close>

lemma ref_principals:
  "cf_principals (fold (\<lambda>p b. snd (cb_valid_principal ref_crate p b)) ps b) = cf_principals b @ filter (\<lambda>p. p \<noteq> []) ps"
  "cf_extensions (fold (\<lambda>p b. snd (cb_valid_principal ref_crate p b)) ps b) = cf_extensions b"
  by (induction ps arbitrary: b) (simp_all add: ref_crate_def)

lemma ref_extensions:
  "distinct es \<Longrightarrow> (\<forall>e \<in> set es. cf_extensions b e = None)
    \<Longrightarrow> \<exists>b'. add_each ref_crate es b b' \<and> cf_principals b' = cf_principals b"
proof (induction es arbitrary: b)
  case (Cons e es)
  let ?b = "b\<lparr>cf_extensions := (cf_extensions b)(e \<mapsto> [])\<rparr>"
  have "\<exists>b'. add_each ref_crate es ?b b' \<and> cf_principals b' = cf_principals ?b"
    using Cons.prems by (intro Cons.IH) auto
  moreover have "cb_extension ref_crate e [] b = Inr ?b"
    using Cons.prems by (simp add: ref_crate_def)
  ultimately show ?case by auto
qed simp

lemma ref_builder_completes: "builder_completes ref_crate"
  unfolding builder_completes_def
proof (intro conjI allI impI)
  fix p :: string and b assume "p \<noteq> []"
  then show "fst (cb_valid_principal ref_crate p b) = None"
    by (simp add: ref_crate_def)
next
  fix sk n t :: bytes and a z s :: u64 and i :: string and ty and ps es :: "string list" and pk :: ref_key
  assume args: "a \<le> z \<and> unat z < 2 ^ 63 \<and> i \<noteq> [] \<and> ps \<noteq> [] \<and> [] \<notin> set ps \<and> distinct es"
  let ?b3 = "\<lparr>cf_public_key = (fst pk, fst (snd pk)), cf_serial = s, cf_key_id = i, cf_type = ty,
    cf_principals = [], cf_valid_after = a, cf_valid_before = z, cf_comment = [], cf_extensions = (\<lambda>_. None)\<rparr>"
  let ?b4 = "(fold (\<lambda>p b. snd (cb_valid_principal ref_crate p b)) ps ?b3)\<lparr>cf_comment := t\<rparr>"
  have e: "cf_extensions ?b4 = (\<lambda>_. None)"
    by (simp add: ref_principals)
  obtain p where "p \<in> set ps" "p \<noteq> []"
    using args by (cases ps) auto
  then have "cf_principals ?b4 \<noteq> []"
    by (auto simp: ref_principals filter_empty_conv)
  moreover obtain b5 where "add_each ref_crate es ?b4 b5" "cf_principals b5 = cf_principals ?b4"
    using ref_extensions [of es ?b4] args e by auto
  moreover have "cb_new_with_random_nonce ref_crate n pk a z = Inr (?b3\<lparr>cf_serial := 0, cf_key_id := [], cf_type := UserCert\<rparr>)"
    using args by (simp add: ref_crate_def not_less)
  moreover have "cb_serial ref_crate s (?b3\<lparr>cf_serial := 0, cf_key_id := [], cf_type := UserCert\<rparr>)
      = Inr (?b3\<lparr>cf_key_id := [], cf_type := UserCert\<rparr>)"
    and "cb_key_id ref_crate i (?b3\<lparr>cf_key_id := [], cf_type := UserCert\<rparr>) = Inr (?b3\<lparr>cf_type := UserCert\<rparr>)"
    and "cb_cert_type ref_crate ty (?b3\<lparr>cf_type := UserCert\<rparr>) = Inr ?b3"
    by (simp_all add: ref_crate_def)
  moreover have "cb_comment ref_crate t (fold (\<lambda>p b. snd (cb_valid_principal ref_crate p b)) ps ?b3) = Inr ?b4"
    by (simp add: ref_crate_def)
  ultimately show "\<exists>b0 b1 b2 b3 b4 b5 c. cb_new_with_random_nonce ref_crate n pk a z = Inr b0
      \<and> cb_serial ref_crate s b0 = Inr b1 \<and> cb_key_id ref_crate i b1 = Inr b2 \<and> cb_cert_type ref_crate ty b2 = Inr b3
      \<and> cb_comment ref_crate t (fold (\<lambda>p b. snd (cb_valid_principal ref_crate p b)) ps b3) = Inr b4
      \<and> add_each ref_crate es b4 b5 \<and> cb_sign ref_crate sk b5 = Inr c"
    by (intro exI conjI) (assumption | simp add: ref_crate_def)+
qed

definition testuser_defaults :: "user_defaults toml_parser" where
  "testuser_defaults out = Inr
     (if out = ''testuser'' @ CHR 0x0A # template_text 1 [user_tag, ''admin''] [''permit-pty'', ''permit-port-forwarding'']
      then \<lparr>ud_validity_in_days = 1, ud_principals = [''testuser'', ''admin''],
        ud_extensions = [''permit-pty'', ''permit-port-forwarding'']\<rparr>
      else if out = ''testuser'' @ CHR 0x0A # template_text 7 [user_tag] []
      then \<lparr>ud_validity_in_days = 7, ud_principals = [''testuser''], ud_extensions = []\<rparr>
      else \<lparr>ud_validity_in_days = 1, ud_principals = [takeWhile (\<lambda>c. c \<noteq> CHR 0x0A) out],
        ud_extensions = [''permit-pty'']\<rparr>)"

definition example_test_env ::
  "(ref_key, string \<times> string, bytes, (string \<times> string) cert_fields,
    bytes \<times> (string \<times> string) cert_fields) ca_env"
where
  "example_test_env = \<lparr>crate = ref_crate, users_toml = example_lists, defaults_toml = testuser_defaults,
     hosts_toml = entry_parser, render_template = name_first,
     glob = (\<lambda>pat. Inr (if pat = ''/tmp/b/hosts/**/*.toml'' then [Some ''/tmp/b/hosts/myserver.toml''] else [])),
     debug_on = True, error_on = False\<rparr>"

lemma example_authority_toml: "authority_toml example_test_env"
proof -
  have "renders name_first testuser_defaults user t d \<longleftrightarrow> testuser_defaults (user @ CHR 0x0A # t) = Inr d" for user t d
    by (simp add: renders_def name_first_def)
  then show ?thesis
    by (simp add: authority_toml_def example_test_env_def example_lists_def testuser_defaults_def
        template_text_def user_tag_def unlines_def quoted_def dec.simps digit_char_def)
qed

lemma example_repository_user: "repository_user example_test_env example_repository"
  unfolding repository_user_def
proof (intro exI conjI)
  show "repository_config example_repository ''test=./test_user_template.toml'' ''validity_in_days=7''"
    by (simp add: repository_config_def example_repository_def tree_fs_def short_text_def is_ascii_def)
  show "users_toml example_test_env ''test=./test_user_template.toml'' = Inr \<lparr>users = [''test'' \<mapsto> ''./test_user_template.toml'']\<rparr>"
    by (simp add: example_test_env_def example_lists_def unlines_def quoted_def)
  show "renders (render_template example_test_env) (defaults_toml example_test_env) ''test'' ''validity_in_days=7''
      \<lparr>ud_validity_in_days = 1, ud_principals = [''test''], ud_extensions = [''permit-pty'']\<rparr>"
    by (simp add: renders_def example_test_env_def name_first_def testuser_defaults_def)
qed simp_all

lemma example_key_fields: "two_fields ''ssh-ed25519 AAAA me'' = Ok ''ssh-ed25519 AAAA''"
proof -
  have "\<forall>c \<in> set ''ssh-ed25519 AAAA me''. is_ascii c"
    by (simp add: is_ascii_def)
  from ascii_chars_of [OF this] show ?thesis
    by (simp add: two_fields_def split_whitespace_def is_whitespace_def code_point_def)
qed

lemma example_generated_key: "generated_key example_test_env (''ssh-ed25519'', ''AAAA'', ''me'')"
  unfolding generated_key_def
proof (intro exI conjI)
  show "pk_to_openssh (crate example_test_env) (''ssh-ed25519'', ''AAAA'', ''me'') = Inr ''ssh-ed25519 AAAA me''"
    and "pk_from_openssh (crate example_test_env) ''ssh-ed25519 AAAA'' = Inr (''ssh-ed25519'', ''AAAA'', [])"
    and "pk_key_data (crate example_test_env) (''ssh-ed25519'', ''AAAA'', [])
      = pk_key_data (crate example_test_env) (''ssh-ed25519'', ''AAAA'', ''me'')"
    by (simp_all add: example_test_env_def ref_crate_def)
  show "reads_entry (hosts_toml example_test_env) ''ssh-ed25519 AAAA me'' ''myserver.example.com''"
    and "reads_entry (hosts_toml example_test_env) ''ssh-ed25519 AAAA me'' ''testhost.example.com''"
    unfolding example_test_env_def ca_env.simps by (rule entry_parser_reads; simp)+
  show "two_fields ''ssh-ed25519 AAAA me'' = Ok ''ssh-ed25519 AAAA''"
    by (rule example_key_fields)
qed (simp add: ascii_valid is_ascii_def)

lemma authority_tests_pass_witness:
  "test_check_public_key_found example_test_env example_repository [''tmp'', ''b''] ''KEY'' (''ssh-ed25519'', ''AAAA'', ''me'') = Ok ()
   \<and> test_handle_request_sign_host_certificate_wrong_key example_test_env example_repository
       \<lparr>clock_after = 1700000000100000000, clock_before = 1700000000200000000, nonce = [], serial_no = 42\<rparr>
       [''tmp'', ''a''] ''KEY'' (''ssh-ed25519'', ''AAAA'', ''me'') (''ssh-ed25519'', ''BBBB'', []) = Ok ()"
proof -
  let ?rd = "\<lparr>clock_after = 1700000000100000000, clock_before = 1700000000200000000, nonce = [], serial_no = 42\<rparr>"
  have crate: "crate example_test_env = ref_crate"
    by (simp add: example_test_env_def)
  have key: "sk_from_openssh (crate example_test_env) ''KEY'' = Inr ''KEY''"
    and other: "pk_key_data (crate example_test_env) (''ssh-ed25519'', ''AAAA'', ''me'')
      \<noteq> pk_key_data (crate example_test_env) (''ssh-ed25519'', ''BBBB'', [])"
    and err: "error_on example_test_env \<longrightarrow> (\<forall>k. \<exists>s. pk_to_openssh (crate example_test_env) k = Inr s)"
    by (simp_all add: example_test_env_def ref_crate_def)
  have globs: "globs_to (glob example_test_env) ([''tmp'', ''a''] @ [''hosts'']) []"
      "globs_to (glob example_test_env) ([''tmp'', ''b''] @ [''hosts'']) [''myserver.toml'']"
    by (simp_all add: globs_to_def example_test_env_def abs_path_def)
  have clock: "test_clock ?rd" "(0::int) \<le> 1700000000000000000" "1700000000000000000 \<le> clock_after ?rd"
      "clock_before ?rd \<le> 1700000001000000000" "clock_range 1700000001000000000"
    by (simp_all add: test_clock_def clock_range_def)
  note laws = ref_crate_builder_laws ref_builder_completes ref_crate_openssh_roundtrip
  from authority_tests_pass [OF example_repository_dirs example_tmp_valid key example_generated_key other
      laws [folded crate] err example_authority_toml example_repository_user globs clock]
  show ?thesis by blast
qed

end
