(* ===== verification/Counter_Tests.thy ===== *)
theory Counter_Tests
  imports Test_Support Ca_Client
begin

text \<open>
  The test module of \<open>certificat_authority/ca_client.rs\<close>, and what it tests: a \<open>CaClient\<close> holds
  an \<open>Arc<AtomicU64>\<close>, so clones are several references to one counter. The model of
  \<open>Ca_Client\<close> has the counter in the client's record; here the reference is explicit, and
  the record is shown to be what every clone sees.
\<close>

section \<open>References to counters\<close>

text \<open>The counters in memory, by address, and a client as it is in memory.\<close>

type_synonym counters = "nat \<Rightarrow> u64"

record client_ref =
  r_socket_path :: string
  r_auth_token :: string
  r_counter :: nat

text \<open>\<open>CaClient::new\<close> puts a new counter at a free address; \<open>clone\<close> copies the reference.\<close>

definition ref_new :: "nat \<Rightarrow> string \<Rightarrow> string \<Rightarrow> counters \<Rightarrow> counters \<times> client_ref" where
  "ref_new a path tok h = (h(a := 0), \<lparr>r_socket_path = path, r_auth_token = tok, r_counter = a\<rparr>)"

definition ref_clone :: "client_ref \<Rightarrow> client_ref" where
  "ref_clone r = \<lparr>r_socket_path = r_socket_path r, r_auth_token = r_auth_token r, r_counter = r_counter r\<rparr>"

definition load :: "client_ref \<Rightarrow> counters \<Rightarrow> u64" where
  "load r h = h (r_counter r)"

definition store :: "client_ref \<Rightarrow> u64 \<Rightarrow> counters \<Rightarrow> counters" where
  "store r v h = h(r_counter r := v)"

text \<open>\<open>fetch_add\<close> is one atomic step: it gives the old value and wraps around.\<close>

definition fetch_add :: "client_ref \<Rightarrow> u64 \<Rightarrow> counters \<Rightarrow> counters \<times> u64" where
  "fetch_add r n h = (h(r_counter r := h (r_counter r) + n), h (r_counter r))"

text \<open>The numbering of \<open>send_request\<close> on references.\<close>

definition ref_next_counter :: "client_ref \<Rightarrow> counters \<Rightarrow> counters \<times> u64 outcome" where
  "ref_next_counter r h =
     (let (h', prev) = fetch_add r 1 h
      in (h', case checked_add prev 1 of
                None \<Rightarrow> Err (Message ''IPC counter exhausted: restart the CA process to restore service'')
              | Some n \<Rightarrow> Ok n))"

section \<open>What a clone sees\<close>

definition view :: "counters \<Rightarrow> client_ref \<Rightarrow> client" where
  "view h r = \<lparr>c_socket_path = r_socket_path r, c_auth_token = r_auth_token r, c_counter = h (r_counter r)\<rparr>"

definition clones :: "client_ref \<Rightarrow> client_ref \<Rightarrow> bool" where
  "clones r r' \<longleftrightarrow> r' = ref_clone r"

lemma view_new: "(case ref_new a path tok h of (h', r) \<Rightarrow> view h' r) = client_new path tok"
  by (simp add: ref_new_def view_def client_new_def)

lemma view_clone: "view h (ref_clone r) = view h r"
  by (simp add: ref_clone_def view_def)

text \<open>A new client is independent of all that hold other counters.\<close>

lemma view_other: "r_counter r \<noteq> a \<Longrightarrow> view (fst (ref_new a path tok h)) r = view h r"
  by (simp add: ref_new_def view_def)

lemma view_next:
  "snd (ref_next_counter r h) = snd (next_counter (view h r))"
  "view (fst (ref_next_counter r h)) r = fst (next_counter (view h r))"
  "r_counter r' \<noteq> r_counter r \<Longrightarrow> view (fst (ref_next_counter r h)) r' = view h r'"
  by (simp_all add: ref_next_counter_def next_counter_def fetch_add_def view_def Let_def)

text \<open>Numbers drawn in turn, each through the clone named by the schedule.\<close>

primrec draws :: "client_ref list \<Rightarrow> counters \<Rightarrow> counters \<times> u64 outcome list" where
  "draws [] h = (h, [])"
| "draws (r # rs) h =
     (let (h', x) = ref_next_counter r h; (h'', xs) = draws rs h' in (h'', x # xs))"

primrec draws_shared :: "nat \<Rightarrow> client \<Rightarrow> client \<times> u64 outcome list" where
  "draws_shared 0 c = (c, [])"
| "draws_shared (Suc k) c =
     (let (c', x) = next_counter c; (c'', xs) = draws_shared k c' in (c'', x # xs))"

lemma draws_view:
  assumes "list_all (clones r) rs"
  shows "draws_shared (length rs) (view h r) = (view (fst (draws rs h)) r, snd (draws rs h))"
  using assms
proof (induction rs arbitrary: h)
  case (Cons r1 rs)
  then have r1: "r1 = ref_clone r" by (simp add: clones_def)
  have "ref_next_counter r1 h = ref_next_counter r h"
    by (simp add: r1 ref_next_counter_def fetch_add_def ref_clone_def)
  moreover obtain h' x where n: "ref_next_counter r h = (h', x)"
    by fastforce
  moreover have "next_counter (view h r) = (view h' r, x)"
    using view_next(1,2) [of r h] n by (simp add: prod_eq_iff)
  ultimately show ?case
    using Cons by (simp add: Let_def case_prod_beta)
qed simp

section \<open>The tests\<close>

definition test_client :: "nat \<Rightarrow> counters \<Rightarrow> counters \<times> client_ref" where
  "test_client a h = ref_new a ''/tmp/test.sock'' ''test-token'' h"

definition test_counter_starts_at_zero :: "nat \<Rightarrow> counters \<Rightarrow> unit outcome" where
  "test_counter_starts_at_zero a h =
     (let (h, client) = test_client a h in assert_that (load client h = 0))"

definition test_counter_increment_behavior :: "nat \<Rightarrow> counters \<Rightarrow> unit outcome" where
  "test_counter_increment_behavior a h =
     (let (h, client) = test_client a h; (h, prev1) = fetch_add client 1 h; counter1 = prev1 + 1
      in and_then (assert_that (counter1 = 1)) (\<lambda>_.
         let (h, prev2) = fetch_add client 1 h; counter2 = prev2 + 1
         in and_then (assert_that (counter2 = 2)) (\<lambda>_.
            let (h, prev3) = fetch_add client 1 h; counter3 = prev3 + 1
            in assert_that (counter3 = 3))))"

definition test_cloned_clients_share_counter :: "nat \<Rightarrow> counters \<Rightarrow> unit outcome" where
  "test_cloned_clients_share_counter a h =
     (let (h, client1) = test_client a h; client2 = ref_clone client1;
          (h, prev1) = fetch_add client1 1 h; counter1 = prev1 + 1
      in and_then (assert_that (counter1 = 1)) (\<lambda>_.
         let (h, prev2) = fetch_add client2 1 h; counter2 = prev2 + 1
         in and_then (assert_that (counter2 = 2)) (\<lambda>_.
            and_then (assert_that (load client1 h = 2)) (\<lambda>_.
              assert_that (load client2 h = 2)))))"

text \<open>
  Ten threads, each incrementing a hundred times through a clone of the \<open>Arc\<close>: a schedule
  lists the thread of every \<open>fetch_add\<close>, in the order in which they happen.
\<close>

definition schedule :: "nat list \<Rightarrow> bool" where
  "schedule ts \<longleftrightarrow> set ts \<subseteq> {..<10} \<and> list_all (\<lambda>t. count_list ts t = 100) [0..<10]"

definition test_counter_thread_safety :: "nat list \<Rightarrow> nat \<Rightarrow> counters \<Rightarrow> unit outcome" where
  "test_counter_thread_safety ts a h =
     (let (h, client) = test_client a h; client_clone = (\<lambda>t. client);
          h = fold (\<lambda>t h. fst (fetch_add (client_clone t) 1 h)) ts h
      in assert_that (load client h = 1000))"

definition test_counter_near_max :: "nat \<Rightarrow> counters \<Rightarrow> unit outcome" where
  "test_counter_near_max a h =
     (let (h, client) = test_client a h; u64_max = (- 1 :: u64); h = store client (u64_max - 2) h;
          (h, prev1) = fetch_add client 1 h
      in and_then (assert_that (checked_add prev1 1 = Some (u64_max - 1))) (\<lambda>_.
         let (h, prev2) = fetch_add client 1 h
         in and_then (assert_that (checked_add prev2 1 = Some u64_max)) (\<lambda>_.
            let (h, prev3) = fetch_add client 1 h
            in and_then (assert_that (prev3 = u64_max)) (\<lambda>_.
                 assert_that (checked_add prev3 1 = None)))))"

lemma fetch_add_many:
  "fold (\<lambda>t h. fst (fetch_add r 1 h)) ts h (r_counter r) = h (r_counter r) + of_nat (length ts)"
  by (induction ts arbitrary: h) (simp_all add: fetch_add_def)

lemma schedule_length:
  assumes "schedule ts"
  shows "length ts = 1000"
proof -
  have "length ts = (\<Sum>t \<in> {..<10}. count_list ts t)"
    using assms by (intro sum_count_set [symmetric]) (auto simp: schedule_def)
  also have "\<dots> = (\<Sum>t \<in> {..<10::nat}. 100)"
    using assms by (intro sum.cong) (auto simp: schedule_def list_all_iff)
  finally show ?thesis by simp
qed

lemma last_counters:
  "checked_add (- 3 :: u64) 1 = Some (- 2)" "checked_add (- 2 :: u64) 1 = Some (- 1)"
  "checked_add (- 1 :: u64) 1 = None"
proof -
  have "unat (- 3 :: u64) = 2 ^ 64 - 3" and "unat (- 2 :: u64) = 2 ^ 64 - 2"
    by (simp_all add: unat_eq_nat_uint)
  then show "checked_add (- 3 :: u64) 1 = Some (- 2)" and "checked_add (- 2 :: u64) 1 = Some (- 1)"
    by (simp_all add: checked_add_def)
  show "checked_add (- 1 :: u64) 1 = None"
    by (simp add: checked_add_one_None_iff)
qed

lemma counter_tests:
  "test_counter_starts_at_zero a h = Ok ()" "test_counter_increment_behavior a h = Ok ()"
  "test_cloned_clients_share_counter a h = Ok ()" "test_counter_near_max a h = Ok ()"
  by (simp_all add: test_counter_starts_at_zero_def test_counter_increment_behavior_def
      test_cloned_clients_share_counter_def test_counter_near_max_def test_client_def ref_new_def
      ref_clone_def fetch_add_def load_def store_def Let_def last_counters assert_that_def)

lemma thread_safety_test:
  "schedule ts \<Longrightarrow> test_counter_thread_safety ts a h = Ok ()"
  by (simp add: test_counter_thread_safety_def test_client_def ref_new_def Let_def load_def
      fetch_add_many schedule_length assert_that_def)

lemma round_robin: "schedule (concat (replicate 100 [0..<10]))"
proof -
  have "count_list (concat (replicate n [0..<10])) t = n * count_list [0..<10] t" for n t :: nat
    by (induction n) simp_all
  moreover have "list_all (\<lambda>t. count_list [0..<10] t = 1) [0..<10::nat]"
    by code_simp
  ultimately show ?thesis
    by (auto simp: schedule_def list_all_iff simp del: upt.simps upt_rec_numeral)
qed

section \<open>Properties\<close>



end
