(* ===== verification/Spec2Isabelle.thy ===== *)
theory Spec2Isabelle
  imports Direct_Calls Launcher Ipc_System Fuzz_Targets Inventory_Tests Authority_Tests Counter_Tests
begin

text \<open>
  A verification library for the SSH certificate authority server (Rust, \<open>src/\<close> and
  \<open>fuzz/\<close> of the repository).

  The program. One executable runs as two processes. The SSH process (\<open>lib.rs\<close>,
  \<open>ssh_server/\<close>) accepts SSH connections: a person logs in with a password (checked by PAM,
  \<open>identiy_handlers/\<close>) and sends a public key, or a host logs in with its key and runs the
  command \<open>sign_host_key\<close>. Every question goes over a Unix socket (\<open>ca_client.rs\<close>,
  \<open>ca_server.rs\<close>) to the CA process, which alone holds the signing key. The CA
  (\<open>certificat_authority/mod.rs\<close>) takes the parameters of a user from a template
  (\<open>user_defaults_reader.rs\<close>) and those of a host from an inventory of TOML files
  (\<open>host_config_reader.rs\<close>), and signs. The SSH process spawns the CA and hands it a token
  through a file; every request carries the token and a counter that must increase.

  The theories, from the language up.
  \<^item> \<open>Rust_Prelude\<close> (results and panics as values of \<open>outcome\<close>, decimal printing, splitting),
    \<open>Utf8\<close> (strings are byte lists; validity, lossy decoding, white space), \<open>Rust_Path\<close>
    (\<open>std::path\<close>), \<open>File_System\<close> (resolution of paths with links and permissions, reading):
    the standard library, modelled from its documentation. Resolution follows at most
    \<open>max_links\<close> = 40 links, the limit of Linux.
  \<^item> \<open>Crates\<close>: the third-party crates as records of functions, and the documented laws the
    properties assume (\<open>builder_laws\<close>, \<open>openssh_roundtrip\<close>); \<open>Reference_Crates\<close>: one
    concrete instance that satisfies them, on which the witnesses are evaluated.
  \<^item> \<open>Ca_Common\<close>, \<open>Configuration\<close>, \<open>User_Defaults\<close>, \<open>Host_Inventory\<close>, \<open>Authority\<close>: the CA's
    data and its operations; one definition per function, under the function's name. A log
    macro evaluates its arguments only when its level is enabled, so \<open>debug_on\<close> and
    \<open>error_on\<close> are parameters where an argument can panic.
  \<^item> \<open>Ca_Ipc\<close> (messages, length-prefixed frames), \<open>Ca_Server\<close> (one connection: \<open>serve\<close>; the
    accept loop: \<open>run_loop\<close> over a list of accepted connections, so that it is structural
    recursion and needs no fuel), \<open>Ca_Client\<close> (\<open>send_request\<close>, and \<open>rpc\<close>, client and server
    joined), \<open>Ipc_System\<close> (requests of concurrent sessions, interleaved).
  \<^item> \<open>Identity\<close>, \<open>Ssh_Handler\<close> (the callbacks as functions of the handler's state; what they
    do to the session is a list of \<open>action\<close>s), \<open>Ssh_Session\<close> (one connection as a step
    relation), \<open>Ssh_Server\<close> (russh's configuration, connection ids, the table of sessions),
    \<open>Launcher\<close> (arguments, token file, spawning, waiting: at most ten pauses).
  \<^item> \<open>Deployment\<close>: all connections, the shared client and the authority behind the socket as
    one step relation, with the invariant that ties them together. \<open>Direct_Calls\<close>: its
    abstract specification, an SSH server that calls the authority directly, and the
    refinement.
  \<^item> \<open>Test_Support\<close>: what test code uses (assertions, \<open>unwrap\<close>, creating files, directories and
    links), and lemmas on fresh temporary directories. \<open>Fuzz_Targets\<close>: the fuzz targets as
    programs that return or panic, proved for all inputs. \<open>Inventory_Tests\<close>, \<open>Defaults_Tests\<close>,
    \<open>Authority_Tests\<close>, \<open>Counter_Tests\<close>: the inline test modules, one definition per test, proved
    to pass on the model in every fresh directory and for all generated keys; the last one
    also models clones of \<open>CaClient\<close> as references to one counter in memory.
  \<^item> This theory: the properties that span all of it.

  State and code. \<open>handler\<close> is \<open>ConnectionHandler\<close>, \<open>registry\<close> the table and counter of
  \<open>SshCaServer\<close>, \<open>client\<close> is \<open>CaClient\<close> (the \<open>AtomicU64\<close> is a 64-bit word), \<open>server\<close> is
  \<open>CaServer\<close>, \<open>authority\<close> is \<open>CertificateAuthority\<close>. Integers keep their width (\<open>u16\<close>, \<open>u32\<close>,
  \<open>u64\<close>). Errors are \<open>Err\<close>, panics \<open>Panic\<close>; a wait for a peer that never ends is \<open>Pending\<close>,
  \<open>Stalled\<close>, \<open>Waiting\<close> or \<open>None\<close>. Time, random numbers and the file system are arguments, new
  for every request, so that every property holds while administrators edit the files.

  Interfaces. \<open>config_section\<close> is the trait \<open>InsertConfigRoot\<close>, interpreted for both
  sections; \<open>certificate_issuer\<close> is what both signing methods promise; \<open>framing\<close> is the wire
  format; \<open>replay_guard\<close> is a state that admits increasing numbers only, interpreted for the
  server; \<open>user_authenticator\<close> is the trait of that name, interpreted for PAM.

  What the lemmas show. What a path that resolved or was canonicalised is, hence containment
  of everything that is read from the inventory; what every field of a certificate is, hence
  lifetimes and key ids; which requests the server executes, hence no replay; that the socket
  is transparent; which request a connection can make after which login; that callbacks do
  not panic; how processes start and stop; that the repository's own unit tests pass; and together, what a certificate that a client
  received proves about the person or host behind it.

  Not modelled. The crates listed in \<open>Crates\<close>, \<open>Ca_Ipc\<close>, \<open>Identity\<close> and \<open>Launcher\<close> (their code
  is not in the repository): they are arguments, and what a property needs of them is a
  hypothesis. russh itself: the order of its callbacks is the step relation of \<open>Ssh_Session\<close>;
  its timeouts and its counting of rejected attempts only end sessions earlier. Log output.
  Memory exhaustion. Shell scripts, packaging, and the integration tests: they
  connect the client of russh to running servers over TCP and assert that the login succeeds.
\<close>

section \<open>What the clients receive\<close>

text \<open>What every signed certificate of a deployment goes back to.\<close>

lemma delivered_certificate:
  assumes "json_roundtrip J" and "addressable J" and "addressable_answers J"
    and "deployed test_auth auths rk_print env J uid path tok auth D"
    and "(i, ChannelData ch out) \<in> set (d_out D)"
  obtains n req c fs rd
  where "session_run test_auth auths rk_print (crate env) n (d_sessions D ! i)"
    and "(req, Some (Ok (SignedCertificate c))) \<in> set (s_asked (d_sessions D ! i))"
    and "cert_to_openssh (crate env) c = Inr out"
    and "handle_request env fs auth rd req = Ok (SignedCertificate c)"
    and "answers_real env auth (s_asked (d_sessions D ! i))"
proof -
  have inv: "deployment_inv test_auth auths rk_print env auth D"
    using assms(1-4) by (rule deployed_inv)
  then obtain req c where i: "i < length (d_sessions D)"
    and c: "(req, Some (Ok (SignedCertificate c))) \<in> set (s_asked (d_sessions D ! i))"
      "cert_to_openssh (crate env) c = Inr out"
    using assms(5) unfolding deployment_inv_def by blast
  then obtain n where "session_run test_auth auths rk_print (crate env) n (d_sessions D ! i)"
    and real: "answers_real env auth (s_asked (d_sessions D ! i))"
    using inv nth_mem unfolding deployment_inv_def by blast
  moreover obtain fs rd where "handle_request env fs auth rd req = Ok (SignedCertificate c)"
    using real c(1) unfolding answers_real_def by blast
  ultimately show thesis
    using c that by blast
qed

lemma signed_request_cases:
  assumes "handle_request env fs auth rd req = Ok (SignedCertificate c)"
  obtains u k where "req = SignCertificate u k" and "sign_certificate env fs auth rd u k = Ok c"
    | h k where "req = SignHostCertificate h k" and "sign_host_certificate env fs auth rd h k = Ok c"
  using assms by (cases req) (auto simp: outcome_intros split: sum.splits)

lemma issued_type: "issued K pre ty rd name days ps es pk v \<Longrightarrow> cf_type v = ty"
  by (simp add: issued_def)

text \<open>What it means that an authenticator set up from the configuration accepted a password.\<close>

lemma accepted_password:
  assumes "setup_user_authenticators P names = Ok auths" and "a \<in> set auths" and "a u (Password pw) = Ok True"
  shows "u \<noteq> ''root''" and "\<not> (\<exists>n. user_from_name P u = Inr (Some n) \<and> n < 1000)"
    and "client_authenticate P u pw = Inr ()"
proof -
  have "pam_authenticate P u (Password pw) = Ok True"
    using setup_all_pam [OF assms(1)] assms(2,3) by auto
  then show "u \<noteq> ''root''" and "\<not> (\<exists>n. user_from_name P u = Inr (Some n) \<and> n < 1000)"
    and "client_authenticate P u pw = Inr ()"
    using pam.refuses [of P u "Password pw"]
    by (auto simp: pam_forbidden_def pam_authenticate_user_def outcome_intros split: if_splits)
qed



text \<open>A host name that a session was given is the authority's own answer for the printed key.\<close>

lemma real_key_answer:
  assumes "answers_real env auth asked" and "(CheckPublicKey k, Some (Ok (KeyFound (Some host)))) \<in> set asked"
  obtains fs printed where "pk_to_openssh (crate env) k = Inr printed"
    and "check_public_key env fs auth printed = Ok (Some host)"
proof -
  obtain fs rd where "handle_request env fs auth rd (CheckPublicKey k) = Ok (KeyFound (Some host))"
    using assms unfolding answers_real_def by blast
  then show thesis
    using that by (auto simp: outcome_intros split: sum.splits)
qed



section \<open>What a login is good for\<close>



end
